(* ===== verification/AFD_Prelude.thy ===== *)
theory AFD_Prelude
  imports Main
begin

text \<open>
  Shared vocabulary of the development: the exceptions the Python code raises, results that
  are either an exception or a value, Python's rounding-up division, indexing with
  \<open>range\<close> on unbounded integers, dictionaries that remember insertion order, and the
  wrap-around of \<open>torch.int32\<close> arithmetic.  The lemma collections
  \<open>result_simps\<close> and \<open>range_simps\<close> carry the automation of the component proofs.
\<close>

named_theorems result_simps \<open>unfolding of result-valued code\<close>
named_theorems range_simps \<open>membership and length of Python ranges\<close>

section \<open>Exceptions and results\<close>

text \<open>
  One constructor per exception class; the argument is the constant part of the message, so
  that two guards which raise the same class stay distinguishable.
\<close>

datatype error =
    ValueError string
  | TypeError string
  | RuntimeError string
  | KeyError
  | IndexError
  | ZeroDivisionError
  | AssertionError
  | StopIteration
  | NotImplementedError
  | AttributeError
  | ControlPlaneClosed
  | CancelledError
  | TimeoutError

type_synonym 'a result = "error + 'a"

definition is_ok :: "'a result \<Rightarrow> bool" where
  "is_ok r = (case r of Inl _ \<Rightarrow> False | Inr _ \<Rightarrow> True)"

definition bind_result :: "'a result \<Rightarrow> ('a \<Rightarrow> 'b result) \<Rightarrow> 'b result" where
  "bind_result r f = (case r of Inl e \<Rightarrow> Inl e | Inr x \<Rightarrow> f x)"

definition guard :: "bool \<Rightarrow> error \<Rightarrow> unit result" where
  "guard c e = (if c then Inl e else Inr ())"

fun map_result :: "('a \<Rightarrow> 'b result) \<Rightarrow> 'a list \<Rightarrow> 'b list result" where
  "map_result f [] = Inr []"
| "map_result f (x # xs) =
     bind_result (f x) (\<lambda>y. bind_result (map_result f xs) (\<lambda>ys. Inr (y # ys)))"

lemma is_ok_simps [simp]: "is_ok (Inr x)" "\<not> is_ok (Inl e)"
  by (simp_all add: is_ok_def)

lemma bind_result_simps [simp]:
  "bind_result (Inl e) f = Inl e"
  "bind_result (Inr x) f = f x"
  by (simp_all add: bind_result_def)

lemma bind_result_Inr [result_simps]:
  "bind_result r f = Inr y \<longleftrightarrow> (\<exists>x. r = Inr x \<and> f x = Inr y)"
  by (cases r) auto

lemma bind_result_Inl [result_simps]:
  "bind_result r f = Inl e \<longleftrightarrow> r = Inl e \<or> (\<exists>x. r = Inr x \<and> f x = Inl e)"
  by (cases r) auto

lemma guard_Inr [result_simps]: "guard c e = Inr u \<longleftrightarrow> \<not> c"
  by (simp add: guard_def)

lemma guard_Inl [result_simps]: "guard c e = Inl e' \<longleftrightarrow> c \<and> e' = e"
  by (auto simp: guard_def)

lemma bind_guard [simp]:
  "c \<Longrightarrow> bind_result (guard c e) f = Inl e"
  "\<not> c \<Longrightarrow> bind_result (guard c e) f = f ()"
  by (simp_all add: guard_def)

lemma map_result_Inr:
  "map_result f xs = Inr ys \<longleftrightarrow> list_all2 (\<lambda>x y. f x = Inr y) xs ys"
proof (induction xs arbitrary: ys)
  case (Cons x xs)
  then show ?case by (cases ys) (auto simp: bind_result_Inr)
qed (auto)

lemma map_result_map_Inr: "(\<And>x. x \<in> set xs \<Longrightarrow> f x = Inr (g x)) \<Longrightarrow> map_result f xs = Inr (map g xs)"
  by (induction xs) auto

lemma map_result_map: "map_result f (map g xs) = map_result (f \<circ> g) xs"
  by (induction xs) auto

section \<open>Operations on a state that may raise\<close>

text \<open>
  A method of a mutable object: what it did to the state before it raised stays done.
\<close>

type_synonym ('s, 'a) op = "'s \<Rightarrow> 's \<times> 'a result"

definition op_return :: "'a \<Rightarrow> ('s, 'a) op" where
  "op_return x = (\<lambda>s. (s, Inr x))"

definition op_raise :: "error \<Rightarrow> ('s, 'a) op" where
  "op_raise e = (\<lambda>s. (s, Inl e))"

definition op_bind :: "('s, 'a) op \<Rightarrow> ('a \<Rightarrow> ('s, 'b) op) \<Rightarrow> ('s, 'b) op" where
  "op_bind m f = (\<lambda>s. case m s of (s', Inl e) \<Rightarrow> (s', Inl e) | (s', Inr x) \<Rightarrow> f x s')"

definition op_modify :: "('s \<Rightarrow> 's) \<Rightarrow> ('s, unit) op" where
  "op_modify f = (\<lambda>s. (f s, Inr ()))"

definition op_get :: "('s \<Rightarrow> 'a) \<Rightarrow> ('s, 'a) op" where
  "op_get f = (\<lambda>s. (s, Inr (f s)))"

definition op_lift :: "('s \<Rightarrow> 'a result) \<Rightarrow> ('s, 'a) op" where
  "op_lift f = (\<lambda>s. (s, f s))"

definition op_guard :: "bool \<Rightarrow> error \<Rightarrow> ('s, unit) op" where
  "op_guard c e = (if c then op_raise e else op_return ())"

fun op_mapM :: "('a \<Rightarrow> ('s, 'b) op) \<Rightarrow> 'a list \<Rightarrow> ('s, 'b list) op" where
  "op_mapM f [] = op_return []"
| "op_mapM f (x # xs) = op_bind (f x) (\<lambda>y. op_bind (op_mapM f xs) (\<lambda>ys. op_return (y # ys)))"

text \<open>A loop that carries a value.\<close>

fun op_fold :: "('a \<Rightarrow> 'b \<Rightarrow> ('s, 'b) op) \<Rightarrow> 'a list \<Rightarrow> 'b \<Rightarrow> ('s, 'b) op" where
  "op_fold f [] b = op_return b"
| "op_fold f (x # xs) b = op_bind (f x b) (op_fold f xs)"

named_theorems op_simps \<open>execution of stateful operations\<close>

lemma op_return_app [simp, op_simps]: "op_return x s = (s, Inr x)"
  by (simp add: op_return_def)

lemma op_raise_app [simp, op_simps]: "op_raise e s = (s, Inl e)"
  by (simp add: op_raise_def)

lemma op_modify_app [simp, op_simps]: "op_modify f s = (f s, Inr ())"
  by (simp add: op_modify_def)

lemma op_get_app [simp, op_simps]: "op_get f s = (s, Inr (f s))"
  by (simp add: op_get_def)

lemma op_lift_app [simp, op_simps]: "op_lift f s = (s, f s)"
  by (simp add: op_lift_def)

lemma op_guard_app [simp, op_simps]: "op_guard c e s = (s, if c then Inl e else Inr ())"
  by (simp add: op_guard_def)

lemma op_bind_app [op_simps]:
  "op_bind m f s = (case m s of (s', r) \<Rightarrow> (case r of Inl e \<Rightarrow> (s', Inl e) | Inr x \<Rightarrow> f x s'))"
  by (simp add: op_bind_def split: prod.split sum.split)

lemma op_bind_Inr: "op_bind m f s = (t, Inr y) \<longleftrightarrow> (\<exists>u x. m s = (u, Inr x) \<and> f x u = (t, Inr y))"
  by (cases "m s"; cases "snd (m s)") (auto simp: op_bind_def)

lemma op_bindI: "m s = (u, Inr x) \<Longrightarrow> f x u = r \<Longrightarrow> op_bind m f s = r"
  by (simp add: op_bind_def)

lemma op_bind_run [simp]:
  "m s = (s', Inr x) \<Longrightarrow> op_bind m f s = f x s'"
  "m s = (s', Inl e) \<Longrightarrow> op_bind m f s = (s', Inl e)"
  by (simp_all add: op_bind_def)

text \<open>What every step preserves, the sequence preserves.\<close>

lemma op_bind_preserves:
  assumes "\<And>s. P s \<Longrightarrow> P (fst (m s))" "\<And>x s. P s \<Longrightarrow> P (fst (f x s))" "P s"
  shows "P (fst (op_bind m f s))"
  using assms(1) [OF assms(3)] assms(2) by (auto simp: op_bind_def split: prod.split sum.split)

text \<open>\<open>m\<close> keeps \<open>P\<close>, whether it returns or raises; one rule per way of building an operation.\<close>

definition keeps :: "('s \<Rightarrow> bool) \<Rightarrow> ('s, 'a) op \<Rightarrow> bool" where
  "keeps P m \<longleftrightarrow> (\<forall>s. P s \<longrightarrow> P (fst (m s)))"

named_theorems keeps_intros \<open>what an operation keeps\<close>

lemma keeps_bind [keeps_intros]: "keeps P m \<Longrightarrow> (\<And>x. keeps P (f x)) \<Longrightarrow> keeps P (op_bind m f)"
  unfolding keeps_def using op_bind_preserves [of P m f] by blast

lemma keeps_pure [keeps_intros]:
  "keeps P (op_return x)" "keeps P (op_raise e)" "keeps P (op_get g)" "keeps P (op_lift r)" "keeps P (op_guard c e)"
  by (simp_all add: keeps_def)

lemma keeps_modify [keeps_intros]: "(\<And>s. P s \<Longrightarrow> P (f s)) \<Longrightarrow> keeps P (op_modify f)"
  by (simp add: keeps_def)

lemma keeps_if [keeps_intros]: "keeps P m \<Longrightarrow> keeps P n \<Longrightarrow> keeps P (if b then m else n)"
  by simp

lemma keeps_case_option [keeps_intros]:
  "keeps P m \<Longrightarrow> (\<And>x. keeps P (f x)) \<Longrightarrow> keeps P (case z of None \<Rightarrow> m | Some x \<Rightarrow> f x)"
  by (cases z) auto

lemma keeps_case_prod [keeps_intros]: "(\<And>x y. keeps P (f x y)) \<Longrightarrow> keeps P (case z of (x, y) \<Rightarrow> f x y)"
  by (cases z) auto

lemma keeps_mapM [keeps_intros]: "(\<And>x. keeps P (f x)) \<Longrightarrow> keeps P (op_mapM f xs)"
  by (induction xs) (auto intro!: keeps_intros)

lemma keepsD: "keeps P m \<Longrightarrow> P s \<Longrightarrow> P (fst (m s))"
  by (simp add: keeps_def)

text \<open>A loop over a list establishes what each of its rounds establishes and the others keep.\<close>

lemma op_mapM_each:
  assumes "op_mapM f xs s = (s', Inr ys)"
    and "\<And>x s t y. x \<in> set xs \<Longrightarrow> f x s = (t, Inr y) \<Longrightarrow> Q x t"
    and "\<And>x z s t y. f z s = (t, Inr y) \<Longrightarrow> Q x s \<Longrightarrow> Q x t"
  shows "\<forall>x \<in> set xs. Q x s'"
  using assms
proof (induction xs arbitrary: s ys)
  case (Cons z zs)
  from Cons.prems(1) obtain u y ys' where u: "f z s = (u, Inr y)" "op_mapM f zs u = (s', Inr ys')"
    by (auto simp: op_bind_Inr)
  have later: "Q z s'"
  proof -
    have "Q z u" using Cons.prems(2) u(1) by force
    moreover have "op_mapM f ws v = (s', Inr vs) \<Longrightarrow> Q z v \<Longrightarrow> Q z s'" for ws v vs
      using Cons.prems(3) by (induction ws arbitrary: v vs) (auto simp: op_bind_Inr)
    ultimately show ?thesis using u(2) by blast
  qed
  have "\<forall>x \<in> set zs. Q x s'"
    by (rule Cons.IH [OF u(2)]) (use Cons.prems(2,3) in auto)
  with later show ?case by simp
qed simp

text \<open>From \<open>P\<close> an operation returns in \<open>Q\<close> or raises in \<open>E\<close>; one rule per way of building it.\<close>

definition op_spec :: "('s \<Rightarrow> bool) \<Rightarrow> ('s, 'a) op \<Rightarrow> ('a \<Rightarrow> 's \<Rightarrow> bool) \<Rightarrow> ('s \<Rightarrow> bool) \<Rightarrow> bool" where
  "op_spec P m Q E \<longleftrightarrow> (\<forall>s. P s \<longrightarrow> (case m s of (t, Inl e) \<Rightarrow> E t | (t, Inr x) \<Rightarrow> Q x t))"

lemma op_specD: "op_spec P m Q E \<Longrightarrow> P s \<Longrightarrow> case m s of (t, Inl e) \<Rightarrow> E t | (t, Inr x) \<Rightarrow> Q x t"
  by (simp add: op_spec_def)

lemma spec_weaken:
  assumes "op_spec P m Q E" "\<And>s. P' s \<Longrightarrow> P s" "\<And>x s. Q x s \<Longrightarrow> Q' x s" "\<And>s. E s \<Longrightarrow> E' s"
  shows "op_spec P' m Q' E'"
  unfolding op_spec_def
proof (intro allI impI)
  fix s assume "P' s"
  from op_specD [OF assms(1) assms(2) [OF this]] show "case m s of (t, Inl e) \<Rightarrow> E' t | (t, Inr x) \<Rightarrow> Q' x t"
    using assms(3,4) by (cases "m s"; cases "snd (m s)") auto
qed

lemma spec_bind:
  assumes "op_spec P m Q E" "\<And>x. op_spec (Q x) (f x) R E"
  shows "op_spec P (op_bind m f) R E"
  unfolding op_spec_def
proof (intro allI impI)
  fix s assume p: "P s"
  obtain t r where m: "m s = (t, r)" by fastforce
  then show "case op_bind m f s of (t, Inl e) \<Rightarrow> E t | (t, Inr x) \<Rightarrow> R x t"
    using op_specD [OF assms(1) p] op_specD [OF assms(2)] by (cases r) auto
qed

lemma spec_return: "(\<And>s. P s \<Longrightarrow> Q x s) \<Longrightarrow> op_spec P (op_return x) Q E"
  by (simp add: op_spec_def)

lemma spec_modify: "(\<And>s. P s \<Longrightarrow> Q () (f s)) \<Longrightarrow> op_spec P (op_modify f) Q E"
  by (simp add: op_spec_def)

lemma spec_lift: "(\<And>s. P s \<Longrightarrow> E s) \<Longrightarrow> (\<And>s x. P s \<Longrightarrow> f s = Inr x \<Longrightarrow> Q x s) \<Longrightarrow> op_spec P (op_lift f) Q E"
  by (simp add: op_spec_def split: sum.split)

lemma spec_get: "(\<And>x. op_spec (\<lambda>s. P s \<and> f s = x) (g x) Q E) \<Longrightarrow> op_spec P (op_bind (op_get f) g) Q E"
  by (simp add: op_spec_def op_bind_def)

lemma spec_if: "(b \<Longrightarrow> op_spec P m Q E) \<Longrightarrow> (\<not> b \<Longrightarrow> op_spec P n Q E) \<Longrightarrow> op_spec P (if b then m else n) Q E"
  by simp

lemma spec_mapM: "(\<And>x. op_spec P (f x) (\<lambda>_. P) E) \<Longrightarrow> op_spec P (op_mapM f xs) (\<lambda>_. P) E"
proof (induction xs)
  case Nil
  show ?case by (simp add: op_spec_def)
next
  case (Cons x xs)
  have rest: "op_spec P (op_bind (op_mapM f xs) (\<lambda>ys. op_return (y # ys))) (\<lambda>_. P) E" for y
    by (rule spec_bind [OF Cons.IH [OF Cons.prems]]) (simp add: spec_return)
  show ?case unfolding op_mapM.simps by (rule spec_bind [OF Cons.prems rest])
qed

lemma spec_keeps: "keeps P m \<Longrightarrow> (\<And>s. P s \<Longrightarrow> E s) \<Longrightarrow> op_spec P m (\<lambda>_. P) E"
  unfolding op_spec_def keeps_def by (auto split: prod.split sum.split)

section \<open>Integer division as Python computes it\<close>

text \<open>\<open>-(-a // b)\<close>: division rounding up.  Python raises for \<open>b = 0\<close>; callers guard it.\<close>

definition ceil_div :: "int \<Rightarrow> int \<Rightarrow> int" where
  "ceil_div a b = - ((- a) div b)"

lemma le_div_iff: "0 < (b::int) \<Longrightarrow> k \<le> a div b \<longleftrightarrow> k * b \<le> a"
proof
  assume b: "0 < b" and "k \<le> a div b"
  then have "k * b \<le> a div b * b" by simp
  also have "\<dots> \<le> a" using b by (metis pos_mod_sign div_mult_mod_eq le_add_same_cancel1)
  finally show "k * b \<le> a" .
next
  assume b: "0 < b" and "k * b \<le> a"
  from zdiv_mono1 [OF \<open>k * b \<le> a\<close> b] b show "k \<le> a div b" by simp
qed

lemma ceil_div_le_iff: "0 < b \<Longrightarrow> ceil_div a b \<le> k \<longleftrightarrow> a \<le> k * b"
  using le_div_iff [of b "- k" "- a"] by (auto simp: ceil_div_def)

lemma ceil_div_ge: "0 < b \<Longrightarrow> a \<le> ceil_div a b * b"
  using ceil_div_le_iff [of b a "ceil_div a b"] by simp

lemma ceil_div_mono: "0 < b \<Longrightarrow> a \<le> a' \<Longrightarrow> ceil_div a b \<le> ceil_div a' b"
  by (meson ceil_div_le_iff ceil_div_ge order_trans)

lemma ceil_div_gt_iff: "0 < b \<Longrightarrow> k < ceil_div a b \<longleftrightarrow> k * b < a"
  using ceil_div_le_iff [of b a k] by linarith

lemma ceil_div_lt: "0 < b \<Longrightarrow> ceil_div a b * b < a + b"
  using ceil_div_gt_iff [of b "ceil_div a b - 1" a] by (simp add: algebra_simps)

lemma ceil_div_nonneg: "0 < b \<Longrightarrow> 0 \<le> a \<Longrightarrow> 0 \<le> ceil_div a b"
  using ceil_div_gt_iff [of b "-1" a] by linarith

lemma ceil_div_pos: "0 < b \<Longrightarrow> 0 < a \<Longrightarrow> 0 < ceil_div a b"
  using ceil_div_gt_iff [of b 0 a] by simp

lemma ceil_div_one [simp]: "ceil_div a 1 = a"
  by (simp add: ceil_div_def)

lemma ceil_div_alt: "0 < b \<Longrightarrow> (a + b - 1) div b = ceil_div a b"
proof -
  assume b: "0 < b"
  have 1: "ceil_div a b * b \<le> a + b - 1" using ceil_div_lt [OF b, of a] by linarith
  have 2: "a + b - 1 < ceil_div a b * b + b" using ceil_div_ge [OF b, of a] by linarith
  show ?thesis
    by (rule int_div_pos_eq [where r = "a + b - 1 - ceil_div a b * b"])
       (use 1 2 in \<open>auto simp: algebra_simps\<close>)
qed

section \<open>Ranges and indexing\<close>

text \<open>\<open>range(a, b)\<close> as the list it enumerates.\<close>

definition py_range :: "int \<Rightarrow> int \<Rightarrow> int list" where
  "py_range a b = [a..b - 1]"

lemma set_py_range [simp, range_simps]: "set (py_range a b) = {a..<b}"
  by (auto simp: py_range_def)

lemma length_py_range [simp, range_simps]: "length (py_range a b) = nat (b - a)"
  by (simp add: py_range_def)

lemma distinct_py_range [simp]: "distinct (py_range a b)"
  by (simp add: py_range_def)

lemma nth_py_range [simp]: "i < nat (b - a) \<Longrightarrow> py_range a b ! i = a + int i"
  by (simp add: py_range_def)

lemma py_range_empty [simp]: "b \<le> a \<Longrightarrow> py_range a b = []"
  by (simp add: py_range_def)

lemma py_range_Cons: "a < b \<Longrightarrow> py_range a b = a # py_range (a + 1) b"
  by (simp add: py_range_def upto_rec1)

lemma py_range_append: "a \<le> b \<Longrightarrow> b \<le> c \<Longrightarrow> py_range a b @ py_range b c = py_range a c"
proof -
  assume "a \<le> b" "b \<le> c"
  then show ?thesis
    using upto_split1 [of a b c] upto_split2 [of a "b - 1" "c - 1"]
    by (cases "a = b") (auto simp: py_range_def)
qed

lemma py_range_snoc: "a \<le> b \<Longrightarrow> py_range a (b + 1) = py_range a b @ [b]"
  using py_range_append [of a b "b + 1"] by (simp add: py_range_Cons [of b])

text \<open>Consecutive blocks of equal length.\<close>

lemma concat_blocks:
  assumes "0 \<le> k" "0 \<le> n"
  shows "concat (map (\<lambda>f. py_range (f * k) ((f + 1) * k)) (py_range 0 n)) = py_range 0 (n * k)"
  using assms(2)
proof (induction rule: int_ge_induct)
  case (step n)
  have "py_range 0 (n * k) @ py_range (n * k) ((n + 1) * k) = py_range 0 ((n + 1) * k)"
    by (rule py_range_append) (use step.hyps assms(1) in \<open>auto intro: mult_right_mono\<close>)
  then show ?case using step by (simp add: py_range_snoc)
qed simp

text \<open>\<open>xs[i]\<close> for a sequence: negative indices count from the end, others out of range raise.\<close>

definition py_get :: "'a list \<Rightarrow> int \<Rightarrow> 'a result" where
  "py_get xs i =
     (let j = (if i < 0 then int (length xs) + i else i)
      in if 0 \<le> j \<and> j < int (length xs) then Inr (xs ! nat j) else Inl IndexError)"

text \<open>\<open>xs[a:b]\<close> for \<open>0 \<le> a\<close> and \<open>0 \<le> b\<close>.\<close>

definition py_slice :: "int \<Rightarrow> int \<Rightarrow> 'a list \<Rightarrow> 'a list" where
  "py_slice a b xs = take (nat b - nat a) (drop (nat a) xs)"

lemma py_get_in_range: "0 \<le> i \<Longrightarrow> i < int (length xs) \<Longrightarrow> py_get xs i = Inr (xs ! nat i)"
  by (simp add: py_get_def)

text \<open>\<open>seq.index(x)\<close>: the first position, or a \<open>ValueError\<close>.\<close>

fun index_from :: "int \<Rightarrow> 'a list \<Rightarrow> 'a \<Rightarrow> int result" where
  "index_from k [] y = Inl (ValueError ''tuple.index(x): x not in tuple'')"
| "index_from k (x # xs) y = (if x = y then Inr k else index_from (k + 1) xs y)"

definition py_index :: "'a list \<Rightarrow> 'a \<Rightarrow> int result" where
  "py_index xs y = index_from 0 xs y"

lemma index_from_distinct:
  "distinct xs \<Longrightarrow> i < length xs \<Longrightarrow> index_from k xs (xs ! i) = Inr (k + int i)"
proof (induction xs arbitrary: k i)
  case (Cons x xs)
  then show ?case
    by (cases i) (auto simp: nth_mem)
qed simp

lemma py_index_nth: "distinct xs \<Longrightarrow> i < length xs \<Longrightarrow> py_index xs (xs ! i) = Inr (int i)"
  by (simp add: py_index_def index_from_distinct)

section \<open>Insertion-ordered dictionaries\<close>

text \<open>
  A Python \<open>dict\<close> is an association list with distinct keys in insertion order; storing
  under a present key keeps its position, as Python does.
\<close>

type_synonym ('k, 'v) dict = "('k \<times> 'v) list"

definition dict_get :: "('k, 'v) dict \<Rightarrow> 'k \<Rightarrow> 'v option" where
  "dict_get d k = map_of d k"

text \<open>\<open>d[k]\<close>.\<close>

definition dict_lookup :: "('k, 'v) dict \<Rightarrow> 'k \<Rightarrow> 'v result" where
  "dict_lookup d k = (case dict_get d k of None \<Rightarrow> Inl KeyError | Some v \<Rightarrow> Inr v)"

fun dict_put :: "'k \<Rightarrow> 'v \<Rightarrow> ('k, 'v) dict \<Rightarrow> ('k, 'v) dict" where
  "dict_put k v [] = [(k, v)]"
| "dict_put k v ((k', v') # d) = (if k = k' then (k, v) # d else (k', v') # dict_put k v d)"

definition dict_of :: "('k \<times> 'v) list \<Rightarrow> ('k, 'v) dict" where
  "dict_of kvs = fold (\<lambda>(k, v) d. dict_put k v d) kvs []"

definition dict_pop :: "'k \<Rightarrow> ('k, 'v) dict \<Rightarrow> ('k, 'v) dict" where
  "dict_pop k d = filter (\<lambda>(k', _). k' \<noteq> k) d"

definition dict_keys :: "('k, 'v) dict \<Rightarrow> 'k list" where
  "dict_keys d = map fst d"

definition wf_dict :: "('k, 'v) dict \<Rightarrow> bool" where
  "wf_dict d = distinct (map fst d)"

lemma dict_get_put [simp]: "dict_get (dict_put k v d) k' = (if k' = k then Some v else dict_get d k')"
  by (induction d) (auto simp: dict_get_def)

lemma keys_dict_put: "fst ` set (dict_put k v d) = insert k (fst ` set d)"
  by (induction k v d rule: dict_put.induct) (simp_all add: insert_commute)

lemma set_dict_put: "set (dict_put k v d) \<subseteq> insert (k, v) (set d)"
  by (induction k v d rule: dict_put.induct) auto

lemma wf_dict_put [intro, simp]: "wf_dict d \<Longrightarrow> wf_dict (dict_put k v d)"
  by (induction d) (auto simp: wf_dict_def keys_dict_put)

lemma wf_dict_empty [simp]: "wf_dict []"
  by (simp add: wf_dict_def)

lemma dict_put_fresh: "k \<notin> fst ` set d \<Longrightarrow> dict_put k v d = d @ [(k, v)]"
  by (induction d) auto

lemma dict_of_distinct: "distinct (map fst kvs) \<Longrightarrow> dict_of kvs = kvs"
proof -
  have "distinct (map fst (d @ kvs)) \<Longrightarrow> fold (\<lambda>(k, v) d. dict_put k v d) kvs d = d @ kvs" for d
  proof (induction kvs arbitrary: d)
    case (Cons kv kvs)
    obtain k v where kv: "kv = (k, v)" by force
    with Cons.prems have "k \<notin> fst ` set d" by auto
    then have "dict_put k v d = d @ [kv]" by (simp add: kv dict_put_fresh)
    with Cons.IH [of "d @ [kv]"] Cons.prems show ?case by (simp add: kv)
  qed simp
  from this [of "[]"] show "distinct (map fst kvs) \<Longrightarrow> ?thesis" by (simp add: dict_of_def)
qed

lemma dict_get_Nil [simp]: "dict_get [] k = None"
  by (simp add: dict_get_def)

lemma dict_get_Cons: "dict_get ((k', v) # d) k = (if k = k' then Some v else dict_get d k)"
  by (auto simp: dict_get_def)

lemma wf_dict_Cons: "wf_dict ((k, v) # d) \<longleftrightarrow> dict_get d k = None \<and> wf_dict d"
  by (auto simp: wf_dict_def dict_get_def map_of_eq_None_iff)

lemma dict_get_pop [simp]: "dict_get (dict_pop k d) k' = (if k' = k then None else dict_get d k')"
  by (induction d) (auto simp: dict_get_def dict_pop_def)

lemma wf_dict_pop [intro, simp]: "wf_dict d \<Longrightarrow> wf_dict (dict_pop k d)"
  unfolding wf_dict_def dict_pop_def by (induction d) auto

lemma dict_get_mem: "dict_get d k = Some v \<Longrightarrow> (k, v) \<in> set d"
  by (simp add: dict_get_def map_of_SomeD)

lemma dict_get_in: "wf_dict d \<Longrightarrow> (k, v) \<in> set d \<Longrightarrow> dict_get d k = Some v"
  by (simp add: dict_get_def wf_dict_def)

lemma dict_get_None: "dict_get d k = None \<longleftrightarrow> k \<notin> set (map fst d)"
  by (simp add: dict_get_def map_of_eq_None_iff)

section \<open>32-bit tensor elements\<close>

text \<open>Two's-complement wrap-around of \<open>torch.int32\<close>, written out on \<open>int\<close>.\<close>

definition wrap32 :: "int \<Rightarrow> int" where
  "wrap32 x = (x + 2 ^ 31) mod 2 ^ 32 - 2 ^ 31"

definition fits32 :: "int \<Rightarrow> bool" where
  "fits32 x \<longleftrightarrow> - (2 ^ 31) \<le> x \<and> x < 2 ^ 31"

lemma wrap32_id [simp]: "fits32 x \<Longrightarrow> wrap32 x = x"
  by (simp add: wrap32_def fits32_def)

lemma fits32_wrap32 [simp]: "fits32 (wrap32 x)"
  by (simp add: wrap32_def fits32_def)

end
