(* ===== verification/Py_Value.thy ===== *)
theory Py_Value
  imports AFD_Prelude
begin

text \<open>
  Configuration values as they arrive from \<open>--additional-config\<close> (JSON-shaped Python
  objects) and the coercions of \<open>afd_plugin/config_utils.py\<close>.  Strings are ASCII, as
  \<open>char list\<close>; a float carries its \<open>repr\<close>, since the code never computes with one.
\<close>

datatype pyval =
    PNone
  | PBool bool
  | PInt int
  | PFloat string
  | PStr string
  | PList "pyval list"
  | PDict "(string \<times> pyval) list"

type_synonym pydict = "(string, pyval) dict"

section \<open>String and integer built-ins the coercions use\<close>

definition is_space :: "char \<Rightarrow> bool" where
  "is_space c = (let n = (of_char c :: nat) in n = 32 \<or> (9 \<le> n \<and> n \<le> 13) \<or> (28 \<le> n \<and> n \<le> 31))"

definition py_strip :: "string \<Rightarrow> string" where
  "py_strip s = rev (dropWhile is_space (rev (dropWhile is_space s)))"

definition lower_char :: "char \<Rightarrow> char" where
  "lower_char c = (let n = (of_char c :: nat) in if 65 \<le> n \<and> n \<le> 90 then char_of (n + 32) else c)"

definition py_lower :: "string \<Rightarrow> string" where
  "py_lower s = map lower_char s"

definition is_digit :: "char \<Rightarrow> bool" where
  "is_digit c = (let n = (of_char c :: nat) in 48 \<le> n \<and> n \<le> 57)"

definition digit_val :: "char \<Rightarrow> int" where
  "digit_val c = int (of_char c) - 48"

text \<open>
  The digit part of an integer literal: digits, single underscores between them; the flag
  says that the previous character was a digit.  \<open>None\<close> is the \<open>ValueError\<close> of \<open>int\<close>.
\<close>

fun digits_from :: "bool \<Rightarrow> int \<Rightarrow> string \<Rightarrow> int option" where
  "digits_from after_digit acc [] = (if after_digit then Some acc else None)"
| "digits_from after_digit acc (c # cs) =
     (if is_digit c then digits_from True (10 * acc + digit_val c) cs
      else if c = CHR ''_'' \<and> after_digit then digits_from False acc cs
      else None)"

definition int_max_str_digits :: nat where
  "int_max_str_digits = 4300"

text \<open>\<open>int(s)\<close> for a string, with the interpreter's default limit on the number of digits.\<close>

definition py_int_of_str :: "string \<Rightarrow> int option" where
  "py_int_of_str s =
     (let t = py_strip s;
          neg = (take 1 t = ''-'');
          body = (if neg \<or> take 1 t = ''+'' then drop 1 t else t)
      in if int_max_str_digits < length (filter is_digit body) then None
         else map_option (\<lambda>n. if neg then - n else n) (digits_from False 0 body))"

text \<open>\<open>bool(x)\<close>.\<close>

fun py_truthy :: "pyval \<Rightarrow> bool" where
  "py_truthy PNone = False"
| "py_truthy (PBool b) = b"
| "py_truthy (PInt i) = (i \<noteq> 0)"
| "py_truthy (PFloat r) = (r \<noteq> ''0.0'' \<and> r \<noteq> ''-0.0'')"
| "py_truthy (PStr s) = (s \<noteq> [])"
| "py_truthy (PList xs) = (xs \<noteq> [])"
| "py_truthy (PDict d) = (d \<noteq> [])"

section \<open>Coercions (\<open>config_utils.py\<close>)\<close>

definition true_words :: "string list" where
  "true_words = [''1'', ''true'', ''yes'', ''on'']"

definition false_words :: "string list" where
  "false_words = [''0'', ''false'', ''no'', ''off'']"

fun coerce_extra_bool :: "pyval \<Rightarrow> bool result" where
  "coerce_extra_bool (PBool b) = Inr b"
| "coerce_extra_bool (PInt i) =
     (if i = 1 then Inr True else if i = 0 then Inr False
      else Inl (TypeError ''must be a boolean''))"
| "coerce_extra_bool (PStr s) =
     (let lowered = py_lower (py_strip s)
      in if lowered \<in> set true_words then Inr True
         else if lowered \<in> set false_words then Inr False
         else Inl (TypeError ''must be a boolean''))"
| "coerce_extra_bool _ = Inl (TypeError ''must be a boolean'')"

fun coerce_extra_str :: "pyval \<Rightarrow> string result" where
  "coerce_extra_str (PStr s) = Inr (py_lower (py_strip s))"
| "coerce_extra_str _ = Inl (TypeError ''must be a string'')"

fun coerce_extra_int :: "pyval \<Rightarrow> int result" where
  "coerce_extra_int (PInt i) = Inr i"
| "coerce_extra_int (PStr s) =
     (case py_int_of_str s of
        Some i \<Rightarrow> Inr i
      | None \<Rightarrow> Inl (TypeError ''must be an integer''))"
| "coerce_extra_int _ = Inl (TypeError ''must be an integer'')"

definition coerce_extra_positive_int :: "pyval \<Rightarrow> int result" where
  "coerce_extra_positive_int v =
     bind_result (coerce_extra_int v) (\<lambda>coerced.
       if coerced \<le> 0 then Inl (ValueError ''must be positive'') else Inr coerced)"

definition coerce_optional_extra_positive_int :: "pyval \<Rightarrow> int option result" where
  "coerce_optional_extra_positive_int v =
     (if v = PNone \<or> v = PStr [] then Inr None
      else bind_result (coerce_extra_positive_int v) (\<lambda>i. Inr (Some i)))"

lemma coerce_positive_pos: "coerce_extra_positive_int v = Inr i \<Longrightarrow> 0 < i"
  by (auto simp: coerce_extra_positive_int_def result_simps split: if_splits)

lemma coerce_optional_pos: "coerce_optional_extra_positive_int v = Inr (Some i) \<Longrightarrow> 0 < i"
  by (auto simp: coerce_optional_extra_positive_int_def result_simps
      dest: coerce_positive_pos split: if_splits)

lemma coerce_int_never_truncates: "coerce_extra_int (PFloat r) = Inl (TypeError ''must be an integer'')"
  by simp

section \<open>Decimal notation\<close>

text \<open>\<open>str(i)\<close> for an integer: the reference against which the reader is proved.\<close>

fun nat_digits :: "nat \<Rightarrow> string" where
  "nat_digits n =
     (if n < 10 then [char_of (48 + n)] else nat_digits (n div 10) @ [char_of (48 + n mod 10)])"

declare nat_digits.simps [simp del]

definition py_str_int :: "int \<Rightarrow> string" where
  "py_str_int i = (if i < 0 then CHR ''-'' # nat_digits (nat (- i)) else nat_digits (nat i))"

lemma is_digit_char_of [simp]: "d < 10 \<Longrightarrow> is_digit (char_of (48 + d :: nat))"
  by (simp add: is_digit_def)

lemma digit_val_char_of [simp]: "d < 10 \<Longrightarrow> digit_val (char_of (48 + d :: nat)) = int d"
  by (simp add: digit_val_def)

lemma nat_digits_all_digits: "c \<in> set (nat_digits n) \<Longrightarrow> is_digit c"
proof (induction n rule: nat_digits.induct)
  case (1 n)
  then show ?case
    by (cases "n < 10") (auto simp: nat_digits.simps [of n])
qed

lemma nat_digits_nonempty [simp]: "nat_digits n \<noteq> []"
  by (simp add: nat_digits.simps [of n])

lemma digits_from_append:
  "digits_from b acc xs = Some v \<Longrightarrow> xs \<noteq> [] \<Longrightarrow> digits_from b acc (xs @ ys) = digits_from True v ys"
proof (induction xs arbitrary: b acc)
  case (Cons x xs)
  then show ?case by (cases "xs = []") (auto split: if_splits)
qed simp

lemma digits_from_snoc:
  "is_digit c \<Longrightarrow> xs \<noteq> [] \<Longrightarrow> digits_from b acc xs = Some v \<Longrightarrow>
   digits_from b acc (xs @ [c]) = Some (10 * v + digit_val c)"
  by (simp add: digits_from_append)

lemma digits_from_nat_digits: "digits_from False 0 (nat_digits n) = Some (int n)"
proof (induction n rule: nat_digits.induct)
  case (1 n)
  show ?case
  proof (cases "n < 10")
    case True
    then show ?thesis by (simp add: nat_digits.simps [of n])
  next
    case False
    with "1.IH" have "digits_from False 0 (nat_digits (n div 10)) = Some (int (n div 10))"
      by simp
    then have "digits_from False 0 (nat_digits (n div 10) @ [char_of (48 + n mod 10)])
        = Some (10 * int (n div 10) + digit_val (char_of (48 + n mod 10)))"
      by (intro digits_from_snoc) simp_all
    moreover have "10 * int (n div 10) + int (n mod 10) = int n"
      by (metis of_nat_add of_nat_mult of_nat_numeral mult_div_mod_eq)
    ultimately show ?thesis using False by (simp add: nat_digits.simps [of n])
  qed
qed

lemma nat_digits_inj: "nat_digits m = nat_digits n \<longleftrightarrow> m = n"
  by (metis digits_from_nat_digits of_nat_eq_iff option.inject)

lemma minus_neq_nat_digits: "CHR ''-'' # xs \<noteq> nat_digits n"
proof
  assume "CHR ''-'' # xs = nat_digits n"
  then have "CHR ''-'' \<in> set (nat_digits n)" by (metis list.set_intros(1))
  then have "is_digit (CHR ''-'')" by (rule nat_digits_all_digits)
  then show False by (simp add: is_digit_def)
qed

lemma py_str_int_inj: "py_str_int i = py_str_int j \<longleftrightarrow> i = j"
proof (cases "i < 0"; cases "j < 0")
  assume "i < 0" "\<not> j < 0"
  then show ?thesis using minus_neq_nat_digits by (auto simp: py_str_int_def)
next
  assume "\<not> i < 0" "j < 0"
  then show ?thesis using minus_neq_nat_digits by (metis py_str_int_def)
qed (auto simp: py_str_int_def nat_digits_inj)

lemma nat_digits_hd_not_sign: "take 1 (nat_digits n) \<noteq> ''-''" "take 1 (nat_digits n) \<noteq> ''+''"
proof -
  have "is_digit (hd (nat_digits n))"
    by (rule nat_digits_all_digits [of _ n]) simp
  moreover have "take 1 (nat_digits n) = [hd (nat_digits n)]"
    by (cases "nat_digits n") (use nat_digits_nonempty [of n] in auto)
  ultimately show "take 1 (nat_digits n) \<noteq> ''-''" "take 1 (nat_digits n) \<noteq> ''+''"
    by (auto simp: is_digit_def)
qed

end
