(* ===== verification/Config.thy ===== *)
theory Config
  imports Py_Value
begin

text \<open>
  \<open>afd_plugin/config.py\<close>: the AFD configuration, its normalisation from
  \<open>additional_config["afd"]\<close>, and its validation.  The dataclass does not check the types of
  \<open>connector\<close>, \<open>role\<close> and \<open>host\<close>, so they are arbitrary configuration values here; the
  numeric and boolean fields have passed a coercion.
\<close>

section \<open>The configuration record\<close>

definition AFD_ASYNC_CONNECTOR :: string where
  "AFD_ASYNC_CONNECTOR = ''CAMAsyncAFDConnector''"

definition CAMP2P_CONNECTOR :: string where
  "CAMP2P_CONNECTOR = ''CAMP2pAFDConnector''"

definition DEEPEP_M2N_CONNECTOR :: string where
  "DEEPEP_M2N_CONNECTOR = ''DeepEPM2NAFDConnector''"

definition P2P_CONNECTOR :: string where
  "P2P_CONNECTOR = ''P2pNcclAFDConnector''"

lemmas connector_names =
  AFD_ASYNC_CONNECTOR_def CAMP2P_CONNECTOR_def DEEPEP_M2N_CONNECTOR_def P2P_CONNECTOR_def

definition SUPPORTED_AFD_ROLES :: "pyval list" where
  "SUPPORTED_AFD_ROLES = [PStr ''attention'', PStr ''ffn'']"

definition SUPPORTED_AFD_CONNECTORS :: "pyval list" where
  "SUPPORTED_AFD_CONNECTORS =
     [PStr P2P_CONNECTOR, PStr DEEPEP_M2N_CONNECTOR, PStr CAMP2P_CONNECTOR, PStr AFD_ASYNC_CONNECTOR]"

definition ALIASES :: "(string \<times> string) list" where
  "ALIASES =
     [(''afd_connector'', ''connector''), (''afd_role'', ''role''), (''afd_port'', ''port''),
      (''afd_host'', ''host''), (''async'', ''async_dp'')]"

record afd_config =
  connector :: pyval
  async_dp :: bool
  role :: pyval
  port :: int
  host :: pyval
  num_attention_ranks :: int
  num_ffn_ranks :: int
  compute_gate_on_attention :: bool
  afd_process_group_timeout_s :: int
  connector_extra_config :: pydict

definition config_fields :: "string list" where
  "config_fields =
     [''connector'', ''async_dp'', ''role'', ''port'', ''host'', ''num_attention_ranks'',
      ''num_ffn_ranks'', ''compute_gate_on_attention'', ''afd_process_group_timeout_s'',
      ''connector_extra_config'']"

definition default_config :: afd_config where
  "default_config =
     \<lparr>connector = PStr P2P_CONNECTOR, async_dp = False, role = PStr ''attention'', port = 1239,
      host = PStr ''127.0.0.1'', num_attention_ranks = 1, num_ffn_ranks = 1,
      compute_gate_on_attention = False, afd_process_group_timeout_s = 120,
      connector_extra_config = []\<rparr>"

definition is_attention_server :: "afd_config \<Rightarrow> bool" where
  "is_attention_server c = (role c = PStr ''attention'')"

definition is_ffn_server :: "afd_config \<Rightarrow> bool" where
  "is_ffn_server c = (role c = PStr ''ffn'')"

section \<open>Normalisation\<close>

definition alias_of :: "string \<Rightarrow> string" where
  "alias_of key = (case map_of ALIASES key of Some k \<Rightarrow> k | None \<Rightarrow> key)"

text \<open>The loop over \<open>raw.items()\<close>: the normalized fields and the extra configuration so far.\<close>

fun normalize_loop :: "(string \<times> pyval) list \<Rightarrow> pydict \<Rightarrow> pydict option \<Rightarrow> (pydict \<times> pydict option) result" where
  "normalize_loop [] normalized extra = Inr (normalized, extra)"
| "normalize_loop ((key, v) # rest) normalized extra =
     (let k = alias_of key in
      if k = ''connector_extra_config'' then
        (case v of PDict d \<Rightarrow> normalize_loop rest normalized (Some d)
         | _ \<Rightarrow> Inl (TypeError ''must be a mapping''))
      else if k \<notin> set config_fields then Inl (ValueError ''unknown AFD config field'')
      else if dict_get normalized k \<noteq> None then Inl (ValueError ''duplicate AFD config field'')
      else normalize_loop rest (dict_put k v normalized) extra)"

text \<open>\<open>if field in normalized: normalized[field] = coerce(normalized[field])\<close>.\<close>

definition coerce_field :: "string \<Rightarrow> (pyval \<Rightarrow> pyval result) \<Rightarrow> pydict \<Rightarrow> pydict result" where
  "coerce_field k f d =
     (case dict_get d k of
        None \<Rightarrow> Inr d
      | Some v \<Rightarrow> bind_result (f v) (\<lambda>v'. Inr (dict_put k v' d)))"

definition to_bool :: "pyval \<Rightarrow> pyval result" where
  "to_bool v = bind_result (coerce_extra_bool v) (\<lambda>b. Inr (PBool b))"

definition to_int :: "pyval \<Rightarrow> pyval result" where
  "to_int v = bind_result (coerce_extra_int v) (\<lambda>i. Inr (PInt i))"

definition to_positive_int :: "pyval \<Rightarrow> pyval result" where
  "to_positive_int v = bind_result (coerce_extra_positive_int v) (\<lambda>i. Inr (PInt i))"

definition coerce_all :: "pydict \<Rightarrow> pydict result" where
  "coerce_all d =
     bind_result (coerce_field ''async_dp'' to_bool d) (\<lambda>d.
     bind_result (coerce_field ''port'' to_int d) (\<lambda>d.
     bind_result (coerce_field ''num_attention_ranks'' to_int d) (\<lambda>d.
     bind_result (coerce_field ''num_ffn_ranks'' to_int d) (\<lambda>d.
     bind_result (coerce_field ''afd_process_group_timeout_s'' to_positive_int d) (\<lambda>d.
     coerce_field ''compute_gate_on_attention'' to_bool d)))))"

definition normalize_mapping :: "pydict \<Rightarrow> (pydict \<times> pydict) result" where
  "normalize_mapping raw =
     bind_result (normalize_loop raw [] None) (\<lambda>(normalized, extra).
     bind_result (coerce_all normalized) (\<lambda>normalized.
     Inr (normalized, case extra of None \<Rightarrow> [] | Some e \<Rightarrow> e)))"

text \<open>\<open>AFDConfig(**normalized, connector_extra_config=...)\<close>: absent fields keep their defaults.\<close>

definition field_val :: "pydict \<Rightarrow> string \<Rightarrow> pyval \<Rightarrow> pyval" where
  "field_val d k dflt = (case dict_get d k of Some v \<Rightarrow> v | None \<Rightarrow> dflt)"

definition field_int :: "pydict \<Rightarrow> string \<Rightarrow> int \<Rightarrow> int" where
  "field_int d k dflt = (case dict_get d k of Some (PInt i) \<Rightarrow> i | _ \<Rightarrow> dflt)"

definition field_bool :: "pydict \<Rightarrow> string \<Rightarrow> bool \<Rightarrow> bool" where
  "field_bool d k dflt = (case dict_get d k of Some (PBool b) \<Rightarrow> b | _ \<Rightarrow> dflt)"

definition make_config :: "pydict \<Rightarrow> pydict \<Rightarrow> afd_config" where
  "make_config d extra =
     \<lparr>connector = field_val d ''connector'' (connector default_config),
      async_dp = field_bool d ''async_dp'' (async_dp default_config),
      role = field_val d ''role'' (role default_config),
      port = field_int d ''port'' (port default_config),
      host = field_val d ''host'' (host default_config),
      num_attention_ranks = field_int d ''num_attention_ranks'' (num_attention_ranks default_config),
      num_ffn_ranks = field_int d ''num_ffn_ranks'' (num_ffn_ranks default_config),
      compute_gate_on_attention =
        field_bool d ''compute_gate_on_attention'' (compute_gate_on_attention default_config),
      afd_process_group_timeout_s =
        field_int d ''afd_process_group_timeout_s'' (afd_process_group_timeout_s default_config),
      connector_extra_config = extra\<rparr>"

section \<open>Validation\<close>

definition topology_from_config :: "afd_config \<Rightarrow> int \<times> int" where
  "topology_from_config c = (num_attention_ranks c, num_ffn_ranks c)"

definition validate_p2p_topology :: "afd_config \<Rightarrow> unit result" where
  "validate_p2p_topology c =
     (let (attention_size, ffn_size) = topology_from_config c in
      guard (attention_size < ffn_size)
        (ValueError ''P2pNcclAFDConnector currently requires num_attention_ranks >= num_ffn_ranks''))"

definition validate_afd_config :: "afd_config \<Rightarrow> string option \<Rightarrow> unit result" where
  "validate_afd_config c expected_role =
     bind_result (guard (role c \<notin> set SUPPORTED_AFD_ROLES) (ValueError ''AFD role must be one of'')) (\<lambda>_.
     bind_result (guard (case expected_role of None \<Rightarrow> False | Some r \<Rightarrow> role c \<noteq> PStr r) (ValueError ''AFD role mismatch'')) (\<lambda>_.
     bind_result (guard (connector c \<notin> set SUPPORTED_AFD_CONNECTORS) (ValueError ''AFD connector must be one of'')) (\<lambda>_.
     bind_result (guard (async_dp c \<and> connector c \<noteq> PStr AFD_ASYNC_CONNECTOR) (ValueError ''AFD async mode requires'')) (\<lambda>_.
     bind_result (if connector c = PStr P2P_CONNECTOR then validate_p2p_topology c else Inr ()) (\<lambda>_.
     bind_result (guard (\<not> py_truthy (host c)) (ValueError ''AFD host must be non-empty'')) (\<lambda>_.
     bind_result (guard (\<not> (0 < port c \<and> port c < 65536)) (ValueError ''AFD port must be in 1..65535'')) (\<lambda>_.
     bind_result (guard (num_attention_ranks c \<le> 0) (ValueError ''num_attention_ranks must be positive'')) (\<lambda>_.
     guard (num_ffn_ranks c \<le> 0) (ValueError ''num_ffn_ranks must be positive'')))))))))"

section \<open>Parsing entry points\<close>

text \<open>
  The argument of the public functions: nothing, the \<open>additional_config\<close> mapping itself, or a
  \<open>VllmConfig\<close>, of which only the \<open>additional_config\<close> attribute is read.
\<close>

datatype config_source = SrcNone | SrcMapping pydict | SrcVllm pyval

fun additional_config_from_source :: "config_source \<Rightarrow> pydict option result" where
  "additional_config_from_source SrcNone = Inr None"
| "additional_config_from_source (SrcMapping d) = Inr (Some d)"
| "additional_config_from_source (SrcVllm PNone) = Inr None"
| "additional_config_from_source (SrcVllm (PDict d)) = Inr (Some d)"
| "additional_config_from_source (SrcVllm _) = Inl (TypeError ''additional_config must be a mapping'')"

definition afd_raw_from_source :: "config_source \<Rightarrow> pydict option result" where
  "afd_raw_from_source src =
     bind_result (additional_config_from_source src) (\<lambda>ac.
     case ac of
       None \<Rightarrow> Inr None
     | Some d \<Rightarrow>
         (case dict_get d ''afd'' of
            None \<Rightarrow> Inr None
          | Some (PDict raw) \<Rightarrow> Inr (Some raw)
          | Some _ \<Rightarrow> Inl (TypeError ''AFD config must be a mapping'')))"

definition has_afd_config :: "config_source \<Rightarrow> bool result" where
  "has_afd_config src =
     bind_result (additional_config_from_source src) (\<lambda>ac.
     Inr (case ac of None \<Rightarrow> False | Some d \<Rightarrow> dict_get d ''afd'' \<noteq> None))"

definition afd_config_from_mapping :: "pydict \<Rightarrow> bool \<Rightarrow> string option \<Rightarrow> afd_config result" where
  "afd_config_from_mapping raw validate expected_role =
     bind_result (normalize_mapping raw) (\<lambda>(normalized, extra).
     let c = make_config normalized extra in
     if validate then bind_result (validate_afd_config c expected_role) (\<lambda>_. Inr c) else Inr c)"

definition parse_optional_afd_config :: "config_source \<Rightarrow> bool \<Rightarrow> string option \<Rightarrow> afd_config option result" where
  "parse_optional_afd_config src validate expected_role =
     bind_result (afd_raw_from_source src) (\<lambda>raw.
     case raw of
       None \<Rightarrow> Inr None
     | Some d \<Rightarrow> bind_result (afd_config_from_mapping d validate expected_role) (\<lambda>c. Inr (Some c)))"

definition parse_afd_config :: "config_source \<Rightarrow> bool \<Rightarrow> string option \<Rightarrow> afd_config result" where
  "parse_afd_config src validate expected_role =
     bind_result (parse_optional_afd_config src validate expected_role) (\<lambda>c.
     case c of
       None \<Rightarrow> Inl (ValueError ''AFD config requires additional_config[afd]'')
     | Some c \<Rightarrow> Inr c)"

definition connector_extra_config_from_mapping :: "pydict \<Rightarrow> pydict result" where
  "connector_extra_config_from_mapping raw =
     bind_result (normalize_mapping raw) (\<lambda>(_, extra). Inr extra)"

definition connector_extra_config_from_source :: "config_source \<Rightarrow> pydict result" where
  "connector_extra_config_from_source src =
     bind_result (afd_raw_from_source src) (\<lambda>raw.
     case raw of None \<Rightarrow> Inr [] | Some d \<Rightarrow> connector_extra_config_from_mapping d)"

definition is_afd_active :: "config_source \<Rightarrow> bool result" where
  "is_afd_active src =
     bind_result (parse_optional_afd_config src True None) (\<lambda>c. Inr (c \<noteq> None))"

definition is_afd_async_dp :: "config_source \<Rightarrow> bool result" where
  "is_afd_async_dp src =
     bind_result (parse_optional_afd_config src False None) (\<lambda>c.
     Inr (case c of None \<Rightarrow> False
          | Some c \<Rightarrow> async_dp c \<and> connector c = PStr AFD_ASYNC_CONNECTOR))"

section \<open>What an accepted configuration satisfies\<close>

definition valid_config :: "afd_config \<Rightarrow> bool" where
  "valid_config c \<longleftrightarrow>
     role c \<in> {PStr ''attention'', PStr ''ffn''} \<and>
     connector c \<in> {PStr P2P_CONNECTOR, PStr DEEPEP_M2N_CONNECTOR, PStr CAMP2P_CONNECTOR,
                    PStr AFD_ASYNC_CONNECTOR} \<and>
     (async_dp c \<longrightarrow> connector c = PStr AFD_ASYNC_CONNECTOR) \<and>
     (connector c = PStr P2P_CONNECTOR \<longrightarrow> num_ffn_ranks c \<le> num_attention_ranks c) \<and>
     py_truthy (host c) \<and> 0 < port c \<and> port c < 65536 \<and>
     0 < num_attention_ranks c \<and> 0 < num_ffn_ranks c"

lemma validate_p2p_topology_Inr: "validate_p2p_topology c = Inr u \<longleftrightarrow> num_ffn_ranks c \<le> num_attention_ranks c"
  by (auto simp: validate_p2p_topology_def topology_from_config_def result_simps not_less)

lemma validate_afd_config_Inr:
  "validate_afd_config c r = Inr u \<longleftrightarrow> valid_config c \<and> (\<forall>x. r = Some x \<longrightarrow> role c = PStr x)"
  by (auto simp: validate_afd_config_def valid_config_def SUPPORTED_AFD_ROLES_def
      SUPPORTED_AFD_CONNECTORS_def result_simps validate_p2p_topology_Inr not_less not_le
      split: if_splits option.splits)

text \<open>Canonical spelling: every key replaced by the field it is an alias of.\<close>

definition canonicalise :: "pydict \<Rightarrow> pydict" where
  "canonicalise raw = map (\<lambda>(k, v). (alias_of k, v)) raw"

lemma alias_of_idem [simp]: "alias_of (alias_of k) = alias_of k"
  by (auto simp: alias_of_def ALIASES_def)

lemma normalize_loop_canonical:
  "normalize_loop (canonicalise raw) d e = normalize_loop raw d e"
proof (induction raw arbitrary: d e)
  case (Cons kv raw)
  then show ?case
    by (cases kv) (simp add: canonicalise_def Let_def split: pyval.split)
qed (simp add: canonicalise_def)

lemma normalize_mapping_canonical: "normalize_mapping (canonicalise raw) = normalize_mapping raw"
  by (simp add: normalize_mapping_def normalize_loop_canonical)

lemma parse_afd_config_valid:
  "parse_afd_config src True r = Inr c \<Longrightarrow> valid_config c \<and> (\<forall>x. r = Some x \<longrightarrow> role c = PStr x)"
  by (auto simp: parse_afd_config_def parse_optional_afd_config_def afd_config_from_mapping_def
      result_simps Let_def validate_afd_config_Inr split: option.splits)

text \<open>Coerced fields carry the coerced type, so \<^const>\<open>field_int\<close> never hides a wrong value.\<close>

lemma coerce_field_get:
  "coerce_field k f d = Inr d' \<Longrightarrow>
   dict_get d' k' = (if k' = k then
     (case dict_get d k of None \<Rightarrow> None | Some v \<Rightarrow> Some (projr (f v))) else dict_get d k')"
  by (auto simp: coerce_field_def result_simps split: option.splits)

lemma coerce_field_ok: "coerce_field k f d = Inr d' \<Longrightarrow> dict_get d k = Some v \<Longrightarrow> \<exists>v'. f v = Inr v'"
  by (auto simp: coerce_field_def result_simps)

lemma to_int_Inr [simp]: "to_int v = Inr w \<longleftrightarrow> (\<exists>i. w = PInt i \<and> coerce_extra_int v = Inr i)"
  by (auto simp: to_int_def result_simps)

lemma to_positive_int_Inr [simp]:
  "to_positive_int v = Inr w \<longleftrightarrow> (\<exists>i. w = PInt i \<and> coerce_extra_positive_int v = Inr i)"
  by (auto simp: to_positive_int_def result_simps)

lemma to_bool_Inr [simp]: "to_bool v = Inr w \<longleftrightarrow> (\<exists>b. w = PBool b \<and> coerce_extra_bool v = Inr b)"
  by (auto simp: to_bool_def result_simps)

end
