(* ===== verification/Vllm_Config.thy ===== *)
theory Vllm_Config
  imports Config
begin

text \<open>
  The attributes of vLLM's \<open>VllmConfig\<close> that the plugin reads, with \<open>model_config\<close>,
  \<open>parallel_config\<close>, \<open>compilation_config\<close> and \<open>speculative_config\<close> flattened into one record.
  \<open>architectures\<close> is \<open>model_config.hf_config.architectures\<close>; \<open>cudagraph_mode\<close> is an enum with
  a \<open>name\<close> or any other object known by its text.
\<close>

datatype graph_mode = NamedMode string | TextMode string

text \<open>
  vLLM's quantization config: none, an \<open>Fp8Config\<close> with its \<open>weight_block_size\<close>, or another one;
  with the name it reports.
\<close>

datatype quant = NoQuant | Fp8Quant "int list option" string | OtherQuant string

record vllm_config =
  additional_config :: pyval
  use_v2_model_runner :: bool
  enforce_eager :: bool
  architectures :: "string list"
  cudagraph_mode :: "graph_mode option"
  cudagraph_capture_sizes :: "int list"
  max_cudagraph_capture_size :: int
  max_num_batched_tokens :: int
  data_parallel_size :: int
  data_parallel_rank :: int
  tensor_parallel_size :: int
  pipeline_parallel_size :: int
  prefill_context_parallel_size :: int
  decode_context_parallel_size :: int
  enable_expert_parallel :: bool
  enable_elastic_ep :: bool
  enable_eplb :: bool
  use_sequence_parallel_moe :: bool
  enable_dbo :: bool
  use_ubatching :: bool
  num_ubatches :: int
  has_speculative_config :: bool
  expert_placement_strategy :: string
  all2all_backend :: string
  quant_config :: quant
  worker_cls :: pyval

definition source_of :: "vllm_config \<Rightarrow> config_source" where
  "source_of v = SrcVllm (additional_config v)"

section \<open>Qualified names\<close>

definition normalize_qualname :: "string \<Rightarrow> string" where
  "normalize_qualname value = map (\<lambda>c. if c = CHR '':'' then CHR ''.'' else c) value"

definition last_component :: "string \<Rightarrow> string" where
  "last_component s = rev (takeWhile (\<lambda>c. c \<noteq> CHR ''.'') (rev s))"

text \<open>\<open>s.removeprefix(p)\<close>.\<close>

definition removeprefix :: "string \<Rightarrow> string \<Rightarrow> string" where
  "removeprefix p s = (if take (length p) s = p then drop (length p) s else s)"

lemma removeprefix_append [simp]: "removeprefix p (p @ s) = s"
  by (simp add: removeprefix_def)

lemma normalize_qualname_idem [simp]: "normalize_qualname (normalize_qualname s) = normalize_qualname s"
  by (auto simp: normalize_qualname_def)

section \<open>Registered models\<close>

text \<open>The keys of \<open>_MODEL_REGISTRATIONS\<close>, and the subset of the Qwen3.5 registrations.\<close>

definition DEEPSEEK_MODEL_REGISTRATIONS :: "string list" where
  "DEEPSEEK_MODEL_REGISTRATIONS =
     [''DeepseekForCausalLM'', ''DeepseekV2ForCausalLM'', ''DeepseekV3ForCausalLM'',
      ''DeepseekV32ForCausalLM'', ''DeepseekV4ForCausalLM'', ''DSparkDraftModel'',
      ''GlmMoeDsaForCausalLM'']"

definition QWEN_MODEL_REGISTRATIONS :: "string list" where
  "QWEN_MODEL_REGISTRATIONS = [''Qwen3MoeForCausalLM'']"

definition QWEN3_5_MODEL_REGISTRATIONS :: "string list" where
  "QWEN3_5_MODEL_REGISTRATIONS = [''Qwen3_5MoeForConditionalGeneration'']"

definition MODEL_REGISTRATIONS :: "string list" where
  "MODEL_REGISTRATIONS =
     DEEPSEEK_MODEL_REGISTRATIONS @ QWEN_MODEL_REGISTRATIONS @ QWEN3_5_MODEL_REGISTRATIONS"

lemmas registration_defs =
  MODEL_REGISTRATIONS_def DEEPSEEK_MODEL_REGISTRATIONS_def QWEN_MODEL_REGISTRATIONS_def
  QWEN3_5_MODEL_REGISTRATIONS_def

definition has_afd_model_registration :: "vllm_config \<Rightarrow> bool" where
  "has_afd_model_registration v =
     list_ex (\<lambda>arch. removeprefix ''AFD'' arch \<in> set MODEL_REGISTRATIONS) (architectures v)"

text \<open>
  \<open>get_afd_model_config\<close>: the loop over the architectures.  The deep copy of the model
  configuration differs from the original in its architectures only.
\<close>

fun resolve_architectures :: "string \<Rightarrow> string list \<Rightarrow> string list \<Rightarrow> string list result" where
  "resolve_architectures device_type [] original = Inr original"
| "resolve_architectures device_type (arch # rest) original =
     (if arch \<in> set MODEL_REGISTRATIONS then
        if arch = ''DSparkDraftModel'' \<and> device_type \<noteq> ''npu''
        then Inl (ValueError ''AFD DSpark currently supports only the NPU backend'')
        else if arch \<in> set QWEN3_5_MODEL_REGISTRATIONS \<and> device_type \<noteq> ''cuda''
        then Inl (ValueError ''AFD Qwen3.5/3.6 supports CUDA execution only'')
        else Inr [''AFD'' @ arch]
      else resolve_architectures device_type rest original)"

definition get_afd_model_config :: "vllm_config \<Rightarrow> string \<Rightarrow> vllm_config result" where
  "get_afd_model_config v device_type =
     bind_result (resolve_architectures device_type (architectures v) (architectures v)) (\<lambda>archs.
     Inr (v\<lparr>architectures := archs\<rparr>))"

text \<open>No registered name starts with the prefix, so a resolved model is not resolved again.\<close>

lemma registered_no_prefix: "arch \<in> set MODEL_REGISTRATIONS \<Longrightarrow> ''AFD'' @ s \<noteq> arch"
  by (auto simp: registration_defs)

lemma removeprefix_registered: "arch \<in> set MODEL_REGISTRATIONS \<Longrightarrow> removeprefix ''AFD'' arch = arch"
  by (auto simp: registration_defs removeprefix_def)

lemma resolve_architectures_cases:
  "resolve_architectures dev archs orig = Inr out \<Longrightarrow>
   out = orig \<and> (\<forall>a \<in> set archs. a \<notin> set MODEL_REGISTRATIONS) \<or>
   (\<exists>a \<in> set archs. a \<in> set MODEL_REGISTRATIONS \<and> out = [''AFD'' @ a])"
  by (induction dev archs orig rule: resolve_architectures.induct) (auto split: if_splits)

lemma get_afd_model_config_cases:
  "get_afd_model_config v dev = Inr v' \<Longrightarrow>
   v' = v \<and> (\<forall>a \<in> set (architectures v). a \<notin> set MODEL_REGISTRATIONS) \<or>
   (\<exists>a \<in> set (architectures v). a \<in> set MODEL_REGISTRATIONS \<and> v' = v\<lparr>architectures := [''AFD'' @ a]\<rparr>)"
proof -
  assume "get_afd_model_config v dev = Inr v'"
  then obtain out where out: "resolve_architectures dev (architectures v) (architectures v) = Inr out"
    and v': "v' = v\<lparr>architectures := out\<rparr>"
    by (auto simp: get_afd_model_config_def bind_result_Inr)
  from resolve_architectures_cases [OF out] show ?thesis
    by (elim disjE) (auto simp: v')
qed

lemma get_afd_model_config_registered:
  assumes "get_afd_model_config v dev = Inr v'" "has_afd_model_registration v"
  shows "has_afd_model_registration v'"
  using get_afd_model_config_cases [OF assms(1)] assms(2)
proof (elim disjE)
  assume "\<exists>a \<in> set (architectures v). a \<in> set MODEL_REGISTRATIONS \<and> v' = v\<lparr>architectures := [''AFD'' @ a]\<rparr>"
  then show ?thesis by (auto simp: has_afd_model_registration_def removeprefix_def)
qed simp

end
