(* ===== verification/Topology.thy ===== *)
theory Topology
  imports Vllm_Config
begin

text \<open>
  \<open>afd_plugin/distributed/topology.py\<close>: the P2P world \<open>[F0, F1, .., A0, A1, ..]\<close>, the balanced
  assignment of Attention ranks to FFN ranks, and the destinations of the DP metadata.
  The assignment is stated as the interface \<open>block_partition\<close>: an owner function and the
  block of each owner, which are inverse to each other.
\<close>

section \<open>Rank mapping\<close>

record rank_mapping =
  rm_role :: pyval
  role_rank :: int
  world_rank :: int
  p2p_rank :: int
  attention_size :: int
  ffn_size :: int
  min_size :: int
  subgroup_index :: int
  rank_in_subgroup :: int
  subgroup_ranks :: "int list"
  dp_metadata_destinations :: "int list"

definition is_attention_top_min_size_rank :: "rank_mapping \<Rightarrow> bool" where
  "is_attention_top_min_size_rank m \<longleftrightarrow>
     ffn_size m \<le> world_rank m \<and> world_rank m < ffn_size m + min_size m"

definition participates_in_dp_metadata_group :: "rank_mapping \<Rightarrow> bool" where
  "participates_in_dp_metadata_group m \<longleftrightarrow>
     world_rank m < ffn_size m \<or> is_attention_top_min_size_rank m"

text \<open>Attention role ranks owned by one FFN rank.\<close>

definition subgroup_attention_block :: "int \<Rightarrow> int \<Rightarrow> int \<Rightarrow> int list" where
  "subgroup_attention_block g A F =
     py_range ((g * A + F - 1) div F) (((g + 1) * A + F - 1) div F)"

text \<open>The FFN rank an Attention rank belongs to: \<open>role_rank * ffn_size // attention_size\<close>.\<close>

definition subgroup_of_attention :: "int \<Rightarrow> int \<Rightarrow> int \<Rightarrow> int" where
  "subgroup_of_attention a A F = a * F div A"

text \<open>
  The \<open>while destination < ffn_size\<close> loop.  The caller enters it only when
  \<open>0 < min_size\<close>; that conjunct is the termination argument and never decides there.
\<close>

function dest_loop :: "int \<Rightarrow> int \<Rightarrow> int \<Rightarrow> int list" where
  "dest_loop destination step F =
     (if destination < F \<and> 0 < step then destination # dest_loop (destination + step) step F else [])"
  by pat_completeness auto
termination
  by (relation "measure (\<lambda>(d, s, F). nat (F - d))") auto

declare dest_loop.simps [simp del]

definition build_rank_mapping :: "afd_config \<Rightarrow> int \<Rightarrow> rank_mapping result" where
  "build_rank_mapping c rank =
     bind_result (validate_p2p_topology c) (\<lambda>_.
     let (A, F) = topology_from_config c in
     bind_result (guard (rank < 0) (ValueError ''AFD role rank must be non-negative'')) (\<lambda>_.
     bind_result
       (if role c = PStr ''attention'' then
          bind_result (guard (A \<le> rank) (ValueError ''Attention role rank must be within attention size''))
            (\<lambda>_. Inr (F + rank, subgroup_of_attention rank A F))
        else if role c = PStr ''ffn'' then
          bind_result (guard (F \<le> rank) (ValueError ''FFN role rank must be within FFN size''))
            (\<lambda>_. Inr (rank, rank))
        else Inl (ValueError ''unknown AFD role''))
       (\<lambda>(wr, g).
     let ms = min F A;
         attention_ranks = map (\<lambda>a. F + a) (subgroup_attention_block g A F);
         ranks = g # attention_ranks in
     bind_result (py_index ranks wr) (\<lambda>ris.
     Inr \<lparr>rm_role = role c, role_rank = rank, world_rank = wr,
          p2p_rank = (if role c = PStr ''attention'' then rank + ms else rank),
          attention_size = A, ffn_size = F, min_size = ms, subgroup_index = g,
          rank_in_subgroup = ris, subgroup_ranks = ranks,
          dp_metadata_destinations =
            (if F \<le> wr \<and> wr < F + ms then dest_loop (wr - F) ms F else [])\<rparr>))))"

section \<open>Role rank from vLLM's parallel placement\<close>

text \<open>
  The coordinates vLLM's process groups report; each is consulted only when the corresponding
  size of \<open>vllm_config.parallel_config\<close> exceeds one.
\<close>

record placement =
  pcp_rank_in_group :: int
  tp_rank_in_group :: int

definition resolve_role_rank :: "vllm_config \<Rightarrow> placement \<Rightarrow> afd_config \<Rightarrow> int result" where
  "resolve_role_rank v p c =
     (let dp_rank = (if 1 < data_parallel_size v then data_parallel_rank v else 0);
          pcp_rank = (if 1 < prefill_context_parallel_size v then pcp_rank_in_group p else 0);
          tp_rank = (if 1 < tensor_parallel_size v then tp_rank_in_group p else 0);
          rank = (dp_rank * prefill_context_parallel_size v + pcp_rank) * tensor_parallel_size v + tp_rank
      in bind_result
           (if role c = PStr ''attention'' then Inr (num_attention_ranks c)
            else if role c = PStr ''ffn'' then Inr (num_ffn_ranks c)
            else Inl (ValueError ''unknown AFD role''))
           (\<lambda>role_size.
             if \<not> (0 \<le> rank \<and> rank < role_size)
             then Inl (ValueError ''AFD role rank derived from distributed ranks is out of range'')
             else Inr rank))"

section \<open>Balanced blocks: an owner function and its inverse lookup\<close>

text \<open>
  The contract: \<open>owner\<close> sends every member of \<open>[0, A)\<close> to an owner in \<open>[0, F)\<close>, and
  \<open>block g\<close> enumerates in increasing order exactly the members \<open>g\<close> owns.
\<close>

locale block_partition =
  fixes owner :: "int \<Rightarrow> int \<Rightarrow> int \<Rightarrow> int"
    and block :: "int \<Rightarrow> int \<Rightarrow> int \<Rightarrow> int list"
  assumes owner_range: "0 < F \<Longrightarrow> 0 \<le> a \<Longrightarrow> a < A \<Longrightarrow> 0 \<le> owner a A F \<and> owner a A F < F"
    and block_sorted: "sorted_wrt (<) (block g A F)"
    and block_members: "0 < A \<Longrightarrow> 0 \<le> g \<Longrightarrow> g < F \<Longrightarrow>
      a \<in> set (block g A F) \<longleftrightarrow> 0 \<le> a \<and> a < A \<and> owner a A F = g"
begin

lemma block_distinct: "distinct (block g A F)"
  using block_sorted [of g] by (simp add: strict_sorted_iff)

lemma unique_block:
  "0 < F \<Longrightarrow> 0 \<le> a \<Longrightarrow> a < A \<Longrightarrow> \<exists>!g. 0 \<le> g \<and> g < F \<and> a \<in> set (block g A F)"
  using owner_range [of F a A] block_members [of A _ F a] by (intro ex1I [of _ "owner a A F"]) auto

lemma blocks_disjoint:
  "0 < A \<Longrightarrow> 0 \<le> g \<Longrightarrow> g < F \<Longrightarrow> 0 \<le> h \<Longrightarrow> h < F \<Longrightarrow> g \<noteq> h \<Longrightarrow>
   set (block g A F) \<inter> set (block h A F) = {}"
  using block_members [of A g F] block_members [of A h F] by auto

lemma blocks_cover: "0 < A \<Longrightarrow> 0 < F \<Longrightarrow> (\<Union>g \<in> {0..<F}. set (block g A F)) = {0..<A}"
  using block_members owner_range by fastforce

text \<open>Summing over the blocks sums over all members once.\<close>

lemma sum_blocks:
  assumes "0 < A" "0 < F"
  shows "(\<Sum>g = 0..<F. \<Sum>a \<leftarrow> block g A F. f a) = (\<Sum>a = 0..<A. (f a :: int))"
proof -
  have "(\<Sum>a \<leftarrow> block g A F. f a) = (\<Sum>a \<in> set (block g A F). f a)" for g
    by (simp add: sum_list_distinct_conv_sum_set block_distinct)
  then have "(\<Sum>g = 0..<F. \<Sum>a \<leftarrow> block g A F. f a) = (\<Sum>g = 0..<F. \<Sum>a \<in> set (block g A F). f a)"
    by simp
  also have "\<dots> = (\<Sum>a \<in> (\<Union>g \<in> {0..<F}. set (block g A F)). f a)"
    by (rule sum.UNION_disjoint [symmetric]) (use blocks_disjoint assms in auto)
  finally show ?thesis by (simp add: blocks_cover assms)
qed

end

text \<open>The blocks of the code, in rounding-up form.\<close>

lemma block_ceil:
  "0 < F \<Longrightarrow> subgroup_attention_block g A F = py_range (ceil_div (g * A) F) (ceil_div ((g + 1) * A) F)"
  by (simp add: subgroup_attention_block_def ceil_div_alt)

lemma sorted_py_range [simp]: "sorted_wrt (<) (py_range a b)"
  by (simp add: py_range_def)

lemma owner_bounds:
  assumes "0 \<le> a" "a < A" "0 < F"
  shows "0 \<le> subgroup_of_attention a A F" "subgroup_of_attention a A F < F"
proof -
  have A: "0 < A" using assms by simp
  show "0 \<le> subgroup_of_attention a A F"
    using assms A by (simp add: subgroup_of_attention_def pos_imp_zdiv_nonneg_iff)
  have "a * F < F * A" using assms by (simp add: mult.commute)
  then have "\<not> F \<le> a * F div A" using le_div_iff [OF A, of F "a * F"] by simp
  then show "subgroup_of_attention a A F < F" by (simp add: subgroup_of_attention_def)
qed

lemma mem_block_iff:
  assumes F: "0 < F" and A: "0 < A"
  shows "a \<in> set (subgroup_attention_block g A F) \<longleftrightarrow> subgroup_of_attention a A F = g"
proof -
  have "a \<in> set (subgroup_attention_block g A F) \<longleftrightarrow> g * A \<le> a * F \<and> a * F < (g + 1) * A"
    using F ceil_div_le_iff [OF F, of "g * A" a] ceil_div_gt_iff [OF F, of a "(g + 1) * A"]
    by (simp add: block_ceil)
  also have "\<dots> \<longleftrightarrow> g \<le> a * F div A \<and> a * F div A < g + 1"
    using le_div_iff [OF A, of g "a * F"] le_div_iff [OF A, of "g + 1" "a * F"] by (auto simp: not_le)
  finally show ?thesis by (auto simp: subgroup_of_attention_def)
qed

lemma owner_in_range:
  assumes F: "0 < F" and A: "0 < A" and g: "0 \<le> g" "g < F" and eq: "subgroup_of_attention a A F = g"
  shows "0 \<le> a \<and> a < A"
proof -
  from eq have *: "g * A \<le> a * F" "a * F < (g + 1) * A"
    using le_div_iff [OF A, of g "a * F"] le_div_iff [OF A, of "g + 1" "a * F"]
    by (auto simp: subgroup_of_attention_def)
  from *(1) g A have "0 \<le> a * F" by (meson mult_nonneg_nonneg order_trans less_imp_le)
  with F have "0 \<le> a" by (simp add: zero_le_mult_iff)
  moreover have "(g + 1) * A \<le> F * A" using g A by (intro mult_right_mono) auto
  with *(2) have "a * F < A * F" by (simp add: mult.commute)
  with F have "a < A" by simp
  ultimately show ?thesis by simp
qed

interpretation balanced: block_partition subgroup_of_attention subgroup_attention_block
proof
  fix a A F :: int assume "0 < F" "0 \<le> a" "a < A"
  then show "0 \<le> subgroup_of_attention a A F \<and> subgroup_of_attention a A F < F"
    using owner_bounds by blast
next
  fix g A F show "sorted_wrt (<) (subgroup_attention_block g A F)"
    by (simp add: subgroup_attention_block_def)
next
  fix g a A F :: int assume "0 < A" "0 \<le> g" "g < F"
  then show "a \<in> set (subgroup_attention_block g A F) \<longleftrightarrow> 0 \<le> a \<and> a < A \<and> subgroup_of_attention a A F = g"
    using mem_block_iff [of F A a g] owner_in_range [of F A g a] by auto
qed

text \<open>Sizes: every block is non-empty when there are at least as many members as owners.\<close>

lemma length_block:
  "0 < F \<Longrightarrow> int (length (subgroup_attention_block g A F)) = max 0 (ceil_div ((g + 1) * A) F - ceil_div (g * A) F)"
  by (simp add: block_ceil)

lemma block_size_bounds:
  assumes F: "0 < F" and A: "0 \<le> A"
  shows "A div F \<le> int (length (subgroup_attention_block g A F))"
    "int (length (subgroup_attention_block g A F)) \<le> ceil_div A F"
proof -
  let ?lo = "ceil_div (g * A) F" and ?hi = "ceil_div ((g + 1) * A) F"
  have nn: "0 \<le> A div F" using F A by (simp add: pos_imp_zdiv_nonneg_iff)
  have "A div F * F \<le> A" using le_div_iff [OF F, of "A div F" A] by simp
  moreover have "?lo * F < g * A + F" by (rule ceil_div_lt [OF F])
  ultimately have "(?lo + A div F - 1) * F < (g + 1) * A" by (simp add: algebra_simps)
  then have "?lo + A div F - 1 < ?hi" by (simp add: ceil_div_gt_iff [OF F])
  then show "A div F \<le> int (length (subgroup_attention_block g A F))"
    using nn by (simp add: length_block [OF F])
  have "g * A + A \<le> ?lo * F + ceil_div A F * F"
    using ceil_div_ge [OF F, of "g * A"] ceil_div_ge [OF F, of A] by linarith
  then have "(g + 1) * A \<le> (?lo + ceil_div A F) * F" by (simp add: algebra_simps)
  then have "?hi \<le> ?lo + ceil_div A F" by (simp add: ceil_div_le_iff [OF F])
  then show "int (length (subgroup_attention_block g A F)) \<le> ceil_div A F"
    using ceil_div_nonneg [OF F A] by (simp add: length_block [OF F])
qed

lemma block_nonempty: "0 < F \<Longrightarrow> F \<le> A \<Longrightarrow> subgroup_attention_block g A F \<noteq> []"
proof -
  assume F: "0 < F" "F \<le> A"
  then have "1 \<le> A div F" using le_div_iff [of F 1 A] by simp
  with block_size_bounds(1) [of F A g] F show ?thesis by auto
qed

section \<open>What the mapping gives\<close>

lemma subgroup_ranks_distinct:
  assumes "0 < A" "0 \<le> g" "g < F"
  shows "distinct (g # map (\<lambda>a. F + a) (subgroup_attention_block g A F))"
proof -
  have "0 \<le> a" if "a \<in> set (subgroup_attention_block g A F)" for a
    using balanced.block_members [of A g F a] that assms by simp
  then have "g \<notin> (\<lambda>a. F + a) ` set (subgroup_attention_block g A F)"
    using assms by force
  moreover have "distinct (map (\<lambda>a. F + a) (subgroup_attention_block g A F))"
    by (simp add: distinct_map balanced.block_distinct inj_on_def)
  ultimately show ?thesis by simp
qed

text \<open>The mapping an Attention process gets; its position in the subgroup is written out.\<close>

definition attention_mapping :: "int \<Rightarrow> int \<Rightarrow> int \<Rightarrow> rank_mapping" where
  "attention_mapping A F a =
     (let g = subgroup_of_attention a A F in
      \<lparr>rm_role = PStr ''attention'', role_rank = a, world_rank = F + a, p2p_rank = a + F,
       attention_size = A, ffn_size = F, min_size = F, subgroup_index = g,
       rank_in_subgroup = a - ceil_div (g * A) F + 1,
       subgroup_ranks = g # map (\<lambda>a. F + a) (subgroup_attention_block g A F),
       dp_metadata_destinations = (if a < F then dest_loop a F F else [])\<rparr>)"

definition ffn_mapping :: "int \<Rightarrow> int \<Rightarrow> int \<Rightarrow> rank_mapping" where
  "ffn_mapping A F f =
     \<lparr>rm_role = PStr ''ffn'', role_rank = f, world_rank = f, p2p_rank = f,
      attention_size = A, ffn_size = F, min_size = F, subgroup_index = f, rank_in_subgroup = 0,
      subgroup_ranks = f # map (\<lambda>a. F + a) (subgroup_attention_block f A F),
      dp_metadata_destinations = []\<rparr>"

lemma attention_position:
  assumes F: "0 < F" "F \<le> A" and a: "0 \<le> a" "a < A"
  defines "g \<equiv> subgroup_of_attention a A F"
  defines "j \<equiv> nat (a - ceil_div (g * A) F)"
  shows "ceil_div (g * A) F \<le> a" "j < length (subgroup_attention_block g A F)"
    "subgroup_attention_block g A F ! j = a"
proof -
  have "a \<in> set (subgroup_attention_block g A F)"
    using mem_block_iff [of F A a g] F by (simp add: g_def)
  then have *: "ceil_div (g * A) F \<le> a" "a < ceil_div ((g + 1) * A) F"
    using F by (simp_all add: block_ceil)
  then show "ceil_div (g * A) F \<le> a" by simp
  from * show "j < length (subgroup_attention_block g A F)" "subgroup_attention_block g A F ! j = a"
    using F by (simp_all add: block_ceil j_def)
qed

lemma build_attention:
  assumes c: "role c = PStr ''attention''" "num_attention_ranks c = A" "num_ffn_ranks c = F"
    and F: "0 < F" "F \<le> A" and a: "0 \<le> a" "a < A"
  shows "build_rank_mapping c a = Inr (attention_mapping A F a)"
proof -
  let ?g = "subgroup_of_attention a A F"
  let ?block = "subgroup_attention_block ?g A F"
  let ?ranks = "?g # map (\<lambda>a. F + a) ?block"
  let ?j = "nat (a - ceil_div (?g * A) F)"
  note pos = attention_position [OF F a]
  have "0 \<le> ?g" "?g < F" using owner_bounds a F by blast+
  then have "distinct ?ranks" by (intro subgroup_ranks_distinct) (use F in auto)
  then have "py_index ?ranks (?ranks ! Suc ?j) = Inr (int (Suc ?j))"
    by (rule py_index_nth) (use pos in simp)
  then have idx: "py_index ?ranks (F + a) = Inr (a - ceil_div (?g * A) F + 1)"
    using pos by simp
  have ms: "min F A = F" using F by simp
  show ?thesis
    using a F idx
    by (simp add: build_rank_mapping_def validate_p2p_topology_def topology_from_config_def c
        guard_def Let_def ms attention_mapping_def)
qed

lemma build_ffn:
  assumes c: "role c = PStr ''ffn''" "num_attention_ranks c = A" "num_ffn_ranks c = F"
    and F: "F \<le> A" and f: "0 \<le> f" "f < F"
  shows "build_rank_mapping c f = Inr (ffn_mapping A F f)"
proof -
  have "min F A = F" using F by simp
  then show ?thesis
    using f F by (simp add: build_rank_mapping_def validate_p2p_topology_def topology_from_config_def c
        guard_def Let_def py_index_def ffn_mapping_def)
qed

lemma dest_loop_single: "0 < F \<Longrightarrow> 0 \<le> a \<Longrightarrow> a < F \<Longrightarrow> dest_loop a F F = [a]"
  by (simp add: dest_loop.simps [of a F F] dest_loop.simps [of "a + F" F F])

lemma build_rank_mapping_role:
  "build_rank_mapping c r = Inr m \<Longrightarrow>
   role c \<in> {PStr ''attention'', PStr ''ffn''} \<and> num_ffn_ranks c \<le> num_attention_ranks c \<and> 0 \<le> r \<and>
   r < (if role c = PStr ''attention'' then num_attention_ranks c else num_ffn_ranks c)"
  by (auto simp: build_rank_mapping_def validate_p2p_topology_Inr result_simps Let_def
      topology_from_config_def split: if_splits)

end
