(* ===== verification/Graph.thy ===== *)
theory Graph
  imports Vllm_Config "HOL-Library.Multiset"
begin

text \<open>
  \<open>afd_plugin/v1/worker/cuda_graph.py\<close>: which CUDA graph modes AFD accepts, the key under
  which an FFN rank caches a captured graph, and the run mode of one step.
\<close>

section \<open>Policy\<close>

definition FULL_DECODE_ONLY :: string where
  "FULL_DECODE_ONLY = ''FULL_DECODE_ONLY''"

definition SUPPORTED_GRAPH_MODES :: "string option list" where
  "SUPPORTED_GRAPH_MODES = [Some FULL_DECODE_ONLY]"

datatype graph_run_mode = EAGER | WARMUP | CAPTURE | REPLAY

record graph_policy =
  policy_enabled :: bool
  mode_name :: "string option"
  allow_attention_full_decode_only :: bool
  enable_ffn_graph_cache :: bool
  allow_cuda_graph_with_ubatching :: bool

definition cudagraph_mode_name :: "vllm_config \<Rightarrow> string option" where
  "cudagraph_mode_name v =
     (case cudagraph_mode v of
        None \<Rightarrow> None
      | Some (NamedMode name) \<Rightarrow> Some name
      | Some (TextMode text) \<Rightarrow>
          (let text = (if CHR ''.'' \<in> set text then last_component text else text)
           in if text = [] then None else Some text))"

definition validate_cuda_graph_mode :: "vllm_config \<Rightarrow> string option \<Rightarrow> graph_policy result" where
  "validate_cuda_graph_mode v r =
     (let name = cudagraph_mode_name v;
          graph_enabled = (\<not> enforce_eager v) in
      if \<not> graph_enabled then
        Inr \<lparr>policy_enabled = False, mode_name = name, allow_attention_full_decode_only = False,
             enable_ffn_graph_cache = False, allow_cuda_graph_with_ubatching = False\<rparr>
      else if name \<notin> set SUPPORTED_GRAPH_MODES
      then Inl (RuntimeError ''AFD only supports CUDA graph mode FULL_DECODE_ONLY'')
      else
        (let allow_ubatching = (use_ubatching v \<and> num_ubatches v = 2) in
         if use_ubatching v \<and> \<not> allow_ubatching
         then Inl (RuntimeError ''AFD CUDA graph support currently supports ubatching only with exactly two ubatches'')
         else
           Inr \<lparr>policy_enabled = True, mode_name = name,
                allow_attention_full_decode_only = (r = None \<or> r = Some ''attention''),
                enable_ffn_graph_cache = (r = None \<or> r = Some ''ffn''),
                allow_cuda_graph_with_ubatching = allow_ubatching\<rparr>))"

section \<open>Graph key\<close>

text \<open>
  The token counts of a stage: a tensor or sequence of integers, a scalar, or none, in which
  case the key falls back to the object's \<open>repr\<close>.
\<close>

datatype count_values = ValueList "int list" | ScalarValue int

datatype graph_metadata = Counted count_values | Opaque string

datatype key_value = KInt int | KRepr string

fun metadata_values_tuple :: "count_values \<Rightarrow> int list" where
  "metadata_values_tuple (ValueList xs) = xs"
| "metadata_values_tuple (ScalarValue n) = [n]"

definition use_ffn_aggregated_key :: "int option \<Rightarrow> int option \<Rightarrow> bool result" where
  "use_ffn_aggregated_key A F =
     (case (A, F) of
        (Some a, Some f) \<Rightarrow>
          if a \<ge> f then (if f = 0 then Inl ZeroDivisionError else Inr (a mod f = 0)) else Inr False
      | _ \<Rightarrow> Inr False)"

definition aggregate_ffn_values_tuple :: "int list \<Rightarrow> int \<Rightarrow> int \<Rightarrow> int \<Rightarrow> int list result" where
  "aggregate_ffn_values_tuple values A F fallback =
     (let n = int (length values) in
      if n < A \<and> n = 0 then Inl ZeroDivisionError
      else
        (let expanded =
           (if n < A \<and> A mod n = 0
            then (let tp = A div n in map (\<lambda>i. values ! nat (i div tp)) (py_range 0 A))
            else values)
         in if int (length expanded) < A then Inr (map (\<lambda>_. max 1 fallback) (py_range 0 F))
            else (let group = A div F in
              Inr (map (\<lambda>i. max 1 (sum_list (py_slice (i * group) ((i + 1) * group) expanded)))
                (py_range 0 F)))))"

definition graph_key_values ::
  "int option \<Rightarrow> int option \<Rightarrow> int \<Rightarrow> graph_metadata \<Rightarrow> key_value list result" where
  "graph_key_values A F fallback m =
     bind_result (use_ffn_aggregated_key A F) (\<lambda>aggregated.
     case m of
       Opaque r \<Rightarrow>
         Inr (if aggregated then map (\<lambda>_. KInt (max 1 fallback)) (py_range 0 (the F)) else [KRepr r])
     | Counted values \<Rightarrow>
         (let vs = metadata_values_tuple values in
          if aggregated
          then bind_result (aggregate_ffn_values_tuple vs (the A) (the F) fallback) (\<lambda>vs. Inr (map KInt vs))
          else Inr (map KInt vs)))"

text \<open>Sorting the items compares the distinct stage indices only.\<close>

definition make_ffn_graph_key ::
  "(int, graph_metadata) dict \<Rightarrow> int option \<Rightarrow> int option \<Rightarrow> int \<Rightarrow> (int \<times> key_value list) list result" where
  "make_ffn_graph_key stages A F fallback =
     map_result (\<lambda>(s, m). bind_result (graph_key_values A F fallback m) (\<lambda>vs. Inr (s, vs)))
       (sort_key fst stages)"

definition graph_run_mode :: "bool \<Rightarrow> bool \<Rightarrow> bool \<Rightarrow> bool \<Rightarrow> bool \<Rightarrow> graph_run_mode" where
  "graph_run_mode warmup capturing replaying graph_enabled graph_exists =
     (if warmup then WARMUP
      else if capturing then CAPTURE
      else if replaying \<and> graph_enabled \<and> graph_exists then REPLAY
      else EAGER)"

section \<open>Facts\<close>

lemma validate_cuda_graph_mode_ok:
  "is_ok (validate_cuda_graph_mode v r) \<longleftrightarrow>
   enforce_eager v \<or> cudagraph_mode_name v = Some FULL_DECODE_ONLY \<and> (use_ubatching v \<longrightarrow> num_ubatches v = 2)"
  by (auto simp: validate_cuda_graph_mode_def SUPPORTED_GRAPH_MODES_def Let_def)

lemma graph_run_mode_replay:
  "graph_run_mode w c rp en ex = REPLAY \<longleftrightarrow> \<not> w \<and> \<not> c \<and> rp \<and> en \<and> ex"
  by (simp add: graph_run_mode_def)

lemma use_ffn_aggregated_key_None [simp]:
  "use_ffn_aggregated_key None F = Inr False" "use_ffn_aggregated_key A None = Inr False"
  by (simp_all add: use_ffn_aggregated_key_def split: option.split)

text \<open>The key does not depend on the order in which stages were inserted.\<close>

lemma sort_key_perm:
  fixes d d' :: "(int \<times> 'a) list"
  assumes "wf_dict d" "wf_dict d'" "set d = set d'"
  shows "sort_key fst d = sort_key fst d'"
proof -
  have "distinct d" "distinct d'" using assms by (auto simp: wf_dict_def distinct_map)
  then have "mset d = mset d'" using assms(3) by (simp add: set_eq_iff_mset_eq_distinct)
  then show ?thesis
    by (intro sort_key_inj_key_eq) (use assms in \<open>auto simp: wf_dict_def distinct_map\<close>)
qed

definition counts_of :: "(int, graph_metadata) dict \<Rightarrow> (int \<times> int list) set" where
  "counts_of d = (\<lambda>(s, m). (s, case m of Counted c \<Rightarrow> metadata_values_tuple c | Opaque _ \<Rightarrow> [])) ` set d"

definition plain_key :: "int \<times> graph_metadata \<Rightarrow> int \<times> key_value list" where
  "plain_key = (\<lambda>(s, m). (s, case m of Counted c \<Rightarrow> map KInt (metadata_values_tuple c) | Opaque r \<Rightarrow> [KRepr r]))"

lemma make_ffn_graph_key_plain:
  "make_ffn_graph_key d None None fb = Inr (map plain_key (sort_key fst d))"
  unfolding make_ffn_graph_key_def
  by (rule map_result_map_Inr) (auto simp: graph_key_values_def plain_key_def split: graph_metadata.split)

definition all_counted :: "(int, graph_metadata) dict \<Rightarrow> bool" where
  "all_counted d = list_all (\<lambda>(_, m). case m of Counted _ \<Rightarrow> True | Opaque _ \<Rightarrow> False) d"

definition counted_key :: "int \<times> int list \<Rightarrow> int \<times> key_value list" where
  "counted_key = (\<lambda>(s, ns). (s, map KInt ns))"

lemma counted_key_inj: "inj counted_key"
  by (auto simp: inj_def counted_key_def inj_map_eq_map)

lemma plain_key_counted: "all_counted d \<Longrightarrow> plain_key ` set d = counted_key ` counts_of d"
  unfolding all_counted_def counts_of_def list_all_iff image_image
  by (intro image_cong)
     (auto simp: plain_key_def counted_key_def split: graph_metadata.splits)

lemma map_plain_sort: "map plain_key (sort_key fst d) = sort_key fst (map plain_key d)"
  if "wf_dict d" for d :: "(int, graph_metadata) dict"
proof -
  have fst: "fst (plain_key x) = fst x" for x by (cases x) (simp add: plain_key_def)
  then have "inj_on fst (plain_key ` set d)" using that
    by (auto simp: wf_dict_def distinct_map inj_on_def)
  then show ?thesis
    by (intro sort_key_inj_key_eq [symmetric]) (simp_all add: fst comp_def)
qed

text \<open>Two control payloads select the same FFN graph key exactly when every stage has the same
  token counts in both, whatever the order in which the stages were stored (the runner passes
  no topology sizes).\<close>
theorem graph_key_iff_counts:
  assumes "wf_dict d" "wf_dict d'" "all_counted d" "all_counted d'"
  shows "make_ffn_graph_key d None None fb = make_ffn_graph_key d' None None fb' \<longleftrightarrow>
    counts_of d = counts_of d'"
proof
  assume "make_ffn_graph_key d None None fb = make_ffn_graph_key d' None None fb'"
  then have "map plain_key (sort_key fst d) = map plain_key (sort_key fst d')"
    by (simp add: make_ffn_graph_key_plain)
  then have "plain_key ` set d = plain_key ` set d'" by (metis set_map set_sort)
  then show "counts_of d = counts_of d'"
    by (simp add: plain_key_counted assms inj_image_eq_iff [OF counted_key_inj])
next
  assume "counts_of d = counts_of d'"
  then have "set (map plain_key d) = set (map plain_key d')" by (simp add: plain_key_counted assms)
  moreover have "wf_dict (map plain_key e)" if "wf_dict e" for e
    using that by (simp add: wf_dict_def comp_def plain_key_def case_prod_unfold)
  ultimately have "sort_key fst (map plain_key d) = sort_key fst (map plain_key d')"
    by (intro sort_key_perm) (use assms in auto)
  then show "make_ffn_graph_key d None None fb = make_ffn_graph_key d' None None fb'"
    by (simp add: make_ffn_graph_key_plain map_plain_sort assms)
qed


end
