(* ===== verification/Validation.thy ===== *)
theory Validation
  imports Topology Graph
begin

text \<open>
  \<open>afd_plugin/validation.py\<close>: the deployment checks a worker runs before any collective, and
  the selection of the worker class for a platform.  \<open>cam_receive_capacity\<close> multiplies binary32
  floats and is not modelled.
\<close>

section \<open>Names\<close>

definition ATTENTION_WORKER_FQCN :: string where
  "ATTENTION_WORKER_FQCN = ''afd_plugin.v1.worker.AFDAttentionWorker''"

definition FFN_WORKER_FQCN :: string where
  "FFN_WORKER_FQCN = ''afd_plugin.v1.worker.AFDFFNWorker''"

definition NPU_ATTENTION_WORKER_FQCN :: string where
  "NPU_ATTENTION_WORKER_FQCN = ''afd_plugin.v1.worker.npu.AFDNPUAttentionWorker''"

definition NPU_FFN_WORKER_FQCN :: string where
  "NPU_FFN_WORKER_FQCN = ''afd_plugin.v1.worker.npu.AFDNPUFFNWorker''"

definition VLLM_GPU_WORKER_FQCN :: string where
  "VLLM_GPU_WORKER_FQCN = ''vllm.v1.worker.gpu_worker.Worker''"

definition VLLM_ASCEND_NPU_WORKER_FQCN :: string where
  "VLLM_ASCEND_NPU_WORKER_FQCN = ''vllm_ascend.worker.worker.NPUWorker''"

definition VLLM_ASCEND_310P_WORKER_FQCN :: string where
  "VLLM_ASCEND_310P_WORKER_FQCN = ''vllm_ascend._310p.worker_310p.NPUWorker310''"

definition VLLM_ASCEND_XLITE_WORKER_FQCN :: string where
  "VLLM_ASCEND_XLITE_WORKER_FQCN = ''vllm_ascend.xlite.xlite_worker.XliteWorker''"

lemmas worker_names =
  ATTENTION_WORKER_FQCN_def FFN_WORKER_FQCN_def NPU_ATTENTION_WORKER_FQCN_def
  NPU_FFN_WORKER_FQCN_def VLLM_GPU_WORKER_FQCN_def VLLM_ASCEND_NPU_WORKER_FQCN_def
  VLLM_ASCEND_310P_WORKER_FQCN_def VLLM_ASCEND_XLITE_WORKER_FQCN_def

definition DEEPEP_M2N_CONNECTORS :: "pyval list" where
  "DEEPEP_M2N_CONNECTORS = [PStr DEEPEP_M2N_CONNECTOR]"

definition GPU_MRV2_NUM_UBATCHES :: int where
  "GPU_MRV2_NUM_UBATCHES = 2"

definition GPU_MRV2_CONNECTORS :: "pyval list" where
  "GPU_MRV2_CONNECTORS = PStr ''P2pNcclAFDConnector'' # DEEPEP_M2N_CONNECTORS"

definition ATTENTION_ROUTING_MODEL_ARCHITECTURES :: "string list" where
  "ATTENTION_ROUTING_MODEL_ARCHITECTURES = [''Qwen3MoeForCausalLM'', ''DeepseekV2ForCausalLM'']"

section \<open>Deployment checks\<close>

definition CAM_MAX_SOURCE_ROWS :: int where
  "CAM_MAX_SOURCE_ROWS = 2 ^ 16 - 1"

definition requested_ffn_mode :: "vllm_config \<Rightarrow> string result" where
  "requested_ffn_mode v =
     (if enforce_eager v then Inr ''eager''
      else case cudagraph_mode v of
        Some (NamedMode name) \<Rightarrow>
          if name \<noteq> ''FULL'' then Inl (ValueError ''Async FFN graph requires explicit cudagraph_mode=FULL'')
          else Inr ''full''
      | _ \<Rightarrow> Inl AttributeError)"

definition validate_graph_capacity :: "int \<Rightarrow> int \<Rightarrow> int \<Rightarrow> unit result" where
  "validate_graph_capacity max_tokens tp capacity =
     (if min max_tokens (min tp capacity) \<le> 0 \<or> max_tokens mod tp \<noteq> 0
      then Inl (ValueError ''Graph dispatch envelope must be positive and divisible by TP'')
      else if capacity < max_tokens
      then Inl (ValueError ''Async FFN graph capacity is smaller than the dispatch envelope'')
      else if max_tokens div tp > CAM_MAX_SOURCE_ROWS
      then Inl (ValueError ''Async CAM graph source rows exceed the uint16 protocol bound'')
      else Inr ())"

definition configured_ranks :: "afd_config \<Rightarrow> string \<Rightarrow> int" where
  "configured_ranks c expected_role =
     (if expected_role = ''attention'' then num_attention_ranks c else num_ffn_ranks c)"

text \<open>The \<open>DEEPEP_M2N_CONNECTORS\<close> block of the GPU validator.\<close>

definition validate_deepep_deployment :: "vllm_config \<Rightarrow> afd_config \<Rightarrow> string \<Rightarrow> unit result" where
  "validate_deepep_deployment v c expected_role =
     (if connector c \<in> set DEEPEP_M2N_CONNECTORS then
        bind_result (guard (expected_role = ''ffn'' \<and> tensor_parallel_size v \<noteq> 1)
          (RuntimeError ''requires FFN tensor_parallel_size=1'')) (\<lambda>_.
        bind_result (guard (\<not> compute_gate_on_attention c)
          (RuntimeError ''requires compute_gate_on_attention=true'')) (\<lambda>_.
        guard (\<not> list_ex (\<lambda>arch. removeprefix ''AFD'' arch \<in> set ATTENTION_ROUTING_MODEL_ARCHITECTURES)
                 (architectures v))
          (RuntimeError ''supports only ATTENTION_ROUTING_MODEL_ARCHITECTURES'')))
      else Inr ())"

definition no_pp_or_cp :: "vllm_config \<Rightarrow> bool" where
  "no_pp_or_cp v \<longleftrightarrow>
     (pipeline_parallel_size v, prefill_context_parallel_size v, decode_context_parallel_size v) = (1, 1, 1)"

definition validate_gpu_model_runner_v2_config :: "vllm_config \<Rightarrow> string \<Rightarrow> string \<Rightarrow> unit result" where
  "validate_gpu_model_runner_v2_config v expected_role device_type =
     bind_result (guard (\<not> use_v2_model_runner v) (RuntimeError ''AFD GPU requires ModelRunnerV2'')) (\<lambda>_.
     bind_result (parse_afd_config (source_of v) True (Some expected_role)) (\<lambda>c.
     bind_result (guard (device_type \<noteq> ''cuda'' \<or> connector c \<notin> set GPU_MRV2_CONNECTORS)
       (RuntimeError ''AFD ModelRunnerV2 requires CUDA and one of the synchronous connectors'')) (\<lambda>_.
     bind_result (validate_deepep_deployment v c expected_role) (\<lambda>_.
     bind_result (guard (\<not> no_pp_or_cp v) (RuntimeError ''AFD ModelRunnerV2 does not support PP or CP'')) (\<lambda>_.
     bind_result (guard (configured_ranks c expected_role \<noteq> data_parallel_size v * tensor_parallel_size v)
       (RuntimeError ''AFD ModelRunnerV2 ranks must match DP * TP'')) (\<lambda>_.
     bind_result (guard (\<not> enable_expert_parallel v \<or> enable_elastic_ep v \<or> enable_eplb v \<or>
         use_sequence_parallel_moe v)
       (RuntimeError ''AFD ModelRunnerV2 requires static expert parallelism'')) (\<lambda>_.
     bind_result (guard ((enable_dbo v \<or> use_ubatching v) \<and> num_ubatches v \<noteq> GPU_MRV2_NUM_UBATCHES)
       (RuntimeError ''AFD ModelRunnerV2 DBO/ubatching requires exactly two microbatches'')) (\<lambda>_.
     bind_result (guard (\<not> has_afd_model_registration v)
       (RuntimeError ''AFD ModelRunnerV2 requires a registered AFD model'')) (\<lambda>_.
     bind_result (validate_cuda_graph_mode v (Some expected_role)) (\<lambda>_. Inr ()))))))))))"

text \<open>The connector checks of the NPU validator, and its checks of two-microbatch execution.\<close>

definition validate_npu_connector :: "vllm_config \<Rightarrow> afd_config \<Rightarrow> string \<Rightarrow> unit result" where
  "validate_npu_connector v c expected_role =
     (if connector c = PStr AFD_ASYNC_CONNECTOR then
        bind_result (guard (\<not> async_dp c \<or> \<not> compute_gate_on_attention c)
          (RuntimeError ''Async CAM requires async DP and compute_gate_on_attention=true'')) (\<lambda>_.
        if \<not> enforce_eager v then
          bind_result (guard (expected_role = ''attention'')
            (RuntimeError ''Async CAM requires eager execution on Attention'')) (\<lambda>_.
          bind_result (requested_ffn_mode v) (\<lambda>_. Inr ()))
        else Inr ())
      else guard (connector c \<noteq> PStr CAMP2P_CONNECTOR \<or> compute_gate_on_attention c)
        (RuntimeError ''AFD NPU ModelRunnerV2 requires synchronous CAMP2pAFDConnector or Async CAM''))"

definition validate_npu_dbo :: "vllm_config \<Rightarrow> afd_config \<Rightarrow> string \<Rightarrow> unit result" where
  "validate_npu_dbo v c expected_role =
     (if enable_dbo v \<or> use_ubatching v then
        bind_result (guard (connector c = PStr AFD_ASYNC_CONNECTOR \<and> \<not> enforce_eager v)
          (RuntimeError ''AFD NPU ModelRunnerV2 DBO requires eager execution'')) (\<lambda>_.
        bind_result (guard (expected_role = ''attention'' \<and> data_parallel_size v \<le> 1 \<and>
            connector c \<noteq> PStr AFD_ASYNC_CONNECTOR)
          (RuntimeError ''AFD NPU ModelRunnerV2 DBO requires Attention DP > 1'')) (\<lambda>_.
        bind_result (guard (num_ubatches v \<noteq> 2)
          (RuntimeError ''AFD NPU ModelRunnerV2 DBO requires exactly two ubatches'')) (\<lambda>_.
        guard (has_speculative_config v)
          (RuntimeError ''AFD NPU ModelRunnerV2 DBO does not support speculative decoding''))))
      else Inr ())"

definition validate_npu_model_runner_v2_config :: "vllm_config \<Rightarrow> string \<Rightarrow> string \<Rightarrow> unit result" where
  "validate_npu_model_runner_v2_config v expected_role device_type =
     bind_result (guard (\<not> use_v2_model_runner v) (RuntimeError ''AFD NPU requires ModelRunnerV2'')) (\<lambda>_.
     bind_result (parse_afd_config (source_of v) True (Some expected_role)) (\<lambda>c.
     bind_result (guard (device_type \<noteq> ''npu'') (RuntimeError ''AFD NPU ModelRunnerV2 requires NPU'')) (\<lambda>_.
     bind_result (validate_npu_connector v c expected_role) (\<lambda>_.
     bind_result (guard (\<not> no_pp_or_cp v) (RuntimeError ''AFD ModelRunnerV2 does not support PP or CP'')) (\<lambda>_.
     bind_result (guard (configured_ranks c expected_role \<noteq> data_parallel_size v * tensor_parallel_size v)
       (RuntimeError ''AFD ModelRunnerV2 ranks must match DP * TP'')) (\<lambda>_.
     bind_result (guard (\<not> enable_expert_parallel v \<or> enable_elastic_ep v \<or> enable_eplb v)
       (RuntimeError ''AFD ModelRunnerV2 requires static expert parallelism'')) (\<lambda>_.
     bind_result (validate_npu_dbo v c expected_role) (\<lambda>_.
     bind_result (guard (\<not> has_afd_model_registration v)
       (RuntimeError ''AFD ModelRunnerV2 requires a registered AFD model'')) (\<lambda>_.
     guard (\<not> enforce_eager v \<and> cudagraph_mode_name v \<notin> {Some ''FULL'', Some ''FULL_DECODE_ONLY''})
       (RuntimeError ''AFD NPU ModelRunnerV2 supports ACL graph modes FULL and FULL_DECODE_ONLY''))))))))))"

section \<open>Worker classes\<close>

text \<open>
  What \<open>importlib.import_module\<close> followed by \<open>getattr\<close> finds is the environment: a class, an
  object of another type, or an import or attribute error.
\<close>

datatype loaded = LoadedClass string | LoadedOther string

definition resolve_class_from_qualname ::
  "(string \<Rightarrow> string \<Rightarrow> loaded result) \<Rightarrow> string \<Rightarrow> loaded result" where
  "resolve_class_from_qualname load qualname =
     (let normalized = normalize_qualname (py_strip qualname) in
      if normalized = [] \<or> CHR ''.'' \<notin> set normalized then Inl (ValueError ''must be a dotted qualname'')
      else
        (let obj_name = last_component normalized;
             module_name = take (length normalized - Suc (length obj_name)) normalized
         in bind_result (load module_name obj_name) (\<lambda>obj.
            case obj of LoadedClass _ \<Rightarrow> Inr obj | LoadedOther _ \<Rightarrow> Inl (TypeError ''expected a class''))))"

definition expected_worker_qualname :: "pyval \<Rightarrow> string result" where
  "expected_worker_qualname r =
     (if r = PStr ''attention'' then Inr ATTENTION_WORKER_FQCN
      else if r = PStr ''ffn'' then Inr FFN_WORKER_FQCN
      else Inl (ValueError ''unknown AFD role''))"

definition expected_npu_worker_qualname :: "pyval \<Rightarrow> string result" where
  "expected_npu_worker_qualname r =
     (if r = PStr ''attention'' then Inr NPU_ATTENTION_WORKER_FQCN
      else if r = PStr ''ffn'' then Inr NPU_FFN_WORKER_FQCN
      else Inl (ValueError ''unknown AFD role''))"

definition afd_worker_qualname_for_platform_default :: "pyval \<Rightarrow> string \<Rightarrow> bool \<Rightarrow> string \<Rightarrow> string result" where
  "afd_worker_qualname_for_platform_default r platform_worker is_cuda device_type =
     (let w = normalize_qualname platform_worker in
      if is_cuda \<and> w = VLLM_GPU_WORKER_FQCN then expected_worker_qualname r
      else if device_type = ''npu'' \<and> w = VLLM_ASCEND_NPU_WORKER_FQCN then expected_npu_worker_qualname r
      else if device_type = ''npu'' \<and> w \<in> {VLLM_ASCEND_310P_WORKER_FQCN, VLLM_ASCEND_XLITE_WORKER_FQCN}
      then Inl (ValueError ''AFD automatic worker selection supports only the standard Ascend A2/A3 NPUWorker'')
      else Inl (ValueError ''AFD automatic worker selection does not support the current platform''))"

text \<open>\<open>a or b or c\<close> on optional names: an empty string counts as absent.\<close>

definition truthy_name :: "string option \<Rightarrow> string option" where
  "truthy_name q = (if q = Some [] then None else q)"

definition assert_compatible_afd_stack ::
  "vllm_config \<Rightarrow> string option \<Rightarrow> string option \<Rightarrow> afd_config result" where
  "assert_compatible_afd_stack v expected_role expected_override =
     bind_result (parse_afd_config (source_of v) True expected_role) (\<lambda>c.
     bind_result
       (if connector c = PStr ''CAMAsyncAFDConnector''
        then bind_result (expected_npu_worker_qualname (role c)) (\<lambda>q. Inr (Some q)) else Inr None)
       (\<lambda>async_expected.
     case worker_cls v of
       PStr raw \<Rightarrow>
         if py_strip raw = ''auto'' then Inl (ValueError ''parallel_config.worker_cls remained auto'')
         else
           bind_result
             (case truthy_name async_expected of
                Some q \<Rightarrow> Inr q
              | None \<Rightarrow> (case truthy_name expected_override of
                           Some q \<Rightarrow> Inr q
                         | None \<Rightarrow> expected_worker_qualname (role c)))
             (\<lambda>expected.
               if normalize_qualname (py_strip raw) \<noteq> normalize_qualname expected
               then Inl (ValueError ''invalid worker class for AFD runtime stack'')
               else Inr c)
     | _ \<Rightarrow> Inl (ValueError ''parallel_config.worker_cls must be a qualname string'')))"

section \<open>What an accepted deployment satisfies\<close>

definition static_expert_parallel :: "vllm_config \<Rightarrow> bool" where
  "static_expert_parallel v \<longleftrightarrow>
     enable_expert_parallel v \<and> \<not> enable_elastic_ep v \<and> \<not> enable_eplb v"

definition gpu_deployment :: "vllm_config \<Rightarrow> afd_config \<Rightarrow> string \<Rightarrow> bool" where
  "gpu_deployment v c r \<longleftrightarrow>
     valid_config c \<and> role c = PStr r \<and>
     connector c \<in> {PStr P2P_CONNECTOR, PStr DEEPEP_M2N_CONNECTOR} \<and>
     (connector c = PStr DEEPEP_M2N_CONNECTOR \<longrightarrow>
        compute_gate_on_attention c \<and> (r = ''ffn'' \<longrightarrow> tensor_parallel_size v = 1) \<and>
        (\<exists>arch \<in> set (architectures v).
           removeprefix ''AFD'' arch \<in> set ATTENTION_ROUTING_MODEL_ARCHITECTURES)) \<and>
     use_v2_model_runner v \<and> no_pp_or_cp v \<and>
     configured_ranks c r = data_parallel_size v * tensor_parallel_size v \<and>
     static_expert_parallel v \<and> \<not> use_sequence_parallel_moe v \<and>
     (enable_dbo v \<or> use_ubatching v \<longrightarrow> num_ubatches v = 2) \<and>
     has_afd_model_registration v \<and>
     (enforce_eager v \<or> cudagraph_mode_name v = Some FULL_DECODE_ONLY)"

lemma valid_config_role: "valid_config c \<Longrightarrow> role c = PStr ''attention'' \<or> role c = PStr ''ffn''"
  by (simp add: valid_config_def)

lemma gpu_deployment_role: "gpu_deployment v c r \<Longrightarrow> r \<in> {''attention'', ''ffn''}"
  using valid_config_role [of c] by (simp add: gpu_deployment_def)

lemma validate_deepep_deployment_Inr:
  "validate_deepep_deployment v c r = Inr u \<longleftrightarrow>
   (connector c = PStr DEEPEP_M2N_CONNECTOR \<longrightarrow>
      compute_gate_on_attention c \<and> (r = ''ffn'' \<longrightarrow> tensor_parallel_size v = 1) \<and>
      (\<exists>arch \<in> set (architectures v).
         removeprefix ''AFD'' arch \<in> set ATTENTION_ROUTING_MODEL_ARCHITECTURES))"
  by (auto simp: validate_deepep_deployment_def DEEPEP_M2N_CONNECTORS_def result_simps list_ex_iff)

lemma parse_role: "parse_afd_config src True (Some r) = Inr c \<Longrightarrow> valid_config c \<and> role c = PStr r"
  using parse_afd_config_valid by blast

lemma validate_graph_Inr:
  "(\<exists>p. validate_cuda_graph_mode v r = Inr p) \<longleftrightarrow>
   enforce_eager v \<or> cudagraph_mode_name v = Some FULL_DECODE_ONLY \<and> (use_ubatching v \<longrightarrow> num_ubatches v = 2)"
  using validate_cuda_graph_mode_ok [of v r] by (cases "validate_cuda_graph_mode v r") auto

lemma gpu_accepts_iff:
  "validate_gpu_model_runner_v2_config v r dev = Inr u \<longleftrightarrow>
   dev = ''cuda'' \<and> (\<exists>c. parse_afd_config (source_of v) True (Some r) = Inr c \<and> gpu_deployment v c r)"
proof
  assume "validate_gpu_model_runner_v2_config v r dev = Inr u"
  then obtain c p where "parse_afd_config (source_of v) True (Some r) = Inr c" "use_v2_model_runner v"
      "validate_deepep_deployment v c r = Inr ()" "dev = ''cuda''" "connector c \<in> set GPU_MRV2_CONNECTORS"
      "no_pp_or_cp v" "configured_ranks c r = data_parallel_size v * tensor_parallel_size v"
      "static_expert_parallel v" "\<not> use_sequence_parallel_moe v"
      "enable_dbo v \<or> use_ubatching v \<longrightarrow> num_ubatches v = 2" "has_afd_model_registration v"
      "validate_cuda_graph_mode v (Some r) = Inr p"
    by (auto simp: validate_gpu_model_runner_v2_config_def result_simps static_expert_parallel_def
        GPU_MRV2_NUM_UBATCHES_def)
  moreover from this have "\<exists>p. validate_cuda_graph_mode v (Some r) = Inr p" by blast
  then have "enforce_eager v \<or> cudagraph_mode_name v = Some FULL_DECODE_ONLY" unfolding validate_graph_Inr by blast
  moreover have "valid_config c \<and> role c = PStr r" if "parse_afd_config (source_of v) True (Some r) = Inr c"
    using that by (rule parse_role)
  ultimately show "dev = ''cuda'' \<and> (\<exists>c. parse_afd_config (source_of v) True (Some r) = Inr c \<and> gpu_deployment v c r)"
    by (auto simp: gpu_deployment_def validate_deepep_deployment_Inr
        GPU_MRV2_CONNECTORS_def DEEPEP_M2N_CONNECTORS_def P2P_CONNECTOR_def)
next
  assume rhs: "dev = ''cuda'' \<and> (\<exists>c. parse_afd_config (source_of v) True (Some r) = Inr c \<and> gpu_deployment v c r)"
  then obtain c where c: "parse_afd_config (source_of v) True (Some r) = Inr c" and g: "gpu_deployment v c r" by blast
  then have "\<exists>p. validate_cuda_graph_mode v (Some r) = Inr p"
    unfolding validate_graph_Inr by (auto simp: gpu_deployment_def)
  moreover have "validate_deepep_deployment v c r = Inr ()"
    using g unfolding validate_deepep_deployment_Inr by (auto simp: gpu_deployment_def)
  ultimately show "validate_gpu_model_runner_v2_config v r dev = Inr u"
    using rhs c g
    by (auto simp: validate_gpu_model_runner_v2_config_def gpu_deployment_def static_expert_parallel_def
        GPU_MRV2_CONNECTORS_def DEEPEP_M2N_CONNECTORS_def P2P_CONNECTOR_def GPU_MRV2_NUM_UBATCHES_def)
qed

section \<open>Placement of the processes of an accepted deployment\<close>

text \<open>The P2P world rank of the process at a data-parallel and tensor-parallel coordinate.\<close>

definition process_world_rank :: "vllm_config \<Rightarrow> afd_config \<Rightarrow> int \<times> int \<Rightarrow> int result" where
  "process_world_rank v c coord =
     (case coord of (dp, tp) \<Rightarrow>
       bind_result (resolve_role_rank (v\<lparr>data_parallel_rank := dp\<rparr>)
                      \<lparr>pcp_rank_in_group = 0, tp_rank_in_group = tp\<rparr> c) (\<lambda>r.
       bind_result (build_rank_mapping c r) (\<lambda>m. Inr (world_rank m))))"

lemma coord_in_range:
  fixes D T :: int
  assumes "0 \<le> d" "d < D" "0 \<le> t" "t < T"
  shows "0 \<le> d * T + t \<and> d * T + t < D * T"
proof -
  have "(d + 1) * T \<le> D * T" using assms by (intro mult_right_mono) auto
  moreover have "0 \<le> d * T" using assms by simp
  ultimately show ?thesis using assms by (simp add: distrib_right)
qed

lemma coord_of_rank:
  fixes D T :: int
  assumes "0 < T" "0 \<le> n" "n < D * T"
  shows "0 \<le> n div T \<and> n div T < D \<and> 0 \<le> n mod T \<and> n mod T < T"
proof -
  have "\<not> D \<le> n div T" using le_div_iff [OF assms(1), of D n] assms(3) by simp
  then show ?thesis using assms by (simp add: pos_imp_zdiv_nonneg_iff)
qed

lemma rank_of_coord_bij:
  fixes D T :: int
  assumes "0 < T"
  shows "bij_betw (\<lambda>(d, t). d * T + t) ({0..<D} \<times> {0..<T}) {0..<D * T}"
proof (rule bij_betw_byWitness [where f' = "\<lambda>n. (n div T, n mod T)"])
  show "\<forall>x \<in> {0..<D} \<times> {0..<T}. (\<lambda>n. (n div T, n mod T)) ((\<lambda>(d, t). d * T + t) x) = x"
    using assms by auto
  show "\<forall>n \<in> {0..<D * T}. (\<lambda>(d, t). d * T + t) ((\<lambda>n. (n div T, n mod T)) n) = n"
    by (simp add: div_mult_mod_eq)
  show "(\<lambda>(d, t). d * T + t) ` ({0..<D} \<times> {0..<T}) \<subseteq> {0..<D * T}"
    using coord_in_range by (simp add: image_subset_iff)
  show "(\<lambda>n. (n div T, n mod T)) ` {0..<D * T} \<subseteq> {0..<D} \<times> {0..<T}"
    using coord_of_rank [OF assms, of _ D] by (auto simp: image_subset_iff)
qed

lemma resolve_role_rank_coord:
  assumes g: "gpu_deployment v c r" "r \<in> {''attention'', ''ffn''}"
    and coord: "0 \<le> dp" "dp < data_parallel_size v" "0 \<le> tp" "tp < tensor_parallel_size v"
  shows "resolve_role_rank (v\<lparr>data_parallel_rank := dp\<rparr>) \<lparr>pcp_rank_in_group = 0, tp_rank_in_group = tp\<rparr> c =
    Inr (dp * tensor_parallel_size v + tp)"
proof -
  have pcp: "prefill_context_parallel_size v = 1" using g by (simp add: gpu_deployment_def no_pp_or_cp_def)
  have sz: "configured_ranks c r = data_parallel_size v * tensor_parallel_size v"
    and rl: "role c = PStr r" using g by (simp_all add: gpu_deployment_def)
  have rng: "0 \<le> dp * tensor_parallel_size v + tp"
      "dp * tensor_parallel_size v + tp < configured_ranks c r"
    using coord_in_range [OF coord] by (simp_all add: sz)
  have "1 < data_parallel_size v \<or> \<not> 1 < data_parallel_size v \<and> dp = 0"
    "1 < tensor_parallel_size v \<or> \<not> 1 < tensor_parallel_size v \<and> tp = 0" using coord by linarith+
  then show ?thesis
    using rng g(2)
    by (elim disjE conjE insertE) (simp_all add: resolve_role_rank_def pcp configured_ranks_def rl)
qed

definition role_world :: "afd_config \<Rightarrow> string \<Rightarrow> int set" where
  "role_world c r =
     (if r = ''attention'' then {num_ffn_ranks c..<num_ffn_ranks c + num_attention_ranks c}
      else {0..<num_ffn_ranks c})"

lemma process_world_rank_eq:
  assumes g: "gpu_deployment v c r" "connector c = PStr P2P_CONNECTOR" "r \<in> {''attention'', ''ffn''}"
    and coord: "0 \<le> dp" "dp < data_parallel_size v" "0 \<le> tp" "tp < tensor_parallel_size v"
  shows "process_world_rank v c (dp, tp) =
    Inr ((if r = ''attention'' then num_ffn_ranks c else 0) + (dp * tensor_parallel_size v + tp))"
proof -
  let ?n = "dp * tensor_parallel_size v + tp"
  have rl: "role c = PStr r" and FA: "0 < num_ffn_ranks c" "num_ffn_ranks c \<le> num_attention_ranks c"
    using g by (auto simp: gpu_deployment_def valid_config_def)
  have sz: "configured_ranks c r = data_parallel_size v * tensor_parallel_size v"
    using g by (simp add: gpu_deployment_def)
  have n: "0 \<le> ?n" "?n < configured_ranks c r"
    using coord_in_range [OF coord] by (simp_all add: sz)
  show ?thesis
  proof (cases "r = ''attention''")
    case True
    then have "build_rank_mapping c ?n = Inr (attention_mapping (num_attention_ranks c) (num_ffn_ranks c) ?n)"
      by (intro build_attention) (use n rl FA in \<open>simp_all add: configured_ranks_def\<close>)
    then show ?thesis using True resolve_role_rank_coord [OF g(1,3) coord]
      by (simp add: process_world_rank_def attention_mapping_def Let_def)
  next
    case False
    then have "build_rank_mapping c ?n = Inr (ffn_mapping (num_attention_ranks c) (num_ffn_ranks c) ?n)"
      by (intro build_ffn) (use n rl FA g(3) in \<open>simp_all add: configured_ranks_def\<close>)
    then show ?thesis using False resolve_role_rank_coord [OF g(1,3) coord]
      by (simp add: process_world_rank_def ffn_mapping_def)
  qed
qed

text \<open>In a P2P deployment that a GPU worker of either role accepts, every process of the role has
  a world rank, and the processes of the role number its part of the world
  \<open>[F0, .., A0, ..]\<close> exactly once.\<close>
theorem gpu_processes_number_the_world:
  assumes "validate_gpu_model_runner_v2_config v r ''cuda'' = Inr ()"
    and "parse_afd_config (source_of v) True (Some r) = Inr c"
    and "connector c = PStr P2P_CONNECTOR" "0 < tensor_parallel_size v"
  shows "(\<forall>coord \<in> {0..<data_parallel_size v} \<times> {0..<tensor_parallel_size v}.
      is_ok (process_world_rank v c coord)) \<and>
    bij_betw (\<lambda>coord. projr (process_world_rank v c coord))
      ({0..<data_parallel_size v} \<times> {0..<tensor_parallel_size v}) (role_world c r)"
proof -
  have g: "gpu_deployment v c r" using assms(1,2) by (auto simp: gpu_accepts_iff)
  then have r: "r \<in> {''attention'', ''ffn''}" by (rule gpu_deployment_role)
  define base where "base = (if r = ''attention'' then num_ffn_ranks c else 0)"
  let ?P = "{0..<data_parallel_size v} \<times> {0..<tensor_parallel_size v}"
  let ?pos = "\<lambda>(d, t). d * tensor_parallel_size v + t"
  have eq: "process_world_rank v c x = Inr (base + ?pos x)" if "x \<in> ?P" for x
  proof -
    obtain d t where x: "x = (d, t)" by (cases x)
    with that have "0 \<le> d" "d < data_parallel_size v" "0 \<le> t" "t < tensor_parallel_size v" by simp_all
    from process_world_rank_eq [OF g assms(3) r this] show ?thesis by (simp only: x base_def prod.case)
  qed
  have sz: "configured_ranks c r = data_parallel_size v * tensor_parallel_size v"
    using g by (simp add: gpu_deployment_def)
  have "role_world c r = {base..<base + configured_ranks c r}"
    by (simp add: base_def role_world_def configured_ranks_def)
  then have "bij_betw (\<lambda>n. base + n) {0..<configured_ranks c r} (role_world c r)"
    by (simp add: bij_betw_def image_add_atLeastLessThan add.commute)
  with rank_of_coord_bij [OF assms(4), of "data_parallel_size v"]
  have "bij_betw ((\<lambda>n. base + n) \<circ> ?pos) ?P (role_world c r)"
    unfolding sz by (rule bij_betw_trans)
  moreover have "projr (process_world_rank v c x) = ((\<lambda>n. base + n) \<circ> ?pos) x" if "x \<in> ?P" for x
    by (simp add: eq [OF that])
  ultimately have "bij_betw (\<lambda>x. projr (process_world_rank v c x)) ?P (role_world c r)"
    using bij_betw_cong [of ?P "\<lambda>x. projr (process_world_rank v c x)" "(\<lambda>n. base + n) \<circ> ?pos"] by blast
  then show ?thesis by (simp add: eq)
qed

definition sample_vllm :: vllm_config where
  "sample_vllm =
     \<lparr>additional_config = PDict [(''afd'', PDict [(''afd_role'', PStr ''attention''),
        (''num_attention_ranks'', PInt 4), (''num_ffn_ranks'', PStr ''2'')])],
      use_v2_model_runner = True, enforce_eager = True, architectures = [''AFDDeepseekV2ForCausalLM''],
      cudagraph_mode = None, cudagraph_capture_sizes = [], max_cudagraph_capture_size = 0,
      max_num_batched_tokens = 64, data_parallel_size = 2, data_parallel_rank = 0, tensor_parallel_size = 2,
      pipeline_parallel_size = 1, prefill_context_parallel_size = 1, decode_context_parallel_size = 1,
      enable_expert_parallel = True, enable_elastic_ep = False, enable_eplb = False,
      use_sequence_parallel_moe = False, enable_dbo = False, use_ubatching = False, num_ubatches = 0,
      has_speculative_config = False, expert_placement_strategy = ''linear'',
      all2all_backend = ''allgather_reducescatter'', quant_config = NoQuant, worker_cls = PStr ''afd_plugin.v1.worker:AFDAttentionWorker''\<rparr>"

definition sample_afd :: afd_config where
  "sample_afd = default_config\<lparr>num_attention_ranks := 4, num_ffn_ranks := 2\<rparr>"

lemma sample_parse: "parse_afd_config (source_of sample_vllm) True (Some ''attention'') = Inr sample_afd"
  by code_simp

lemma sample_validates: "validate_gpu_model_runner_v2_config sample_vllm ''attention'' ''cuda'' = Inr ()"
  by code_simp

text \<open>The automatically selected worker class is the one the stack check expects.\<close>

lemma py_strip_id: "list_all (\<lambda>c. \<not> is_space c) s \<Longrightarrow> py_strip s = s"
proof -
  assume a: "list_all (\<lambda>c. \<not> is_space c) s"
  then have "dropWhile is_space s = s" "dropWhile is_space (rev s) = rev s"
    by (auto simp: dropWhile_eq_self_iff list_all_iff) (metis hd_in_set set_rev rev_is_Nil_conv)+
  then show ?thesis by (simp add: py_strip_def)
qed

lemma worker_name_facts:
  assumes "q \<in> {ATTENTION_WORKER_FQCN, FFN_WORKER_FQCN, NPU_ATTENTION_WORKER_FQCN, NPU_FFN_WORKER_FQCN}"
  shows "py_strip q = q" "q \<noteq> ''auto''" "q \<noteq> []" "normalize_qualname q = q"
proof -
  have "list_all (\<lambda>c. \<not> is_space c) q \<and> q \<noteq> ''auto'' \<and> q \<noteq> [] \<and> normalize_qualname q = q"
    using assms by (elim insertE) (simp_all, (code_simp)+)
  then show "py_strip q = q" "q \<noteq> ''auto''" "q \<noteq> []" "normalize_qualname q = q"
    using py_strip_id by blast+
qed

definition worker_override :: "string \<Rightarrow> string option" where
  "worker_override q = (if q \<in> {NPU_ATTENTION_WORKER_FQCN, NPU_FFN_WORKER_FQCN} then Some q else None)"

lemma selected_worker_cases:
  "afd_worker_qualname_for_platform_default r w cuda dev = Inr q \<Longrightarrow>
   (r, q) \<in> {(PStr ''attention'', ATTENTION_WORKER_FQCN), (PStr ''ffn'', FFN_WORKER_FQCN),
     (PStr ''attention'', NPU_ATTENTION_WORKER_FQCN), (PStr ''ffn'', NPU_FFN_WORKER_FQCN)}"
  by (simp add: afd_worker_qualname_for_platform_default_def expected_worker_qualname_def
      expected_npu_worker_qualname_def Let_def split: if_splits)

lemma worker_override_simps [simp]:
  "worker_override ATTENTION_WORKER_FQCN = None" "worker_override FFN_WORKER_FQCN = None"
  "worker_override NPU_ATTENTION_WORKER_FQCN = Some NPU_ATTENTION_WORKER_FQCN"
  "worker_override NPU_FFN_WORKER_FQCN = Some NPU_FFN_WORKER_FQCN"
  by code_simp+

lemma npu_names_differ:
  "normalize_qualname NPU_ATTENTION_WORKER_FQCN \<noteq> normalize_qualname ATTENTION_WORKER_FQCN"
  "normalize_qualname NPU_FFN_WORKER_FQCN \<noteq> normalize_qualname FFN_WORKER_FQCN"
  by code_simp+

lemma selected_worker:
  assumes "afd_worker_qualname_for_platform_default r w cuda dev = Inr q"
  shows "q \<in> {ATTENTION_WORKER_FQCN, FFN_WORKER_FQCN, NPU_ATTENTION_WORKER_FQCN, NPU_FFN_WORKER_FQCN}"
    and "worker_override q = None \<Longrightarrow> expected_worker_qualname r = Inr q"
    and "worker_override q = None \<Longrightarrow> expected_npu_worker_qualname r = Inr q' \<Longrightarrow>
      normalize_qualname q' \<noteq> normalize_qualname q"
    and "worker_override q \<noteq> None \<Longrightarrow> expected_npu_worker_qualname r = Inr q"
  using selected_worker_cases [OF assms] npu_names_differ
  by (auto simp: expected_worker_qualname_def expected_npu_worker_qualname_def)

lemma npu_worker_of_valid: "valid_config c \<Longrightarrow> \<exists>q. expected_npu_worker_qualname (role c) = Inr q \<and> q \<noteq> []"
  using valid_config_role [of c] by (auto simp: expected_npu_worker_qualname_def worker_names)

text \<open>The worker class selected for the platform passes the stack check that worker runs (the
  NPU workers pass their own name as the expected one), except that the asynchronous connector
  refuses the GPU workers.\<close>
theorem selected_worker_passes_stack_check:
  assumes parse: "parse_afd_config (source_of v) True er = Inr c"
    and sel: "afd_worker_qualname_for_platform_default (role c) w cuda dev = Inr q"
  shows "assert_compatible_afd_stack (v\<lparr>worker_cls := PStr q\<rparr>) er (worker_override q) =
    (if connector c = PStr AFD_ASYNC_CONNECTOR \<and> worker_override q = None
     then Inl (ValueError ''invalid worker class for AFD runtime stack'') else Inr c)"
proof -
  note q = worker_name_facts [OF selected_worker(1) [OF sel]]
  have src: "parse_afd_config (source_of (v\<lparr>worker_cls := PStr q\<rparr>)) True er = Inr c"
    using parse by (simp add: source_of_def)
  obtain n where n: "expected_npu_worker_qualname (role c) = Inr n" "n \<noteq> []"
    using npu_worker_of_valid parse_afd_config_valid [OF parse] by blast
  show ?thesis
  proof (cases "worker_override q")
    case None
    note none = selected_worker(2,3) [OF sel None]
    from none n q None show ?thesis
      by (auto simp: assert_compatible_afd_stack_def src truthy_name_def AFD_ASYNC_CONNECTOR_def)
  next
    case (Some o')
    then have "expected_npu_worker_qualname (role c) = Inr q" "o' = q"
      using selected_worker(4) [OF sel] by (auto simp: worker_override_def split: if_splits)
    then show ?thesis using q Some
      by (simp add: assert_compatible_afd_stack_def src truthy_name_def)
  qed
qed

text \<open>An accepted graph envelope splits into equal per-TP source blocks that fit the protocol's
  16-bit row counter, and the receive capacity covers it.\<close>
theorem graph_capacity_accepts_iff:
  "is_ok (validate_graph_capacity max_tokens tp capacity) \<longleftrightarrow>
   0 < tp \<and> max_tokens \<le> capacity \<and> (\<exists>rows. max_tokens = tp * rows \<and> 0 < rows \<and> rows < 2 ^ 16)"
proof
  assume ok: "is_ok (validate_graph_capacity max_tokens tp capacity)"
  then have a: "0 < tp" "0 < max_tokens" "max_tokens \<le> capacity" "max_tokens mod tp = 0"
      "max_tokens div tp \<le> 2 ^ 16 - 1"
    by (auto simp: validate_graph_capacity_def is_ok_def CAM_MAX_SOURCE_ROWS_def split: if_splits)
  then have "max_tokens = tp * (max_tokens div tp)" by auto
  moreover from this a have "0 < max_tokens div tp" by (metis zero_less_mult_pos)
  ultimately show "0 < tp \<and> max_tokens \<le> capacity \<and> (\<exists>rows. max_tokens = tp * rows \<and> 0 < rows \<and> rows < 2 ^ 16)"
    using a by (intro conjI exI [of _ "max_tokens div tp"]) auto
next
  assume "0 < tp \<and> max_tokens \<le> capacity \<and> (\<exists>rows. max_tokens = tp * rows \<and> 0 < rows \<and> rows < 2 ^ 16)"
  then obtain rows where "0 < tp" "max_tokens \<le> capacity" "max_tokens = tp * rows" "0 < rows" "rows < 2 ^ 16"
    by blast
  moreover from this have "0 < tp * rows" by simp
  moreover from calculation have "0 < capacity" by linarith
  ultimately show "is_ok (validate_graph_capacity max_tokens tp capacity)"
    by (simp add: validate_graph_capacity_def CAM_MAX_SOURCE_ROWS_def min_le_iff_disj not_le mult_le_0_iff)
qed

end
