(* ===== verification/Json.thy ===== *)
theory Json
  imports Py_Value "HOL-Library.Char_ord" "HOL-Library.List_Lexorder"
begin

text \<open>
  The part of the standard \<open>json\<close> module the control plane relies on:
  \<open>json.dumps(.., separators=(",", ":"), sort_keys=True)\<close> and \<open>json.loads\<close>, for null,
  booleans, integers, arrays, objects and strings without characters JSON escapes (the
  control plane writes only field names and decimal numbers as keys).  Floats and escape
  sequences are outside this fragment; the reader rejects them.
\<close>

datatype json =
    JNull
  | JBool bool
  | JInt int
  | JStr string
  | JArr "json list"
  | JObj "(string \<times> json) list"

section \<open>Writing\<close>

definition json_quote :: "string \<Rightarrow> string" where
  "json_quote s = CHR 0x22 # s @ [CHR 0x22]"

fun intersperse :: "string list \<Rightarrow> string" where
  "intersperse [] = []"
| "intersperse [x] = x"
| "intersperse (x # xs) = x @ CHR '','' # intersperse xs"

fun json_write :: "json \<Rightarrow> string" where
  "json_write JNull = ''null''"
| "json_write (JBool b) = (if b then ''true'' else ''false'')"
| "json_write (JInt i) = py_str_int i"
| "json_write (JStr s) = json_quote s"
| "json_write (JArr xs) = CHR ''['' # intersperse (map json_write xs) @ '']''"
| "json_write (JObj kvs) =
     CHR ''{'' # intersperse (map (\<lambda>(k, v). json_quote k @ CHR '':'' # json_write v) kvs) @ ''}''"

fun sort_keys :: "json \<Rightarrow> json" where
  "sort_keys (JArr xs) = JArr (map sort_keys xs)"
| "sort_keys (JObj kvs) = JObj (sort_key fst (map (\<lambda>(k, v). (k, sort_keys v)) kvs))"
| "sort_keys v = v"

definition json_dumps :: "json \<Rightarrow> string" where
  "json_dumps v = json_write (sort_keys v)"

section \<open>Reading\<close>

definition json_space :: "char \<Rightarrow> bool" where
  "json_space c \<longleftrightarrow> c \<in> {CHR '' '', CHR 0x09, CHR 0x0A, CHR 0x0D}"

definition skip_ws :: "string \<Rightarrow> string" where
  "skip_ws s = dropWhile json_space s"

definition plain_char :: "char \<Rightarrow> bool" where
  "plain_char c \<longleftrightarrow> c \<noteq> CHR 0x22 \<and> c \<noteq> CHR 0x5C \<and> 32 \<le> (of_char c :: nat) \<and> (of_char c :: nat) < 128"

fun read_string :: "string \<Rightarrow> (string \<times> string) option" where
  "read_string [] = None"
| "read_string (c # cs) =
     (if c = CHR 0x22 then Some ([], cs)
      else if plain_char c then map_option (\<lambda>(s, rest). (c # s, rest)) (read_string cs)
      else None)"

definition digits_value :: "string \<Rightarrow> int" where
  "digits_value ds = foldl (\<lambda>acc c. 10 * acc + digit_val c) 0 ds"

text \<open>\<open>(?:0|[1-9]\d*)\<close>, not followed by a fraction or an exponent.\<close>

definition read_nat :: "string \<Rightarrow> (int \<times> string) option" where
  "read_nat s =
     (let ds = (if take 1 s = ''0'' then ''0'' else takeWhile is_digit s);
          rest = drop (length ds) s
      in if ds = [] \<or> int_max_str_digits < length ds \<or> (\<exists>c \<in> set (take 1 rest). c \<in> {CHR ''.'', CHR ''e'', CHR ''E''})
         then None else Some (digits_value ds, rest))"

definition read_int :: "string \<Rightarrow> (int \<times> string) option" where
  "read_int s =
     (if take 1 s = ''-'' then map_option (\<lambda>(n, rest). (- n, rest)) (read_nat (drop 1 s))
      else read_nat s)"

text \<open>Fuel bounds the nesting and the number of elements; \<open>json_loads\<close> gives one unit per character.\<close>

fun read_value :: "nat \<Rightarrow> string \<Rightarrow> (json \<times> string) option"
and read_elems :: "nat \<Rightarrow> string \<Rightarrow> (json list \<times> string) option"
and read_members :: "nat \<Rightarrow> string \<Rightarrow> ((string \<times> json) list \<times> string) option" where
  "read_value 0 s = None"
| "read_value (Suc f) s =
     (if take 4 s = ''null'' then Some (JNull, drop 4 s)
      else if take 4 s = ''true'' then Some (JBool True, drop 4 s)
      else if take 5 s = ''false'' then Some (JBool False, drop 5 s)
      else case s of
        [] \<Rightarrow> None
      | c # cs \<Rightarrow>
          if c = CHR 0x22 then map_option (\<lambda>(t, rest). (JStr t, rest)) (read_string cs)
          else if c = CHR ''['' then
            (case skip_ws cs of
               (d # ds) \<Rightarrow> if d = CHR '']'' then Some (JArr [], ds)
                 else map_option (\<lambda>(xs, rest). (JArr xs, rest)) (read_elems f (d # ds))
             | [] \<Rightarrow> None)
          else if c = CHR ''{'' then
            (case skip_ws cs of
               (d # ds) \<Rightarrow> if d = CHR ''}'' then Some (JObj [], ds)
                 else map_option (\<lambda>(kvs, rest). (JObj (dict_of kvs), rest)) (read_members f (d # ds))
             | [] \<Rightarrow> None)
          else map_option (\<lambda>(i, rest). (JInt i, rest)) (read_int s))"
| "read_elems 0 s = None"
| "read_elems (Suc f) s =
     (case read_value f s of
        None \<Rightarrow> None
      | Some (v, rest) \<Rightarrow>
          (case skip_ws rest of
             [] \<Rightarrow> None
           | d # ds \<Rightarrow>
               if d = CHR '']'' then Some ([v], ds)
               else if d = CHR '','' then map_option (\<lambda>(vs, r). (v # vs, r)) (read_elems f (skip_ws ds))
               else None))"
| "read_members 0 s = None"
| "read_members (Suc f) s =
     (case s of
        [] \<Rightarrow> None
      | q # s' \<Rightarrow>
          if q \<noteq> CHR 0x22 then None
          else (case read_string s' of
             None \<Rightarrow> None
           | Some (k, rest) \<Rightarrow>
               (case skip_ws rest of
                  [] \<Rightarrow> None
                | d # ds \<Rightarrow>
                    if d \<noteq> CHR '':'' then None
                    else (case read_value f (skip_ws ds) of
                       None \<Rightarrow> None
                     | Some (v, rest') \<Rightarrow>
                         (case skip_ws rest' of
                            [] \<Rightarrow> None
                          | e # es \<Rightarrow>
                              if e = CHR ''}'' then Some ([(k, v)], es)
                              else if e = CHR '','' then
                                map_option (\<lambda>(kvs, r). ((k, v) # kvs, r)) (read_members f (skip_ws es))
                              else None)))))"

definition json_loads :: "string \<Rightarrow> json result" where
  "json_loads s =
     (let t = skip_ws s in
      case read_value (Suc (length t)) t of
        Some (v, rest) \<Rightarrow> if skip_ws rest = [] then Inr v else Inl (ValueError ''JSONDecodeError'')
      | None \<Rightarrow> Inl (ValueError ''JSONDecodeError''))"

section \<open>What is written is read back\<close>

text \<open>Values of the fragment: plain strings, distinct keys, integers within the digit limit.\<close>

fun json_ok :: "json \<Rightarrow> bool" where
  "json_ok (JInt i) = (length (py_str_int i) \<le> int_max_str_digits)"
| "json_ok (JStr s) = list_all plain_char s"
| "json_ok (JArr xs) = list_all json_ok xs"
| "json_ok (JObj kvs) = (distinct (map fst kvs) \<and> list_all (\<lambda>(k, v). list_all plain_char k \<and> json_ok v) kvs)"
| "json_ok _ = True"

text \<open>What may follow a value: nothing that could extend a number.\<close>

definition stops_number :: "string \<Rightarrow> bool" where
  "stops_number rest \<longleftrightarrow> (\<forall>c \<in> set (take 1 rest). \<not> is_digit c \<and> c \<notin> {CHR ''.'', CHR ''e'', CHR ''E''})"

lemma stops_number_simps [simp]:
  "stops_number []" "stops_number (CHR '','' # r)" "stops_number (CHR '']'' # r)" "stops_number (CHR ''}'' # r)"
  by (auto simp: stops_number_def is_digit_def)

lemma read_string_quote: "list_all plain_char s \<Longrightarrow> read_string (s @ CHR 0x22 # rest) = Some (s, rest)"
  by (induction s) (auto simp: plain_char_def)

lemma digits_value_from: "\<forall>c \<in> set ds. is_digit c \<Longrightarrow> digits_from True acc ds = Some (foldl (\<lambda>acc c. 10 * acc + digit_val c) acc ds)"
  by (induction ds arbitrary: acc) auto

lemma digits_value_nat_digits: "digits_value (nat_digits n) = int n"
proof -
  let ?f = "\<lambda>acc c. 10 * acc + digit_val c"
  obtain d ds where eq: "nat_digits n = d # ds" by (cases "nat_digits n") (use nat_digits_nonempty in auto)
  then have "\<forall>c \<in> set (d # ds). is_digit c" by (metis nat_digits_all_digits)
  then have "digits_from False 0 (nat_digits n) = Some (foldl ?f 0 (nat_digits n))"
    by (simp add: eq digits_value_from)
  then show ?thesis by (simp add: digits_value_def digits_from_nat_digits)
qed

lemma nat_digits_take_rest [simp]: "Suc 0 - length (nat_digits n) = 0"
  using nat_digits_nonempty [of n] by (cases "nat_digits n") auto

lemma nat_digits_leading_zero: "take 1 (nat_digits n) = ''0'' \<Longrightarrow> nat_digits n = ''0''"
proof (induction n rule: nat_digits.induct)
  case (1 n)
  show ?case
  proof (cases "n < 10")
    case True
    then have "nat_digits n = [char_of (48 + n)]" by (simp add: nat_digits.simps [of n])
    with "1.prems" show ?thesis by simp
  next
    case False
    moreover from False have eq: "nat_digits n = nat_digits (n div 10) @ [char_of (48 + n mod 10)]"
      by (simp add: nat_digits.simps [of n])
    ultimately have "nat_digits (n div 10) = ''0''" using "1" False by simp
    then have "int (n div 10) = 0" using digits_value_nat_digits [of "n div 10"]
      by (simp add: digits_value_def digit_val_def)
    with False show ?thesis by simp
  qed
qed

lemma read_nat_digits:
  assumes "stops_number rest" "length (nat_digits n) \<le> int_max_str_digits"
  shows "read_nat (nat_digits n @ rest) = Some (int n, rest)"
proof -
  have tw: "takeWhile is_digit (nat_digits n @ rest) = nat_digits n"
  proof -
    have "takeWhile is_digit rest = []"
      using assms(1) by (cases rest) (auto simp: stops_number_def)
    then show ?thesis by (simp add: takeWhile_append2 nat_digits_all_digits)
  qed
  have hd1: "take 1 (nat_digits n @ rest) = take 1 (nat_digits n)" by simp
  let ?ds = "if take 1 (nat_digits n @ rest) = ''0'' then ''0'' else takeWhile is_digit (nat_digits n @ rest)"
  have ds: "?ds = nat_digits n"
    unfolding tw hd1 by (metis nat_digits_leading_zero)
  have "\<not> (\<exists>c \<in> set (take 1 rest). c \<in> {CHR ''.'', CHR ''e'', CHR ''E''})"
    using assms(1) by (auto simp: stops_number_def)
  then show ?thesis
    using assms(2) unfolding read_nat_def Let_def ds by (simp add: digits_value_nat_digits)
qed

lemma read_int_str:
  assumes "stops_number rest" "length (py_str_int i) \<le> int_max_str_digits"
  shows "read_int (py_str_int i @ rest) = Some (i, rest)"
proof (cases "i < 0")
  case True
  with assms show ?thesis by (simp add: py_str_int_def read_int_def read_nat_digits)
next
  case False
  have "take 1 (nat_digits (nat i) @ rest) \<noteq> ''-''"
    using nat_digits_hd_not_sign(1) [of "nat i"] nat_digits_nonempty [of "nat i"]
    by (cases "nat_digits (nat i)") auto
  with False assms show ?thesis by (simp add: py_str_int_def read_int_def read_nat_digits)
qed

text \<open>
  Each recursive call consumes a character of the text, so as many units as characters are
  enough; one induction over the value covers arrays and objects through their elements.
\<close>

definition reads_back :: "json \<Rightarrow> bool" where
  "reads_back v \<longleftrightarrow> (\<forall>f rest. length (json_write v) \<le> f \<longrightarrow> stops_number rest \<longrightarrow>
     read_value f (json_write v @ rest) = Some (v, rest))"

lemma reads_backD:
  "reads_back v \<Longrightarrow> length (json_write v) \<le> f \<Longrightarrow> stops_number rest \<Longrightarrow>
   read_value f (json_write v @ rest) = Some (v, rest)"
  by (simp add: reads_back_def)

lemma skip_ws_id: "(\<forall>c \<in> set (take 1 s). \<not> json_space c) \<Longrightarrow> skip_ws s = s"
  by (cases s) (auto simp: skip_ws_def)

lemma json_write_nonempty [simp]: "json_write v \<noteq> []"
  by (cases v) (auto simp: json_quote_def py_str_int_def)

lemma py_str_int_hd: "c \<in> set (take 1 (py_str_int i)) \<Longrightarrow> is_digit c \<or> c = CHR ''-''"
  by (auto simp: py_str_int_def dest: in_set_takeD nat_digits_all_digits split: if_splits)

lemma take1_append: "xs \<noteq> [] \<Longrightarrow> take 1 (xs @ ys) = take 1 xs"
  by (cases xs) auto

lemma json_write_hd: "c \<in> set (take 1 (json_write v)) \<Longrightarrow> \<not> json_space c \<and> c \<noteq> CHR '']'' \<and> c \<noteq> CHR ''}''"
proof (cases v)
  case (JInt i)
  assume "c \<in> set (take 1 (json_write v))"
  with JInt have "is_digit c \<or> c = CHR ''-''" using py_str_int_hd by simp
  then show ?thesis by (auto simp: json_space_def is_digit_def)
qed (auto simp: json_space_def json_quote_def split: if_splits)

lemma skip_ws_write [simp]: "skip_ws (json_write v @ rest) = json_write v @ rest"
proof (rule skip_ws_id)
  have "take 1 (json_write v @ rest) = take 1 (json_write v)" by (rule take1_append) simp
  then show "\<forall>c \<in> set (take 1 (json_write v @ rest)). \<not> json_space c"
    using json_write_hd by metis
qed

lemma skip_ws_punct [simp]:
  "skip_ws (CHR '','' # r) = CHR '','' # r" "skip_ws (CHR '']'' # r) = CHR '']'' # r"
  "skip_ws (CHR ''}'' # r) = CHR ''}'' # r" "skip_ws (CHR '':'' # r) = CHR '':'' # r"
  "skip_ws (CHR 0x22 # r) = CHR 0x22 # r" "skip_ws [] = []"
  by (auto intro!: skip_ws_id simp: json_space_def skip_ws_def)

lemma intersperse_Cons: "xs \<noteq> [] \<Longrightarrow> intersperse (x # xs) = x @ CHR '','' # intersperse xs"
  by (cases xs) auto

lemma read_elems_write:
  assumes "\<forall>x \<in> set xs. reads_back x" "xs \<noteq> []"
    "length (intersperse (map json_write xs)) < f"
  shows "read_elems f (intersperse (map json_write xs) @ CHR '']'' # rest) = Some (xs, rest)"
  using assms
proof (induction xs arbitrary: f)
  case (Cons x xs)
  then obtain g where f: "f = Suc g" by (cases f) auto
  show ?case
  proof (cases "xs = []")
    case True
    with Cons.prems reads_backD [of x g "CHR '']'' # rest"] show ?thesis
      by (simp add: f)
  next
    case False
    let ?tail = "intersperse (map json_write xs)"
    have eq: "intersperse (map json_write (x # xs)) = json_write x @ CHR '','' # ?tail"
      using False by (simp add: intersperse_Cons)
    have len: "length (json_write x) \<le> g" "length ?tail < g"
      using Cons.prems(3) unfolding f eq by simp_all
    obtain y ys where xs: "xs = y # ys" using False by (cases xs) auto
    have "skip_ws (?tail @ CHR '']'' # rest) = ?tail @ CHR '']'' # rest"
      by (cases ys) (simp_all add: xs)
    with Cons.IH [of g] Cons.prems len False show ?thesis
      using reads_backD [of x g "CHR '','' # ?tail @ CHR '']'' # rest"]
      by (simp add: f intersperse_Cons)
  qed
qed simp

abbreviation write_member :: "string \<times> json \<Rightarrow> string" where
  "write_member \<equiv> (\<lambda>(k, v). json_quote k @ CHR '':'' # json_write v)"

lemma read_members_write:
  assumes "\<forall>(k, v) \<in> set kvs. list_all plain_char k \<and> reads_back v" "kvs \<noteq> []"
    "length (intersperse (map write_member kvs)) < f"
  shows "read_members f (intersperse (map write_member kvs) @ CHR ''}'' # rest) = Some (kvs, rest)"
  using assms
proof (induction kvs arbitrary: f)
  case (Cons kv kvs)
  obtain k v where kv: "kv = (k, v)" by force
  from Cons.prems obtain g where f: "f = Suc g" by (cases f) auto
  have k: "list_all plain_char k" and v: "reads_back v" using Cons.prems by (auto simp: kv)
  show ?case
  proof (cases "kvs = []")
    case True
    with Cons.prems reads_backD [OF v, of g "CHR ''}'' # rest"] show ?thesis
      by (simp add: f kv json_quote_def read_string_quote [OF k])
  next
    case False
    let ?tail = "intersperse (map write_member kvs)"
    have eq: "intersperse (map write_member (kv # kvs)) = json_quote k @ CHR '':'' # json_write v @ CHR '','' # ?tail"
      using False by (simp add: intersperse_Cons kv)
    have len: "length (json_write v) \<le> g" "length ?tail < g"
      using Cons.prems(3) unfolding f eq by simp_all
    obtain k' v' ys where kvs: "kvs = (k', v') # ys" using False by (cases kvs) auto
    have "skip_ws (?tail @ CHR ''}'' # rest) = ?tail @ CHR ''}'' # rest"
      by (cases ys) (simp_all add: kvs json_quote_def)
    with Cons.IH [of g] Cons.prems len False show ?thesis
      using reads_backD [OF v, of g "CHR '','' # ?tail @ CHR ''}'' # rest"]
      by (simp add: f kv intersperse_Cons json_quote_def read_string_quote [OF k])
  qed
qed simp

lemma reads_back_int:
  assumes "length (py_str_int i) \<le> int_max_str_digits"
  shows "reads_back (JInt i)"
  unfolding reads_back_def
proof (intro allI impI)
  fix f rest assume len: "length (json_write (JInt i)) \<le> f" and stop: "stops_number rest"
  obtain c cs where eq: "py_str_int i = c # cs" using json_write_nonempty [of "JInt i"] by (cases "py_str_int i") auto
  then have c: "is_digit c \<or> c = CHR ''-''" using py_str_int_hd [of c i] by simp
  obtain g where f: "f = Suc g" using len by (cases f) (auto simp: eq)
  have r: "read_int (c # cs @ rest) = Some (i, rest)"
    using read_int_str [OF stop assms] by (simp add: eq)
  have "c \<noteq> CHR 0x22" "c \<noteq> CHR ''[''" "c \<noteq> CHR ''{''" "c \<noteq> CHR ''n''" "c \<noteq> CHR ''t''" "c \<noteq> CHR ''f''"
    using c by (auto simp: is_digit_def)
  then show "read_value f (json_write (JInt i) @ rest) = Some (JInt i, rest)"
    using r by (simp add: f eq)
qed

lemma reads_back_simple:
  "reads_back JNull" "reads_back (JBool b)" "list_all plain_char s \<Longrightarrow> reads_back (JStr s)"
  unfolding reads_back_def
  by (auto simp: json_quote_def read_string_quote gr0_conv_Suc dest!: Suc_le_D
      split: if_splits)

lemma read_value_arr:
  "skip_ws s = t \<Longrightarrow> t \<noteq> [] \<Longrightarrow> hd t \<noteq> CHR '']'' \<Longrightarrow>
   read_value (Suc g) (CHR ''['' # s) = map_option (\<lambda>(xs, rest). (JArr xs, rest)) (read_elems g t)"
  by (cases t) simp_all

lemma read_value_obj:
  "skip_ws s = t \<Longrightarrow> t \<noteq> [] \<Longrightarrow> hd t \<noteq> CHR ''}'' \<Longrightarrow>
   read_value (Suc g) (CHR ''{'' # s) =
     map_option (\<lambda>(kvs, rest). (JObj (dict_of kvs), rest)) (read_members g t)"
  by (cases t) simp_all

lemma reads_back_arr:
  assumes "\<forall>x \<in> set xs. reads_back x"
  shows "reads_back (JArr xs)"
  unfolding reads_back_def
proof (intro allI impI)
  fix f rest assume "length (json_write (JArr xs)) \<le> f"
  then obtain g where f: "f = Suc g" and len: "length (intersperse (map json_write xs)) < g"
    by (cases f) auto
  show "read_value f (json_write (JArr xs) @ rest) = Some (JArr xs, rest)"
  proof (cases xs)
    case (Cons y ys)
    define t where "t = intersperse (map json_write xs) @ CHR '']'' # rest"
    obtain z zs where y: "json_write y = z # zs" using json_write_nonempty [of y] by (cases "json_write y") auto
    have z: "z \<noteq> CHR '']''" using json_write_hd [of z y] by (simp add: y)
    have "t \<noteq> []" "hd t = z" "skip_ws t = t"
      using skip_ws_write [of y] by (cases ys; simp add: Cons y t_def)+
    then have "read_value f (CHR ''['' # t) = map_option (\<lambda>(xs, rest). (JArr xs, rest)) (read_elems g t)"
      unfolding f using z by (intro read_value_arr) auto
    moreover have "read_elems g t = Some (xs, rest)"
      unfolding t_def by (rule read_elems_write [OF assms _ len]) (simp add: Cons)
    ultimately show ?thesis by (simp add: t_def)
  qed (simp add: f)
qed

lemma reads_back_obj:
  assumes "\<forall>(k, v) \<in> set kvs. list_all plain_char k \<and> reads_back v" "distinct (map fst kvs)"
  shows "reads_back (JObj kvs)"
  unfolding reads_back_def
proof (intro allI impI)
  fix f rest assume "length (json_write (JObj kvs)) \<le> f"
  then obtain g where f: "f = Suc g" and len: "length (intersperse (map write_member kvs)) < g"
    by (cases f) auto
  show "read_value f (json_write (JObj kvs) @ rest) = Some (JObj kvs, rest)"
  proof (cases kvs)
    case (Cons y ys)
    define t where "t = intersperse (map write_member kvs) @ CHR ''}'' # rest"
    obtain k v where y: "y = (k, v)" by force
    have "t \<noteq> []" "hd t = CHR 0x22" "skip_ws t = t"
      by (cases ys; simp add: Cons y t_def json_quote_def)+
    then have "read_value f (CHR ''{'' # t) =
        map_option (\<lambda>(kvs, rest). (JObj (dict_of kvs), rest)) (read_members g t)"
      unfolding f by (intro read_value_obj) auto
    moreover have "read_members g t = Some (kvs, rest)"
      unfolding t_def by (rule read_members_write [OF assms(1) _ len]) (simp add: Cons)
    ultimately show ?thesis by (simp add: t_def dict_of_distinct [OF assms(2)])
  qed (simp add: f)
qed

lemma json_ok_reads_back: "json_ok v \<Longrightarrow> reads_back v"
proof (induction v)
  case (JInt i)
  then show ?case by (simp add: reads_back_int)
next
  case (JArr xs)
  then show ?case by (intro reads_back_arr) (auto simp: list_all_iff)
next
  case (JObj kvs)
  have "list_all plain_char k \<and> reads_back v" if "(k, v) \<in> set kvs" for k v
    using JObj that by (auto simp: list_all_iff)
  with JObj.prems show ?case by (intro reads_back_obj) auto
qed (simp_all add: reads_back_simple)

lemma map_fst_sort_keys: "map fst (map (\<lambda>(k, v). (k, h v)) kvs) = map fst kvs"
  by (simp add: comp_def case_prod_unfold)

lemma distinct_keys_sort: "distinct (map fst kvs) \<Longrightarrow> distinct (map fst (sort_key fst kvs))"
  by (simp add: distinct_map)

lemma json_ok_sort_keys: "json_ok v \<Longrightarrow> json_ok (sort_keys v)"
proof (induction v)
  case (JObj kvs)
  have "distinct (map fst (sort_key fst (map (\<lambda>(k, v). (k, sort_keys v)) kvs)))"
    using JObj.prems by (intro distinct_keys_sort) (simp only: map_fst_sort_keys json_ok.simps)
  moreover have "list_all plain_char k \<and> json_ok (sort_keys v)" if "(k, v) \<in> set kvs" for k v
    using JObj that by (auto simp: list_all_iff)
  ultimately show ?case by (auto simp: list_all_iff)
qed (auto simp: list_all_iff)

lemma json_loads_write: "json_ok v \<Longrightarrow> json_loads (json_write v) = Inr v"
  using reads_backD [OF json_ok_reads_back, of v "Suc (length (json_write v))" "[]"] skip_ws_write [of v "[]"]
  by (simp add: json_loads_def)

lemma json_loads_dumps: "json_ok v \<Longrightarrow> json_loads (json_dumps v) = Inr (sort_keys v)"
  by (simp add: json_dumps_def json_loads_write json_ok_sort_keys)

end
