(* ===== verification/Metadata.thy ===== *)
theory Metadata
  imports Json
begin

text \<open>
  \<open>afd_plugin/connectors/metadata.py\<close>: the DP token metadata and its per-rank sizes, the
  control payload and its wire format, the transfer metadata of one Attention/FFN exchange,
  and the expert weights of an FFN rank.  A \<open>torch.int32\<close> CPU tensor is the list of its
  elements, every operation on it wrapped by \<^const>\<open>wrap32\<close>.
\<close>

section \<open>DP metadata\<close>

record dp_metadata =
  num_tokens_across_dp_cpu :: "int list"
  max_tokens_across_dp_cpu :: int
  local_sizes :: "int list option"

text \<open>\<open>torch.as_tensor(values, dtype=torch.int32)\<close> on Python integers.\<close>

definition as_tensor32 :: "int list \<Rightarrow> int list result" where
  "as_tensor32 xs =
     (if list_all fits32 xs then Inr xs
      else Inl (RuntimeError ''value cannot be converted to type int32_t without overflow''))"

text \<open>\<open>AFDDPMetadata(...)\<close>: the constructor with its \<open>__post_init__\<close>.\<close>

definition make_dp_metadata :: "int list \<Rightarrow> int option \<Rightarrow> dp_metadata result" where
  "make_dp_metadata counts mx =
     bind_result (as_tensor32 counts) (\<lambda>t.
     bind_result
       (case mx of
          None \<Rightarrow> if t = [] then Inl (RuntimeError ''max(): Expected reduction dim'') else Inr (Max (set t))
        | Some m \<Rightarrow> bind_result (as_tensor32 [m]) (\<lambda>_. Inr m))
       (\<lambda>m. Inr \<lparr>num_tokens_across_dp_cpu = t, max_tokens_across_dp_cpu = m, local_sizes = None\<rparr>))"

definition repeat_interleave :: "int \<Rightarrow> 'a list \<Rightarrow> 'a list" where
  "repeat_interleave k xs = concat (map (\<lambda>x. replicate (nat k) x) xs)"

text \<open>\<open>(t + sp - 1) // sp\<close> on an int32 tensor; torch refuses a zero divisor and a negative repeat.\<close>

definition sp_tokens :: "int \<Rightarrow> int list \<Rightarrow> int list result" where
  "sp_tokens sp t =
     (if sp = 0 then Inl (RuntimeError ''ZeroDivisionError'')
      else if sp < 0 then Inl (RuntimeError ''repeats can not be negative'')
      else Inr (repeat_interleave sp (map (\<lambda>n. wrap32 (wrap32 (wrap32 (n + sp) - 1) div sp)) t)))"

text \<open>
  The context manager \<open>sp_local_sizes\<close>: entering stores and yields the sizes, leaving (on
  every path) clears them.
\<close>

definition sp_local_sizes_enter ::
  "dp_metadata \<Rightarrow> int \<Rightarrow> int \<Rightarrow> bool \<Rightarrow> (dp_metadata \<times> int list) result" where
  "sp_local_sizes_enter d sp pcp use_ep =
     (let t = num_tokens_across_dp_cpu d;
          t = (if 1 < pcp then (if use_ep then repeat_interleave pcp t else map (\<lambda>n. wrap32 (n * pcp)) t) else t)
      in bind_result (sp_tokens sp t) (\<lambda>sizes. Inr (d\<lparr>local_sizes := Some sizes\<rparr>, sizes)))"

definition chunked_sizes_enter ::
  "dp_metadata \<Rightarrow> int \<Rightarrow> int \<Rightarrow> int \<Rightarrow> (dp_metadata \<times> int list) result" where
  "chunked_sizes_enter d sp max_chunk idx =
     bind_result (sp_tokens sp (num_tokens_across_dp_cpu d)) (\<lambda>t.
     let sizes = map (\<lambda>size. max 1 (min max_chunk (size - max_chunk * idx))) t
     in Inr (d\<lparr>local_sizes := Some sizes\<rparr>, sizes))"

definition local_sizes_exit :: "dp_metadata \<Rightarrow> dp_metadata" where
  "local_sizes_exit d = d\<lparr>local_sizes := None\<rparr>"

definition get_chunk_sizes_across_dp_rank :: "dp_metadata \<Rightarrow> int list option" where
  "get_chunk_sizes_across_dp_rank d = local_sizes d"

fun cumsum_from :: "int \<Rightarrow> int list \<Rightarrow> int list" where
  "cumsum_from acc [] = []"
| "cumsum_from acc (x # xs) = (acc + x) # cumsum_from (acc + x) xs"

text \<open>\<open>torch.cumsum\<close> of an int32 tensor accumulates in int64.\<close>

definition cu_tokens_across_sp :: "dp_metadata \<Rightarrow> int \<Rightarrow> int list result" where
  "cu_tokens_across_sp d sp =
     (if sp = 0 then Inl (RuntimeError ''ZeroDivisionError'')
      else if sp < 0 then Inl (RuntimeError ''repeats can not be negative'')
      else Inr (cumsum_from 0 (repeat_interleave sp
             (map (\<lambda>n. wrap32 (wrap32 (wrap32 (n - 1) + sp) div sp)) (num_tokens_across_dp_cpu d)))))"

section \<open>Control payload\<close>

record control_payload =
  dp_metadata_list :: "(int, dp_metadata) dict"
  is_graph_capturing :: bool
  is_warmup :: bool
  is_graph_replaying :: bool
  is_profile :: bool

text \<open>A stage's metadata as callers give it: vLLM's own object (its token counts) or the plugin's.\<close>

datatype stage_metadata = NativeDP "int list" | AfdDP dp_metadata

fun ensure_afd_dp_metadata :: "stage_metadata \<Rightarrow> dp_metadata result" where
  "ensure_afd_dp_metadata (NativeDP counts) = make_dp_metadata counts None"
| "ensure_afd_dp_metadata (AfdDP d) = Inr d"

definition make_control_payload ::
  "(int, stage_metadata) dict \<Rightarrow> bool \<Rightarrow> bool \<Rightarrow> bool \<Rightarrow> bool \<Rightarrow> control_payload result" where
  "make_control_payload stages capturing warmup replaying profile =
     bind_result (map_result (\<lambda>(s, m). bind_result (ensure_afd_dp_metadata m) (\<lambda>d. Inr (s, d))) stages) (\<lambda>l.
     Inr \<lparr>dp_metadata_list = l, is_graph_capturing = capturing, is_warmup = warmup,
          is_graph_replaying = replaying, is_profile = profile\<rparr>)"

section \<open>Transfer metadata\<close>

record transfer_metadata =
  layer_idx :: int
  stage_idx :: int
  seq_lens :: "int list"

definition make_transfer_metadata :: "int \<Rightarrow> int \<Rightarrow> int list \<Rightarrow> transfer_metadata result" where
  "make_transfer_metadata layer stage lens =
     (if lens = [] then Inl (ValueError ''seq_lens cannot be empty'')
      else if \<exists>n \<in> set lens. n < 0 then Inl (ValueError ''all sequence lengths must be non-negative'')
      else Inr \<lparr>layer_idx = layer, stage_idx = stage, seq_lens = lens\<rparr>)"

definition total_tokens :: "transfer_metadata \<Rightarrow> int" where
  "total_tokens m = sum_list (seq_lens m)"

definition create_attention_metadata :: "int \<Rightarrow> int \<Rightarrow> int \<Rightarrow> transfer_metadata result" where
  "create_attention_metadata layer stage n = make_transfer_metadata layer stage [n]"

definition create_ffn_metadata :: "int \<Rightarrow> int \<Rightarrow> int list \<Rightarrow> transfer_metadata result" where
  "create_ffn_metadata layer stage lens = make_transfer_metadata layer stage lens"

definition validate_tensor_shape :: "transfer_metadata \<Rightarrow> int list \<Rightarrow> bool" where
  "validate_tensor_shape m shape \<longleftrightarrow> shape \<noteq> [] \<and> shape ! 0 = total_tokens m"

section \<open>Expert weights\<close>

datatype dtype = BF16 | FP8_E4M3 | FP32 | INT32 | INT64 | OtherDtype string

record tensor_info =
  ti_dtype :: dtype
  ti_shape :: "int list"

record local_expert_weights =
  w13 :: tensor_info
  w2 :: tensor_info
  w13_scale :: "tensor_info option"
  w2_scale :: "tensor_info option"

definition weights_is_fp8 :: "local_expert_weights \<Rightarrow> bool" where
  "weights_is_fp8 w \<longleftrightarrow> ti_dtype (w13 w) = FP8_E4M3"

definition make_local_expert_weights ::
  "tensor_info \<Rightarrow> tensor_info \<Rightarrow> tensor_info option \<Rightarrow> tensor_info option \<Rightarrow> local_expert_weights result" where
  "make_local_expert_weights t13 t2 s13 s2 =
     (let w = \<lparr>w13 = t13, w2 = t2, w13_scale = s13, w2_scale = s2\<rparr> in
      if ti_dtype t13 \<noteq> ti_dtype t2 then Inl (ValueError ''w13 and w2 must have the same dtype'')
      else if weights_is_fp8 w \<noteq> (s13 \<noteq> None \<and> s2 \<noteq> None)
      then Inl (ValueError ''FP8 expert weights need both block scales'')
      else Inr w)"

definition weights_num_experts :: "local_expert_weights \<Rightarrow> int result" where
  "weights_num_experts w = py_get (ti_shape (w13 w)) 0"

record ffn_local_experts =
  expert_ids :: "int list"
  weights :: local_expert_weights

section \<open>Wire format\<close>

definition encode_stage :: "int \<times> dp_metadata \<Rightarrow> string \<times> json" where
  "encode_stage = (\<lambda>(s, d). (py_str_int s,
     JObj [(''num_tokens_across_dp_cpu'', JArr (map JInt (num_tokens_across_dp_cpu d))),
           (''max_tokens_across_dp_cpu'', JInt (max_tokens_across_dp_cpu d))]))"

definition wire_payload :: "control_payload \<Rightarrow> json" where
  "wire_payload p = JObj
     [(''dp_metadata_list'', JObj (dict_of (map encode_stage (dp_metadata_list p)))),
      (''is_graph_capturing'', JBool (is_graph_capturing p)),
      (''is_warmup'', JBool (is_warmup p)),
      (''is_graph_replaying'', JBool (is_graph_replaying p)),
      (''is_profile'', JBool (is_profile p))]"

text \<open>The bytes are ASCII, so the UTF-8 encoding is the string itself.\<close>

definition encode_control_payload :: "control_payload \<Rightarrow> string" where
  "encode_control_payload p = json_dumps (wire_payload p)"

fun json_field :: "json \<Rightarrow> string \<Rightarrow> json result" where
  "json_field (JObj kvs) k = (case dict_get kvs k of Some v \<Rightarrow> Inr v | None \<Rightarrow> Inl KeyError)"
| "json_field _ k = Inl (TypeError ''not subscriptable by a string'')"

text \<open>\<open>int(v)\<close> on a decoded value.\<close>

fun json_to_int :: "json \<Rightarrow> int result" where
  "json_to_int (JInt i) = Inr i"
| "json_to_int (JBool b) = Inr (if b then 1 else 0)"
| "json_to_int (JStr s) = (case py_int_of_str s of Some i \<Rightarrow> Inr i | None \<Rightarrow> Inl (ValueError ''invalid literal for int()''))"
| "json_to_int _ = Inl (TypeError ''int() argument must be'')"

fun json_truthy :: "json \<Rightarrow> bool" where
  "json_truthy JNull = False"
| "json_truthy (JBool b) = b"
| "json_truthy (JInt i) = (i \<noteq> 0)"
| "json_truthy (JStr s) = (s \<noteq> [])"
| "json_truthy (JArr xs) = (xs \<noteq> [])"
| "json_truthy (JObj kvs) = (kvs \<noteq> [])"

text \<open>Iterating a decoded value: a list, an object's keys, or a string's characters.\<close>

fun json_iter :: "json \<Rightarrow> json list result" where
  "json_iter (JArr xs) = Inr xs"
| "json_iter (JObj kvs) = Inr (map (JStr \<circ> fst) kvs)"
| "json_iter (JStr s) = Inr (map (\<lambda>c. JStr [c]) s)"
| "json_iter _ = Inl (TypeError ''object is not iterable'')"

definition decode_stage :: "string \<times> json \<Rightarrow> (int \<times> dp_metadata) result" where
  "decode_stage = (\<lambda>(k, v).
     bind_result (json_to_int (JStr k)) (\<lambda>s.
     bind_result (json_field v ''num_tokens_across_dp_cpu'') (\<lambda>counts.
     bind_result (json_iter counts) (\<lambda>items.
     bind_result (map_result json_to_int items) (\<lambda>ns.
     bind_result (as_tensor32 ns) (\<lambda>t.
     bind_result (json_field v ''max_tokens_across_dp_cpu'') (\<lambda>mv.
     bind_result (json_to_int mv) (\<lambda>m.
     bind_result (make_dp_metadata t (Some m)) (\<lambda>d. Inr (s, d))))))))))"

definition json_flag :: "json \<Rightarrow> string \<Rightarrow> bool" where
  "json_flag v k = (case v of JObj kvs \<Rightarrow> (case dict_get kvs k of Some b \<Rightarrow> json_truthy b | None \<Rightarrow> False) | _ \<Rightarrow> False)"

definition decode_control_payload :: "string \<Rightarrow> control_payload result" where
  "decode_control_payload bs =
     bind_result (json_loads bs) (\<lambda>payload.
     bind_result (json_field payload ''dp_metadata_list'') (\<lambda>stages.
     case stages of
       JObj kvs \<Rightarrow>
         bind_result (map_result decode_stage kvs) (\<lambda>l.
         Inr \<lparr>dp_metadata_list = dict_of l, is_graph_capturing = json_flag payload ''is_graph_capturing'',
              is_warmup = json_flag payload ''is_warmup'',
              is_graph_replaying = json_flag payload ''is_graph_replaying'',
              is_profile = json_flag payload ''is_profile''\<rparr>)
     | _ \<Rightarrow> Inl (TypeError ''object has no attribute items'')))"

section \<open>Framing: a size, then the bytes\<close>

datatype wire_msg = SizeMsg int | BytesMsg string

definition send_control_payload :: "control_payload \<Rightarrow> int list \<Rightarrow> (int \<times> wire_msg) list" where
  "send_control_payload p dsts =
     (let object_bytes = encode_control_payload p in
      concat (map (\<lambda>d. [(d, SizeMsg (int (length object_bytes))), (d, BytesMsg object_bytes)]) dsts))"

text \<open>
  What one \<open>torch.distributed.recv\<close> does: deliver a message and the rank it came from, raise
  a \<open>ValueError\<close> with its message, or raise another exception.
\<close>

datatype recv_outcome = Received int wire_msg | RecvValueError string | RecvError error

definition starts_with :: "string \<Rightarrow> string \<Rightarrow> bool" where
  "starts_with s p \<longleftrightarrow> take (length p) s = p"

definition ends_with :: "string \<Rightarrow> string \<Rightarrow> bool" where
  "ends_with s p \<longleftrightarrow> length p \<le> length s \<and> drop (length s - length p) s = p"

definition not_registered_suffix :: string where
  "not_registered_suffix =
     ''is not registered, please create group with torch.distributed.new_group API''"

text \<open>
  \<open>check_closed\<close> is absent (\<open>None\<close>) or reads the owner's closed flag; \<open>closed\<close> gives the flag
  at that moment.
\<close>

definition run_check :: "bool option \<Rightarrow> unit result" where
  "run_check closed = guard (closed = Some True) ControlPlaneClosed"

definition recv_tensor :: "bool option \<Rightarrow> recv_outcome \<Rightarrow> (int \<times> wire_msg) result" where
  "recv_tensor closed out =
     (case out of
        Received r m \<Rightarrow> Inr (r, m)
      | RecvValueError msg \<Rightarrow>
          if closed = Some True \<and> starts_with msg ''Group '' \<and> ends_with msg not_registered_suffix
          then Inl ControlPlaneClosed else Inl (ValueError msg)
      | RecvError e \<Rightarrow> Inl e)"

text \<open>
  \<open>recv_control_payload\<close>: the flags are the ones read while the first receive fails, after the
  first wait, while the second receive fails, and after the copy to the host; the second
  receive depends on the size announced by the first.
\<close>

definition recv_control_payload ::
  "bool option \<times> bool option \<times> bool option \<times> bool option \<Rightarrow> recv_outcome \<Rightarrow> (int \<Rightarrow> recv_outcome) \<Rightarrow>
   control_payload result" where
  "recv_control_payload closed first second =
     (case closed of (c1, c2, c3, c4) \<Rightarrow>
     bind_result (recv_tensor c1 first) (\<lambda>(rank_size, size_msg).
     case size_msg of
       BytesMsg _ \<Rightarrow> Inl (RuntimeError ''message of another type'')
     | SizeMsg raw_size \<Rightarrow>
     bind_result (run_check c2) (\<lambda>_.
     bind_result (recv_tensor c3 (second raw_size)) (\<lambda>(rank_object, object_msg).
     bind_result (guard (rank_object \<noteq> rank_size)
       (RuntimeError ''received AFD DP metadata fragments from different ranks'')) (\<lambda>_.
     bind_result (run_check c4) (\<lambda>_.
     case object_msg of
       SizeMsg _ \<Rightarrow> Inl (RuntimeError ''message of another type'')
     | BytesMsg bs \<Rightarrow> decode_control_payload bs))))))"

section \<open>The control payload survives the wire\<close>

text \<open>Integers that fit a tensor element are far below the interpreter's digit limit.\<close>

lemma length_nat_digits: "n < 10 ^ k \<Longrightarrow> 0 < k \<Longrightarrow> length (nat_digits n) \<le> k"
proof (induction n arbitrary: k rule: nat_digits.induct)
  case (1 n)
  show ?case
  proof (cases "n < 10")
    case True
    then show ?thesis using "1.prems" by (simp add: nat_digits.simps [of n])
  next
    case False
    with "1.prems" obtain j where k: "k = Suc j" "0 < j"
      by (cases k; cases "k - 1") auto
    have "n div 10 < 10 ^ j" using "1.prems"(1) by (simp add: k less_mult_imp_div_less mult.commute)
    with "1.IH" [OF False] k have "length (nat_digits (n div 10)) \<le> j" by simp
    then show ?thesis by (simp add: nat_digits.simps [of n] k)
  qed
qed

lemma length_py_str_int32: "fits32 i \<Longrightarrow> length (py_str_int i) \<le> int_max_str_digits"
proof -
  assume "fits32 i"
  then have "nat i < 10 ^ 11" "nat (- i) < 10 ^ 11" by (auto simp: fits32_def)
  then have "length (nat_digits (nat i)) \<le> 11" "length (nat_digits (nat (- i))) \<le> 11"
    by (auto intro: length_nat_digits)
  then show ?thesis by (auto simp: py_str_int_def int_max_str_digits_def)
qed

lemma digit_not_space: "is_digit c \<Longrightarrow> \<not> is_space c"
  by (auto simp: is_digit_def is_space_def Let_def)

lemma py_str_int_chars: "c \<in> set (py_str_int i) \<Longrightarrow> is_digit c \<or> c = CHR ''-''"
  by (auto simp: py_str_int_def dest: nat_digits_all_digits split: if_splits)

lemma py_strip_str_int [simp]: "py_strip (py_str_int i) = py_str_int i"
proof -
  have "\<not> is_space c" if "c \<in> set (py_str_int i)" for c
    using py_str_int_chars [OF that] digit_not_space [of c] by (auto simp: is_space_def)
  then have "dropWhile is_space (py_str_int i) = py_str_int i"
    "dropWhile is_space (rev (py_str_int i)) = rev (py_str_int i)"
    by (metis dropWhile_eq_self_iff hd_in_set set_rev rev_is_Nil_conv)+
  then show ?thesis by (simp add: py_strip_def)
qed

lemma filter_digits [simp]: "filter is_digit (nat_digits n) = nat_digits n"
  by (simp add: filter_id_conv nat_digits_all_digits)

lemma py_int_of_str_int:
  assumes "length (py_str_int i) \<le> int_max_str_digits"
  shows "py_int_of_str (py_str_int i) = Some i"
proof (cases "i < 0")
  case True
  with assms show ?thesis
    using py_strip_str_int [of i]
    by (simp add: py_int_of_str_def py_str_int_def digits_from_nat_digits)
next
  case False
  with assms show ?thesis
    using py_strip_str_int [of i] nat_digits_hd_not_sign [of "nat i"]
    by (simp add: py_int_of_str_def py_str_int_def digits_from_nat_digits)
qed

definition wf_payload :: "control_payload \<Rightarrow> bool" where
  "wf_payload p \<longleftrightarrow> wf_dict (dp_metadata_list p) \<and>
     (\<forall>(s, d) \<in> set (dp_metadata_list p). fits32 s \<and> fits32 (max_tokens_across_dp_cpu d) \<and>
        list_all fits32 (num_tokens_across_dp_cpu d))"

text \<open>What the receiver holds: the stages in the order of their decimal keys, without local sizes.\<close>

definition received_payload :: "control_payload \<Rightarrow> control_payload" where
  "received_payload p = p\<lparr>dp_metadata_list :=
     map (\<lambda>(s, d). (s, d\<lparr>local_sizes := None\<rparr>)) (sort_key (py_str_int \<circ> fst) (dp_metadata_list p))\<rparr>"

lemma insort_key_map: "insort_key f (g x) (map g xs) = map g (insort_key (f \<circ> g) x xs)"
  by (induction xs) auto

lemma sort_key_map: "sort_key f (map g xs) = map g (sort_key (f \<circ> g) xs)"
  by (induction xs) (simp_all add: insort_key_map [unfolded comp_def] comp_def)

lemma dict_get_sort: "distinct (map fst kvs) \<Longrightarrow> dict_get (sort_key fst kvs) k = dict_get kvs k"
  unfolding dict_get_def
  by (metis distinct_keys_sort map_of_inject_set set_sort)

lemma json_field_sorted:
  "distinct (map fst kvs) \<Longrightarrow> dict_get kvs k = Some v \<Longrightarrow>
   json_field (sort_keys (JObj kvs)) k = Inr (sort_keys v)"
proof -
  assume d: "distinct (map fst kvs)" and v: "dict_get kvs k = Some v"
  let ?kvs = "map (\<lambda>(k, v). (k, sort_keys v)) kvs"
  have "dict_get (sort_key fst ?kvs) k = dict_get ?kvs k"
    using d by (intro dict_get_sort) (simp only: map_fst_sort_keys)
  also have "dict_get ?kvs k = Some (sort_keys v)"
    using v by (induction kvs) (auto simp: dict_get_def)
  finally show ?thesis by simp
qed

lemma json_flag_sorted:
  "distinct (map fst kvs) \<Longrightarrow> dict_get kvs k = Some (JBool b) \<Longrightarrow> json_flag (sort_keys (JObj kvs)) k = b"
  using json_field_sorted [of kvs k "JBool b"] by (simp add: json_flag_def split: option.splits)

lemma map_result_ints: "map_result json_to_int (map JInt ns) = Inr ns"
  by (induction ns) auto

lemma decode_encoded_stage:
  assumes "fits32 s" "fits32 (max_tokens_across_dp_cpu d)" "list_all fits32 (num_tokens_across_dp_cpu d)"
  shows "decode_stage (case encode_stage (s, d) of (k, v) \<Rightarrow> (k, sort_keys v)) = Inr (s, d\<lparr>local_sizes := None\<rparr>)"
proof -
  let ?kvs = "[(''num_tokens_across_dp_cpu'', JArr (map JInt (num_tokens_across_dp_cpu d))),
           (''max_tokens_across_dp_cpu'', JInt (max_tokens_across_dp_cpu d))]"
  have f1: "json_field (sort_keys (JObj ?kvs)) ''num_tokens_across_dp_cpu'' =
      Inr (JArr (map JInt (num_tokens_across_dp_cpu d)))"
    by (subst json_field_sorted [where v = "JArr (map JInt (num_tokens_across_dp_cpu d))"])
      (simp_all add: dict_get_def comp_def)
  have f2: "json_field (sort_keys (JObj ?kvs)) ''max_tokens_across_dp_cpu'' = Inr (JInt (max_tokens_across_dp_cpu d))"
    by (subst json_field_sorted [where v = "JInt (max_tokens_across_dp_cpu d)"]) (simp_all add: dict_get_def)
  show ?thesis
    using assms
    by (simp add: decode_stage_def encode_stage_def f1 f2 map_result_ints as_tensor32_def
        make_dp_metadata_def py_int_of_str_int length_py_str_int32 del: sort_keys.simps)
qed

lemma plain_digit: "is_digit c \<or> c = CHR ''-'' \<Longrightarrow> plain_char c"
  by (auto simp: plain_char_def is_digit_def Let_def)

lemma plain_py_str_int: "list_all plain_char (py_str_int i)"
  by (auto simp: list_all_iff intro: plain_digit dest: py_str_int_chars)

lemma distinct_stage_keys: "wf_dict l \<Longrightarrow> distinct (map fst (map encode_stage l))"
proof -
  have "map fst (map encode_stage l) = map py_str_int (map fst l)" for l
    by (simp add: encode_stage_def comp_def case_prod_unfold)
  then show "wf_dict l \<Longrightarrow> ?thesis"
    by (simp add: wf_dict_def distinct_map inj_on_def py_str_int_inj)
qed

lemma json_ok_stage:
  assumes "fits32 (max_tokens_across_dp_cpu d)" "list_all fits32 (num_tokens_across_dp_cpu d)"
  shows "json_ok (snd (encode_stage (s, d)))"
  using assms by (auto simp: encode_stage_def list_all_iff length_py_str_int32 plain_char_def)

lemma json_ok_wire: "wf_payload p \<Longrightarrow> json_ok (wire_payload p)"
proof -
  assume wf: "wf_payload p"
  then have d: "distinct (map fst (map encode_stage (dp_metadata_list p)))"
    by (intro distinct_stage_keys) (simp add: wf_payload_def)
  have "json_ok (JObj (map encode_stage (dp_metadata_list p)))"
    unfolding json_ok.simps
  proof (intro conjI d)
    have "list_all plain_char (fst (encode_stage x)) \<and> json_ok (snd (encode_stage x))"
      if "x \<in> set (dp_metadata_list p)" for x
      using wf that json_ok_stage [of "snd x" "fst x"]
      by (auto simp: wf_payload_def encode_stage_def plain_py_str_int)
    then show "list_all (\<lambda>(k, v). list_all plain_char k \<and> json_ok v) (map encode_stage (dp_metadata_list p))"
      by (auto simp: list_all_iff case_prod_unfold)
  qed
  then show ?thesis
    by (simp add: wire_payload_def dict_of_distinct [OF d] plain_char_def)
qed

lemma decode_encode:
  assumes wf: "wf_payload p"
  shows "decode_control_payload (encode_control_payload p) = Inr (received_payload p)"
proof -
  let ?l = "dp_metadata_list p"
  let ?enc = "\<lambda>x. case encode_stage x of (k, v) \<Rightarrow> (k, sort_keys v)"
  let ?l' = "sort_key (py_str_int \<circ> fst) ?l"
  let ?rec = "map (\<lambda>(s, d). (s, d\<lparr>local_sizes := None\<rparr>)) ?l'"
  have loads: "json_loads (encode_control_payload p) = Inr (sort_keys (wire_payload p))"
    by (simp add: encode_control_payload_def json_loads_dumps json_ok_wire wf)
  have d: "distinct (map fst (map encode_stage ?l))"
    using wf by (intro distinct_stage_keys) (simp add: wf_payload_def)
  have key: "fst \<circ> ?enc = py_str_int \<circ> fst" by (auto simp: encode_stage_def)
  have "sort_keys (JObj (map encode_stage ?l)) = JObj (map ?enc ?l')"
    by (simp add: comp_def [of _ encode_stage] sort_key_map key)
  then have stages: "json_field (sort_keys (wire_payload p)) ''dp_metadata_list'' = Inr (JObj (map ?enc ?l'))"
    unfolding wire_payload_def
    by (subst json_field_sorted [where v = "JObj (map encode_stage ?l)"])
      (simp_all add: dict_get_def dict_of_distinct [OF d])
  have dec: "map_result decode_stage (map ?enc ?l') = Inr ?rec"
  proof -
    have "(decode_stage \<circ> ?enc) x = Inr ((\<lambda>(s, d). (s, d\<lparr>local_sizes := None\<rparr>)) x)" if "x \<in> set ?l'" for x
      using that wf decode_encoded_stage [of "fst x" "snd x"]
      by (auto simp: wf_payload_def simp del: sort_keys.simps)
    then have "map_result (decode_stage \<circ> ?enc) ?l' = Inr ?rec"
      by (rule map_result_map_Inr)
    then show ?thesis by (simp only: map_result_map)
  qed
  have "distinct (map fst ?rec)"
  proof -
    have "map fst ?rec = map fst ?l'" by (rule map_fst_sort_keys)
    moreover have "distinct (map fst ?l')"
      using wf by (simp add: wf_payload_def wf_dict_def distinct_map)
    ultimately show ?thesis by (simp only:)
  qed
  then have "dict_of ?rec = ?rec" by (rule dict_of_distinct)
  moreover have "json_flag (sort_keys (wire_payload p)) ''is_graph_capturing'' = is_graph_capturing p"
    "json_flag (sort_keys (wire_payload p)) ''is_warmup'' = is_warmup p"
    "json_flag (sort_keys (wire_payload p)) ''is_graph_replaying'' = is_graph_replaying p"
    "json_flag (sort_keys (wire_payload p)) ''is_profile'' = is_profile p"
    unfolding wire_payload_def by (rule json_flag_sorted; simp add: dict_get_def)+
  ultimately show ?thesis
    by (simp add: decode_control_payload_def loads stages dec received_payload_def del: sort_keys.simps)
qed

lemma received_stage:
  "wf_payload p \<Longrightarrow> dict_get (dp_metadata_list (received_payload p)) s =
     map_option (\<lambda>d. d\<lparr>local_sizes := None\<rparr>) (dict_get (dp_metadata_list p) s)"
proof -
  assume wf: "wf_payload p"
  let ?l = "dp_metadata_list p"
  have m: "map_of (map (\<lambda>(s, d). (s, f d)) kvs) s = map_option f (map_of kvs s)" for f :: "dp_metadata \<Rightarrow> dp_metadata" and kvs and s :: int
    by (induction kvs) auto
  have "map_of (sort_key (py_str_int \<circ> fst) ?l) = map_of ?l"
    by (rule map_of_inject_set [THEN iffD2])
      (use wf in \<open>auto simp: wf_payload_def wf_dict_def distinct_map\<close>)
  then show ?thesis by (simp add: received_payload_def dict_get_def m)
qed

text \<open>Framing: the two fragments of one sender give its payload; a closed plane never does.\<close>

lemma recv_sent_payload:
  assumes "wf_payload p" "c2 \<noteq> Some True" "c4 \<noteq> Some True"
    and "send_control_payload p [d] = [(d, m1), (d, m2)]"
  shows "recv_control_payload (c1, c2, c3, c4) (Received r m1) (\<lambda>_. Received r m2) = Inr (received_payload p)"
  using assms
  by (auto simp: recv_control_payload_def send_control_payload_def Let_def recv_tensor_def run_check_def decode_encode)

lemma recv_closed_not_ok:
  "c2 = Some True \<or> c4 = Some True \<Longrightarrow> \<not> is_ok (recv_control_payload (c1, c2, c3, c4) first second)"
  by (auto simp: recv_control_payload_def run_check_def is_ok_def result_simps
      split: sum.splits wire_msg.splits prod.splits)

text \<open>What one sender's transmissions give the receiver with rank \<open>dst\<close>, in order.\<close>

definition fragments_for :: "int \<Rightarrow> (int \<times> wire_msg) list \<Rightarrow> wire_msg list" where
  "fragments_for dst msgs = map snd (filter (\<lambda>(d, _). d = dst) msgs)"

lemma fragments_for_send:
  "distinct dsts \<Longrightarrow> fragments_for d (send_control_payload p dsts) =
     (if d \<in> set dsts then [SizeMsg (int (length (encode_control_payload p))), BytesMsg (encode_control_payload p)] else [])"
  by (induction dsts) (auto simp: fragments_for_def send_control_payload_def Let_def)

end
