(* ===== verification/Ffn_Worker.thy ===== *)
theory Ffn_Worker
  imports Metadata
begin

text \<open>
  The FFN worker \<open>v1/worker/ffn_worker.py\<close>: a daemon thread receives the control payloads and
  serves them while the worker's own thread starts, stops and shuts the loop down.  The two
  threads interleave between their reads and writes of shared state; the connector's control
  plane and the model runner are reached through a record of operations.
\<close>

section \<open>What the worker uses\<close>

text \<open>
  A connector's control plane: its group and closed flag, the three writes of \<open>close\<close> and \<open>close\<close>
  itself, what a receive re-raises (given the closed flag) and the error of a missing group.
  \<open>pl_net aborted size out\<close>: a receive of the size (or of the object) may end in \<open>out\<close>.
\<close>

record 'r plane_ops =
  pl_group :: "'r \<Rightarrow> int option"
  pl_closed :: "'r \<Rightarrow> bool"
  pl_aborted :: "'r \<Rightarrow> int list"
  pl_set_closed :: "'r \<Rightarrow> 'r"
  pl_abort :: "int \<Rightarrow> 'r \<Rightarrow> 'r"
  pl_clear :: "'r \<Rightarrow> 'r"
  pl_close :: "'r \<Rightarrow> 'r"
  pl_wrap :: "bool \<Rightarrow> error \<Rightarrow> error"
  pl_no_group :: error
  pl_net :: "bool \<Rightarrow> bool \<Rightarrow> recv_outcome \<Rightarrow> bool"

text \<open>The model runner that owns the connector.\<close>

record 'r loop_ops = "'r plane_ops" +
  rn_has_plane :: bool
  rn_use_cuda_graph :: "'r \<Rightarrow> bool"
  rn_initialized :: "'r \<Rightarrow> bool"
  rn_initialize :: "('r, unit) op"
  rn_capture :: "(int, dp_metadata) dict \<Rightarrow> bool \<Rightarrow> bool \<Rightarrow> ('r, unit) op"
  rn_execute :: "(int, dp_metadata) dict \<Rightarrow> bool \<Rightarrow> bool \<Rightarrow> bool \<Rightarrow> ('r, unit) op"

section \<open>The loop thread\<close>

text \<open>
  Where the loop is: \<open>Failing\<close> is an exception inside the receive, \<open>Raised\<close> the one the receive
  raises, \<open>Logging\<close> the recorded one.
\<close>

datatype loop_phase =
    Entering
  | AtTop
  | ReadGroup
  | CheckPlane "int option"
  | RecvSize int
  | CheckSize int int
  | RecvObject int int
  | CheckObject wire_msg
  | Failing error
  | Raised error
  | Serving control_payload
  | Logging error
  | Finished

definition serve_payload :: "('r, 'z) loop_ops_scheme \<Rightarrow> control_payload \<Rightarrow> ('r, unit) op" where
  "serve_payload c p = (\<lambda>r.
     if rn_use_cuda_graph c r \<and> (is_warmup p \<or> is_graph_capturing p)
     then rn_capture c (dp_metadata_list p) (is_warmup p) (is_graph_capturing p) r
     else rn_execute c (dp_metadata_list p) (is_graph_capturing p) (is_warmup p) (is_graph_replaying p) r)"

text \<open>After the first and after the second wait of \<open>recv_control_payload\<close>.\<close>

definition size_received :: "int \<Rightarrow> (int \<times> wire_msg) result \<Rightarrow> loop_phase" where
  "size_received g x =
     (case x of
        Inl e \<Rightarrow> Failing e
      | Inr (_, BytesMsg _) \<Rightarrow> Failing (RuntimeError ''message of another type'')
      | Inr (rank, SizeMsg _) \<Rightarrow> CheckSize g rank)"

definition object_received :: "int \<Rightarrow> (int \<times> wire_msg) result \<Rightarrow> loop_phase" where
  "object_received rank_size x =
     (case x of
        Inl e \<Rightarrow> Failing e
      | Inr (rank, m) \<Rightarrow>
          if rank \<noteq> rank_size then Failing (RuntimeError ''received AFD DP metadata fragments from different ranks'')
          else CheckObject m)"

definition decoded :: "wire_msg \<Rightarrow> loop_phase" where
  "decoded m =
     (case m of
        SizeMsg _ \<Rightarrow> Failing (RuntimeError ''message of another type'')
      | BytesMsg bs \<Rightarrow> (case decode_control_payload bs of Inl e \<Rightarrow> Failing e | Inr p \<Rightarrow> Serving p))"

text \<open>
  One step of the loop once its event object is known: \<open>stopping\<close> is \<open>event.is_set()\<close>, \<open>out\<close> the
  outcome of a receive.
\<close>

fun phase_step :: "('r, 'z) loop_ops_scheme \<Rightarrow> bool \<Rightarrow> recv_outcome \<Rightarrow> loop_phase \<Rightarrow> 'r \<Rightarrow> loop_phase \<times> 'r" where
  "phase_step c stopping out AtTop r =
     (if stopping then Finished else if \<not> rn_has_plane c then Logging NotImplementedError else ReadGroup, r)"
| "phase_step c stopping out ReadGroup r = (CheckPlane (pl_group c r), r)"
| "phase_step c stopping out (CheckPlane g) r =
     (if pl_closed c r then Raised ControlPlaneClosed
      else case g of None \<Rightarrow> Raised (pl_no_group c) | Some g \<Rightarrow> RecvSize g, r)"
| "phase_step c stopping out (RecvSize g) r = (size_received g (recv_tensor (Some (pl_closed c r)) out), r)"
| "phase_step c stopping out (CheckSize g rank) r =
     (if pl_closed c r then Failing ControlPlaneClosed else RecvObject g rank, r)"
| "phase_step c stopping out (RecvObject g rank) r = (object_received rank (recv_tensor (Some (pl_closed c r)) out), r)"
| "phase_step c stopping out (CheckObject m) r = (if pl_closed c r then Failing ControlPlaneClosed else decoded m, r)"
| "phase_step c stopping out (Failing e) r = (Raised (pl_wrap c (pl_closed c r) e), r)"
| "phase_step c stopping out (Raised e) r = (if e = ControlPlaneClosed \<and> stopping then Finished else Logging e, r)"
| "phase_step c stopping out (Serving p) r =
     (case serve_payload c p r of (r', Inl e) \<Rightarrow> (Logging e, r') | (r', Inr _) \<Rightarrow> (AtTop, r'))"
| "phase_step c stopping out (Logging e) r = (Finished, r)"
| "phase_step c stopping out ph r = (ph, r)"

section \<open>The worker\<close>

record loop_thread =
  lt_phase :: loop_phase
  lt_event :: "nat option"

datatype call = Start | Stop | Shutdown

text \<open>Where the worker's own thread is inside \<open>stop_ffn_server_loop\<close>; the flag tells \<open>shutdown\<close> from a plain stop.\<close>

datatype main_pc = Idle | Closing bool | Aborting bool int | Clearing bool | Joining bool

text \<open>
  Threads and events are numbered in the order of their creation; \<open>fw_released\<close> counts the calls of
  the native \<open>shutdown\<close>, \<open>fw_calls\<close> what each call gave.
\<close>

record 'r ffn_worker =
  fw_runner :: 'r
  fw_thread :: "nat option"
  fw_event :: "nat option"
  fw_error :: "error option"
  fw_threads :: "loop_thread list"
  fw_events :: "bool list"
  fw_main :: main_pc
  fw_released :: nat
  fw_calls :: "(call \<times> unit result) list"

definition new_worker :: "'r \<Rightarrow> 'r ffn_worker" where
  "new_worker r =
     \<lparr>fw_runner = r, fw_thread = None, fw_event = None, fw_error = None, fw_threads = [], fw_events = [],
      fw_main = Idle, fw_released = 0, fw_calls = []\<rparr>"

definition live :: "loop_thread \<Rightarrow> bool" where
  "live t \<longleftrightarrow> lt_phase t \<noteq> Finished"

definition thread_alive :: "'r ffn_worker \<Rightarrow> bool" where
  "thread_alive w = (case fw_thread w of None \<Rightarrow> False | Some i \<Rightarrow> live (fw_threads w ! i))"

definition raise_ffn_loop_error_if_any :: "'r ffn_worker \<Rightarrow> unit result" where
  "raise_ffn_loop_error_if_any w = guard (fw_error w \<noteq> None) (RuntimeError ''AFD FFN worker loop failed'')"

text \<open>The new event and thread of a started loop.\<close>

definition launch :: "'r ffn_worker \<Rightarrow> 'r ffn_worker" where
  "launch w = w\<lparr>fw_event := Some (length (fw_events w)), fw_events := fw_events w @ [False], fw_error := None,
     fw_thread := Some (length (fw_threads w)), fw_threads := fw_threads w @ [\<lparr>lt_phase = Entering, lt_event = None\<rparr>]\<rparr>"

definition start_ffn_server_loop :: "('r, 'z) loop_ops_scheme \<Rightarrow> ('r ffn_worker, unit) op" where
  "start_ffn_server_loop c = (\<lambda>w.
     if thread_alive w then (w, raise_ffn_loop_error_if_any w)
     else
       op_bind (op_lift raise_ffn_loop_error_if_any) (\<lambda>_.
       op_bind (\<lambda>w. if rn_initialized c (fw_runner w) then (w, Inr ())
                    else case rn_initialize c (fw_runner w) of (r, x) \<Rightarrow> (w\<lparr>fw_runner := r\<rparr>, x)) (\<lambda>_.
       op_modify launch)) w)"

text \<open>\<open>stop_ffn_server_loop\<close> up to the join: set the event, then close the control plane.\<close>

definition set_event :: "'r ffn_worker \<Rightarrow> 'r ffn_worker" where
  "set_event w = (case fw_event w of None \<Rightarrow> w | Some e \<Rightarrow> w\<lparr>fw_events := (fw_events w)[e := True]\<rparr>)"

definition close_step :: "('r, 'z) loop_ops_scheme \<Rightarrow> 'r ffn_worker \<Rightarrow> 'r ffn_worker" where
  "close_step c w =
     (let r = fw_runner w in
      case fw_main w of
        Closing sh \<Rightarrow>
          (case pl_group c (pl_set_closed c r) of
             None \<Rightarrow> w\<lparr>fw_runner := pl_set_closed c r, fw_main := Joining sh\<rparr>
           | Some g \<Rightarrow> w\<lparr>fw_runner := pl_set_closed c r, fw_main := Aborting sh g\<rparr>)
      | Aborting sh g \<Rightarrow> w\<lparr>fw_runner := pl_abort c g r, fw_main := Clearing sh\<rparr>
      | Clearing sh \<Rightarrow> w\<lparr>fw_runner := pl_clear c r, fw_main := Joining sh\<rparr>
      | _ \<Rightarrow> w)"

definition request_stop :: "('r, 'z) loop_ops_scheme \<Rightarrow> bool \<Rightarrow> 'r ffn_worker \<Rightarrow> 'r ffn_worker" where
  "request_stop c sh w = (set_event w)\<lparr>fw_main := (if rn_has_plane c then Closing sh else Joining sh)\<rparr>"

text \<open>The join and what follows it; \<open>shutdown\<close> releases the native state in its \<open>finally\<close> if the thread is gone.\<close>

definition finish_call :: "call \<Rightarrow> unit result \<Rightarrow> 'r ffn_worker \<Rightarrow> 'r ffn_worker" where
  "finish_call k x w = w\<lparr>fw_main := Idle, fw_calls := fw_calls w @ [(k, x)]\<rparr>"

definition stop_call :: "bool \<Rightarrow> call" where
  "stop_call sh = (if sh then Shutdown else Stop)"

definition join_loop :: "bool \<Rightarrow> 'r ffn_worker \<Rightarrow> 'r ffn_worker" where
  "join_loop sh w =
     (if thread_alive w then
        finish_call (stop_call sh) (Inl (RuntimeError ''AFD FFN worker loop did not stop before shutdown'')) w
      else
        (let w = w\<lparr>fw_thread := None, fw_event := None\<rparr>;
             w = (if sh then w\<lparr>fw_released := Suc (fw_released w)\<rparr> else w)
         in finish_call (stop_call sh) (raise_ffn_loop_error_if_any w) w))"

text \<open>The loop thread \<open>i\<close> moves.\<close>

definition stopping :: "'r ffn_worker \<Rightarrow> loop_thread \<Rightarrow> bool" where
  "stopping w t = (case lt_event t of None \<Rightarrow> False | Some e \<Rightarrow> fw_events w ! e)"

definition move_thread :: "('r, 'z) loop_ops_scheme \<Rightarrow> recv_outcome \<Rightarrow> nat \<Rightarrow> 'r ffn_worker \<Rightarrow> 'r ffn_worker" where
  "move_thread c out i w =
     (let t = fw_threads w ! i in
      if lt_phase t = Entering then
          w\<lparr>fw_threads := (fw_threads w)[i := \<lparr>lt_phase = (if fw_event w = None then Finished else AtTop), lt_event = fw_event w\<rparr>]\<rparr>
      else
          (case phase_step c (stopping w t) out (lt_phase t) (fw_runner w) of (ph', r) \<Rightarrow>
           w\<lparr>fw_runner := r, fw_threads := (fw_threads w)[i := t\<lparr>lt_phase := ph'\<rparr>],
             fw_error := (case ph' of Logging e \<Rightarrow> Some e | _ \<Rightarrow> fw_error w)\<rparr>))"

text \<open>A receive ends in an outcome of the network.\<close>

fun may_receive :: "('r, 'z) loop_ops_scheme \<Rightarrow> recv_outcome \<Rightarrow> loop_phase \<Rightarrow> 'r \<Rightarrow> bool" where
  "may_receive c out (RecvSize g) r = pl_net c (g \<in> set (pl_aborted c r)) True out"
| "may_receive c out (RecvObject g rank) r = pl_net c (g \<in> set (pl_aborted c r)) False out"
| "may_receive c out ph r = True"

datatype move = Call call | Main | Loop nat recv_outcome

inductive worker_step :: "('r, 'z) loop_ops_scheme \<Rightarrow> 'r ffn_worker \<Rightarrow> move \<Rightarrow> 'r ffn_worker \<Rightarrow> bool" for c where
  start: "fw_main w = Idle \<Longrightarrow> start_ffn_server_loop c w = (w', x) \<Longrightarrow> worker_step c w (Call Start) (finish_call Start x w')"
| stop: "fw_main w = Idle \<Longrightarrow> worker_step c w (Call Stop) (request_stop c False w)"
| shutdown: "fw_main w = Idle \<Longrightarrow> worker_step c w (Call Shutdown) (request_stop c True w)"
| close: "fw_main w \<in> {Closing sh, Aborting sh g, Clearing sh} \<Longrightarrow> worker_step c w Main (close_step c w)"
| join: "fw_main w = Joining sh \<Longrightarrow> worker_step c w Main (join_loop sh w)"
| loop: "i < length (fw_threads w) \<Longrightarrow> live (fw_threads w ! i) \<Longrightarrow>
    may_receive c out (lt_phase (fw_threads w ! i)) (fw_runner w) \<Longrightarrow>
    worker_step c w (Loop i out) (move_thread c out i w)"

inductive_cases worker_stepE: "worker_step c w m w'"

inductive worker_run :: "('r, 'z) loop_ops_scheme \<Rightarrow> 'r ffn_worker \<Rightarrow> move list \<Rightarrow> 'r ffn_worker \<Rightarrow> bool" for c where
  none: "worker_run c w [] w"
| more: "worker_run c w ms w' \<Longrightarrow> worker_step c w' m w'' \<Longrightarrow> worker_run c w (ms @ [m]) w''"

section \<open>Running the worker\<close>

text \<open>The step relation as a function: when a move is possible, and what it does.\<close>

fun enabled :: "('r, 'z) loop_ops_scheme \<Rightarrow> move \<Rightarrow> 'r ffn_worker \<Rightarrow> bool" where
  "enabled c (Call k) w \<longleftrightarrow> fw_main w = Idle"
| "enabled c Main w \<longleftrightarrow> fw_main w \<noteq> Idle"
| "enabled c (Loop i out) w \<longleftrightarrow> i < length (fw_threads w) \<and> live (fw_threads w ! i) \<and>
     may_receive c out (lt_phase (fw_threads w ! i)) (fw_runner w)"

fun perform :: "('r, 'z) loop_ops_scheme \<Rightarrow> move \<Rightarrow> 'r ffn_worker \<Rightarrow> 'r ffn_worker" where
  "perform c (Call Start) w = (case start_ffn_server_loop c w of (w', x) \<Rightarrow> finish_call Start x w')"
| "perform c (Call Stop) w = request_stop c False w"
| "perform c (Call Shutdown) w = request_stop c True w"
| "perform c Main w = (case fw_main w of Joining sh \<Rightarrow> join_loop sh w | _ \<Rightarrow> close_step c w)"
| "perform c (Loop i out) w = move_thread c out i w"

lemma worker_step_iff: "worker_step c w m w' \<longleftrightarrow> enabled c m w \<and> w' = perform c m w"
proof
  show "worker_step c w m w' \<Longrightarrow> enabled c m w \<and> w' = perform c m w"
    by (induction rule: worker_step.induct) auto
  have "worker_step c w m (perform c m w)" if "enabled c m w"
  proof (cases m)
    case (Call k)
    then show ?thesis using that by (cases k) (auto intro: worker_step.intros split: prod.split)
  next
    case Main
    then show ?thesis using that by (cases "fw_main w") (auto intro: worker_step.intros)
  next
    case (Loop i out)
    then show ?thesis using that by (auto intro: worker_step.loop)
  qed
  then show "enabled c m w \<and> w' = perform c m w \<Longrightarrow> worker_step c w m w'" by simp
qed

fun possible :: "('r, 'z) loop_ops_scheme \<Rightarrow> (move \<Rightarrow> 'r ffn_worker \<Rightarrow> bool) \<Rightarrow> move list \<Rightarrow> 'r ffn_worker \<Rightarrow> bool" where
  "possible c P [] w \<longleftrightarrow> True"
| "possible c P (m # ms) w \<longleftrightarrow> enabled c m w \<and> P m w \<and> possible c P ms (perform c m w)"

lemma possible_append: "possible c P (xs @ ys) w \<longleftrightarrow> possible c P xs w \<and> possible c P ys (fold (perform c) xs w)"
  by (induction xs arbitrary: w) auto

lemma possible_run: "possible c P ms w \<Longrightarrow> worker_run c w ms (fold (perform c) ms w)"
proof (induction ms rule: rev_induct)
  case (snoc m ms)
  then show ?case by (auto simp: possible_append worker_step_iff intro: worker_run.more)
qed (simp add: worker_run.none)

lemma possible_split:
  assumes "possible c P (xs @ ys) w"
  shows "worker_run c w xs (fold (perform c) xs w)"
    "worker_run c (fold (perform c) xs w) ys (fold (perform c) (xs @ ys) w)"
  using assms possible_run [of c P xs w] possible_run [of c P ys "fold (perform c) xs w"]
  by (simp_all add: possible_append)

section \<open>What holds of every reachable worker\<close>

definition quiet :: "loop_thread \<Rightarrow> bool" where
  "quiet t \<longleftrightarrow> (case lt_phase t of Finished \<Rightarrow> True | Logging _ \<Rightarrow> True | _ \<Rightarrow> False)"

definition event_set :: "nat option \<Rightarrow> bool list \<Rightarrow> bool" where
  "event_set event events = (case event of None \<Rightarrow> True | Some e \<Rightarrow> events ! e)"

definition wf_threads ::
  "loop_thread list \<Rightarrow> nat option \<Rightarrow> nat option \<Rightarrow> bool list \<Rightarrow> error option \<Rightarrow> main_pc \<Rightarrow> bool" where
  "wf_threads ts thread event events error pc \<longleftrightarrow>
     (\<forall>i < length ts. live (ts ! i) \<longrightarrow> thread = Some i \<and> (lt_phase (ts ! i) = Entering \<or> lt_event (ts ! i) = event)) \<and>
     (case thread of None \<Rightarrow> event = None | Some i \<Rightarrow> i < length ts \<and> (\<exists>e < length events. event = Some e)) \<and>
     (error \<noteq> None \<longrightarrow> (\<forall>t \<in> set ts. quiet t)) \<and>
     (pc \<noteq> Idle \<longrightarrow> event_set event events)"

definition wf_worker :: "'r ffn_worker \<Rightarrow> bool" where
  "wf_worker w = wf_threads (fw_threads w) (fw_thread w) (fw_event w) (fw_events w) (fw_error w) (fw_main w)"

lemma wf_new [simp]: "wf_worker (new_worker r)"
  by (simp add: wf_worker_def wf_threads_def new_worker_def)

text \<open>The effect of a loop step: its own thread, the runner, and the error it may record.\<close>

lemma move_thread_effect:
  obtains t' r where
    "move_thread c out i w = w\<lparr>fw_runner := r, fw_threads := (fw_threads w)[i := t'],
       fw_error := (case lt_phase t' of Logging e \<Rightarrow> Some e | _ \<Rightarrow> fw_error w)\<rparr>"
    "lt_phase (fw_threads w ! i) = Entering \<Longrightarrow> r = fw_runner w \<and>
       t' = \<lparr>lt_phase = (if fw_event w = None then Finished else AtTop), lt_event = fw_event w\<rparr>"
    "lt_phase (fw_threads w ! i) \<noteq> Entering \<Longrightarrow> lt_event t' = lt_event (fw_threads w ! i) \<and>
       phase_step c (stopping w (fw_threads w ! i)) out (lt_phase (fw_threads w ! i)) (fw_runner w) = (lt_phase t', r)"
proof -
  let ?t = "fw_threads w ! i"
  obtain ph r where step: "phase_step c (stopping w ?t) out (lt_phase ?t) (fw_runner w) = (ph, r)" by fastforce
  show thesis
  proof (cases "lt_phase ?t = Entering")
    case True
    show thesis
      by (rule that [where r = "fw_runner w" and t' = "\<lparr>lt_phase = (if fw_event w = None then Finished else AtTop), lt_event = fw_event w\<rparr>"])
        (simp_all add: move_thread_def True)
  next
    case False
    have "move_thread c out i w = w\<lparr>fw_runner := r, fw_threads := (fw_threads w)[i := ?t\<lparr>lt_phase := ph\<rparr>],
       fw_error := (case ph of Logging e \<Rightarrow> Some e | _ \<Rightarrow> fw_error w)\<rparr>"
      using False step by (simp add: move_thread_def Let_def)
    then show thesis
      by (intro that [where r = r and t' = "?t\<lparr>lt_phase := ph\<rparr>"]) (simp_all add: False step)
  qed
qed

lemma phase_step_quiet: "phase_step c st out (Logging e) r = (Finished, r)" "phase_step c st out Finished r = (Finished, r)"
  by simp_all

lemma phase_step_not_entering: "phase_step c st out ph r = (ph', r') \<Longrightarrow> ph \<noteq> Entering \<Longrightarrow> ph' \<noteq> Entering"
  by (cases ph)
    (auto simp: size_received_def object_received_def decoded_def split: if_splits option.splits sum.splits prod.splits wire_msg.splits)

lemma wf_threads_update:
  assumes wf: "wf_threads ts thread event events error pc" and i: "i < length ts" "live (ts ! i)"
    and ev: "lt_event t' = event"
    and err: "error' \<noteq> None \<Longrightarrow> quiet t'"
  shows "wf_threads (ts[i := t']) thread event events error' pc"
proof -
  from wf i have cur: "thread = Some i" by (auto simp: wf_threads_def)
  have others: "\<not> live (ts ! j)" if "j < length ts" "j \<noteq> i" for j
    using wf that cur by (auto simp: wf_threads_def)
  have a: "thread = Some j \<and> (lt_phase (ts[i := t'] ! j) = Entering \<or> lt_event (ts[i := t'] ! j) = event)"
    if "j < length ts" "live (ts[i := t'] ! j)" for j
    using that others [of j] cur ev i(1) by (cases "j = i") auto
  have b: "quiet t" if "error' \<noteq> None" "t \<in> set (ts[i := t'])" for t
  proof -
    from that(2) obtain j where j: "j < length ts" "t = ts[i := t'] ! j" by (auto simp: in_set_conv_nth)
    show ?thesis
      using j others [of j] err [OF that(1)] i(1) by (cases "j = i") (auto simp: live_def quiet_def)
  qed
  show ?thesis
    using wf a b unfolding wf_threads_def length_list_update by blast
qed

lemma wf_move:
  assumes wf: "wf_worker w" and i: "i < length (fw_threads w)" "live (fw_threads w ! i)"
  shows "wf_worker (move_thread c out i w)"
proof -
  let ?t = "fw_threads w ! i"
  have cur: "lt_phase ?t = Entering \<or> lt_event ?t = fw_event w"
    using wf i by (auto simp: wf_worker_def wf_threads_def)
  obtain t' r where m: "move_thread c out i w = w\<lparr>fw_runner := r, fw_threads := (fw_threads w)[i := t'],
       fw_error := (case lt_phase t' of Logging e \<Rightarrow> Some e | _ \<Rightarrow> fw_error w)\<rparr>"
    and ent: "lt_phase ?t = Entering \<Longrightarrow> r = fw_runner w \<and>
       t' = \<lparr>lt_phase = (if fw_event w = None then Finished else AtTop), lt_event = fw_event w\<rparr>"
    and oth: "lt_phase ?t \<noteq> Entering \<Longrightarrow> lt_event t' = lt_event ?t \<and>
       phase_step c (stopping w ?t) out (lt_phase ?t) (fw_runner w) = (lt_phase t', r)"
    by (rule move_thread_effect [of c out i w]) blast
  have ev: "lt_event t' = fw_event w" using ent oth cur by (cases "lt_phase ?t = Entering") auto
  have "quiet t'" if err: "(case lt_phase t' of Logging e \<Rightarrow> Some e | _ \<Rightarrow> fw_error w) \<noteq> None"
  proof (cases "fw_error w = None")
    case True
    then show ?thesis using err by (auto simp: quiet_def split: loop_phase.splits)
  next
    case False
    then have "quiet ?t" using wf i by (auto simp: wf_worker_def wf_threads_def)
    with oth i(2) show ?thesis by (cases "lt_phase ?t") (auto simp: quiet_def live_def)
  qed
  then show ?thesis
    using wf_threads_update [OF _ i ev] wf by (simp add: m wf_worker_def)
qed

lemma wf_launch: "wf_worker w \<Longrightarrow> \<not> thread_alive w \<Longrightarrow> fw_main w = Idle \<Longrightarrow> wf_worker (launch w)"
  by (auto simp: wf_worker_def wf_threads_def launch_def nth_append thread_alive_def live_def split: option.splits)

lemma thread_alive_runner [simp]: "thread_alive (w\<lparr>fw_runner := r\<rparr>) = thread_alive w"
  by (simp add: thread_alive_def split: option.split)

lemma wf_start:
  assumes "wf_worker w" "fw_main w = Idle" "start_ffn_server_loop c w = (w', x)"
  shows "wf_worker (finish_call Start x w')"
proof -
  have runner: "wf_worker (w\<lparr>fw_runner := r\<rparr>)" for r using assms(1) by (simp add: wf_worker_def)
  have "wf_worker w' \<and> fw_main w' = Idle"
    using assms(2,3) runner assms(1) wf_launch [OF runner] wf_launch [OF assms(1)]
    by (auto simp: start_ffn_server_loop_def op_bind_def launch_def split: if_splits sum.splits prod.splits)
  then show ?thesis by (auto simp: finish_call_def wf_worker_def)
qed

lemma wf_request:
  assumes "wf_worker w"
  shows "wf_worker (request_stop c sh w)"
proof (cases "fw_event w")
  case None
  then show ?thesis using assms
    by (simp add: request_stop_def set_event_def wf_worker_def wf_threads_def event_set_def split: option.splits)
next
  case (Some e)
  then have "e < length (fw_events w)" using assms by (auto simp: wf_worker_def wf_threads_def split: option.splits)
  with Some show ?thesis using assms
    by (simp add: request_stop_def set_event_def wf_worker_def wf_threads_def event_set_def split: option.splits)
qed

lemma close_step_fields [simp]:
  "fw_threads (close_step c w) = fw_threads w" "fw_thread (close_step c w) = fw_thread w"
  "fw_event (close_step c w) = fw_event w" "fw_events (close_step c w) = fw_events w"
  "fw_error (close_step c w) = fw_error w" "fw_released (close_step c w) = fw_released w"
  "fw_calls (close_step c w) = fw_calls w"
  by (simp_all add: close_step_def Let_def split: main_pc.split option.split)

lemma wf_threads_pc: "wf_threads ts thread event events error pc \<Longrightarrow> pc \<noteq> Idle \<Longrightarrow> wf_threads ts thread event events error pc'"
  by (simp add: wf_threads_def)

lemma wf_close: "wf_worker w \<Longrightarrow> fw_main w \<noteq> Idle \<Longrightarrow> wf_worker (close_step c w)"
  unfolding wf_worker_def close_step_fields by (rule wf_threads_pc)

lemma wf_threads_idle: "wf_threads ts thread event events error pc \<Longrightarrow> wf_threads ts thread event events error Idle"
  by (simp add: wf_threads_def)

lemma no_live_thread:
  assumes "wf_worker w" "\<not> thread_alive w" "t \<in> set (fw_threads w)"
  shows "\<not> live t"
proof
  assume "live t"
  moreover obtain i where "i < length (fw_threads w)" "t = fw_threads w ! i" using assms(3) by (auto simp: in_set_conv_nth)
  ultimately show False using assms(1,2) by (auto simp: wf_worker_def wf_threads_def thread_alive_def)
qed

lemma wf_threads_joined:
  "wf_threads ts thread event events error pc \<Longrightarrow> \<forall>t \<in> set ts. \<not> live t \<Longrightarrow> wf_threads ts None None events error Idle"
  by (simp add: wf_threads_def)

lemma join_loop_fields [simp]:
  "fw_threads (join_loop sh w) = fw_threads w" "fw_events (join_loop sh w) = fw_events w"
  "fw_error (join_loop sh w) = fw_error w" "fw_main (join_loop sh w) = Idle" "fw_runner (join_loop sh w) = fw_runner w"
  "fw_thread (join_loop sh w) = (if thread_alive w then fw_thread w else None)"
  "fw_event (join_loop sh w) = (if thread_alive w then fw_event w else None)"
  "fw_released (join_loop sh w) = (if thread_alive w \<or> \<not> sh then fw_released w else Suc (fw_released w))"
  by (simp_all add: join_loop_def finish_call_def Let_def)

lemma wf_join: "wf_worker w \<Longrightarrow> wf_worker (join_loop sh w)"
  using wf_threads_idle wf_threads_joined no_live_thread [of w]
  unfolding wf_worker_def by (cases "thread_alive w") auto

lemma wf_step: "worker_step c w m w' \<Longrightarrow> wf_worker w \<Longrightarrow> wf_worker w'"
  by (induction rule: worker_step.induct) (auto intro: wf_start wf_request wf_close wf_join wf_move)

lemma wf_run: "worker_run c w ms w' \<Longrightarrow> wf_worker w \<Longrightarrow> wf_worker w'"
  by (induction rule: worker_run.induct) (auto intro: wf_step)

section \<open>At most one loop, and the native release\<close>

lemma live_at_most_one: "wf_worker w \<Longrightarrow> length (filter live (fw_threads w)) \<le> 1"
proof -
  have "length (filter P xs) \<le> 1" if "\<forall>i < length xs. P (xs ! i) \<longrightarrow> i = k" for P k and xs :: "loop_thread list"
  proof -
    have "{i. i < length xs \<and> P (xs ! i)} \<subseteq> {k}" using that by auto
    then have "card {i. i < length xs \<and> P (xs ! i)} \<le> card {k}" by (intro card_mono) auto
    then show ?thesis by (simp add: length_filter_conv_card)
  qed
  note one = this
  assume "wf_worker w"
  then have "\<forall>i < length (fw_threads w). live (fw_threads w ! i) \<longrightarrow> i = the (fw_thread w)"
    by (auto simp: wf_worker_def wf_threads_def)
  then show ?thesis by (rule one)
qed

lemma released_start: "start_ffn_server_loop c w = (w', x) \<Longrightarrow> fw_released w' = fw_released w"
  by (auto simp: start_ffn_server_loop_def op_bind_def launch_def split: if_splits sum.splits prod.splits)

lemma released_move: "fw_released (move_thread c out i w) = fw_released w"
  by (rule move_thread_effect [of c out i w]) simp

lemma request_stop_fields [simp]:
  "fw_threads (request_stop c sh w) = fw_threads w" "fw_thread (request_stop c sh w) = fw_thread w"
  "fw_event (request_stop c sh w) = fw_event w" "fw_error (request_stop c sh w) = fw_error w"
  "fw_released (request_stop c sh w) = fw_released w" "fw_calls (request_stop c sh w) = fw_calls w"
  "fw_runner (request_stop c sh w) = fw_runner w" "length (fw_events (request_stop c sh w)) = length (fw_events w)"
  by (simp_all add: request_stop_def set_event_def split: option.split)

lemma finish_call_fields [simp]:
  "fw_threads (finish_call k x w) = fw_threads w" "fw_thread (finish_call k x w) = fw_thread w"
  "fw_event (finish_call k x w) = fw_event w" "fw_error (finish_call k x w) = fw_error w" "fw_events (finish_call k x w) = fw_events w"
  "fw_released (finish_call k x w) = fw_released w" "fw_calls (finish_call k x w) = fw_calls w @ [(k, x)]"
  "fw_runner (finish_call k x w) = fw_runner w" "fw_main (finish_call k x w) = Idle"
  by (simp_all add: finish_call_def)

lemma released_step:
  assumes "worker_step c w m w'" "wf_worker w" "fw_released w < fw_released w'"
  shows "\<forall>t \<in> set (fw_threads w'). \<not> live t"
  using assms
proof (induction rule: worker_step.induct)
  case (join w sh)
  then show ?case using no_live_thread [of w] by (auto split: if_splits)
qed (auto simp: released_start released_move)

text \<open>C17: in every history of starts, stops and shutdowns interleaved with the loop thread in any way, at most
  one loop thread is ever alive, and the native state is released only when none is.\<close>
theorem native_release_after_loop:
  assumes "worker_run c (new_worker r) ms w" "worker_step c w m w'"
  shows "length (filter live (fw_threads w')) \<le> 1 \<and>
    (fw_released w' = fw_released w \<or> filter live (fw_threads w') = [])"
proof -
  have wf: "wf_worker w" "wf_worker w'" using wf_run [OF assms(1)] wf_step [OF assms(2)] by auto
  have "fw_released w \<le> fw_released w'"
    using assms(2) by (induction rule: worker_step.induct) (auto simp: released_start released_move)
  then show ?thesis
    using released_step [OF assms(2) wf(1)] live_at_most_one [OF wf(2)] by (auto simp: filter_empty_conv)
qed

section \<open>A recorded error stays\<close>

definition failed_call :: "call \<times> unit result \<Rightarrow> bool" where
  "failed_call kx \<longleftrightarrow> snd kx \<in> {Inl (RuntimeError ''AFD FFN worker loop failed''),
     Inl (RuntimeError ''AFD FFN worker loop did not stop before shutdown'')}"

lemma join_loop_calls:
  "fw_calls (join_loop sh w) = fw_calls w @ [(stop_call sh,
     if thread_alive w then Inl (RuntimeError ''AFD FFN worker loop did not stop before shutdown'')
     else raise_ffn_loop_error_if_any w)]"
  by (simp add: join_loop_def Let_def raise_ffn_loop_error_if_any_def)

lemma error_start: "fw_error w = Some e \<Longrightarrow> start_ffn_server_loop c w = (w, raise_ffn_loop_error_if_any w)"
  by (simp add: start_ffn_server_loop_def op_bind_def raise_ffn_loop_error_if_any_def guard_def)

lemma error_move:
  assumes "wf_worker w" "fw_error w = Some e" "i < length (fw_threads w)" "live (fw_threads w ! i)"
  shows "fw_error (move_thread c out i w) = Some e" "fw_calls (move_thread c out i w) = fw_calls w"
proof -
  have "quiet (fw_threads w ! i)" using assms by (auto simp: wf_worker_def wf_threads_def)
  then obtain e' where ph: "lt_phase (fw_threads w ! i) = Logging e'"
    using assms(4) by (auto simp: quiet_def live_def split: loop_phase.splits)
  show "fw_error (move_thread c out i w) = Some e" "fw_calls (move_thread c out i w) = fw_calls w"
    by (simp_all add: move_thread_def Let_def ph assms(2))
qed

lemma error_step:
  assumes "worker_step c w m w'" "wf_worker w" "fw_error w = Some e"
  shows "fw_error w' = Some e \<and> (\<exists>new. fw_calls w' = fw_calls w @ new \<and> list_all failed_call new)"
  using assms
proof (induction rule: worker_step.induct)
  case (start w w' x)
  then show ?case by (auto simp: error_start raise_ffn_loop_error_if_any_def failed_call_def guard_def)
next
  case (join w sh)
  then show ?case by (auto simp: join_loop_calls raise_ffn_loop_error_if_any_def failed_call_def guard_def)
next
  case (loop i w out)
  from error_move [OF loop.prems loop.hyps(1,2), of c out] show ?case by simp
qed simp_all

text \<open>C18: once the loop has recorded an error it is never lost or replaced, and every start, stop or shutdown
  that completes afterwards raises.\<close>
theorem loop_error_is_retained:
  assumes "worker_run c (new_worker r) ms w" "fw_error w = Some e" "worker_run c w ms' w'"
  shows "fw_error w' = Some e \<and> (\<exists>new. fw_calls w' = fw_calls w @ new \<and> list_all failed_call new)"
proof -
  have "wf_worker w" using wf_run [OF assms(1)] by simp
  with assms(3,2) show ?thesis
  proof (induction rule: worker_run.induct)
    case (more w ms w' m w'')
    then have "fw_error w' = Some e" "wf_worker w'" using wf_run by blast+
    from error_step [OF more.hyps(2) this(2,1)] more.IH [OF more.prems] show ?case
      by (metis append_assoc list_all_append)
  qed simp
qed

section \<open>A stopped loop ends\<close>

text \<open>How many of its own steps the loop makes at most once its event is set.\<close>

fun steps_left :: "loop_phase \<Rightarrow> nat" where
  "steps_left Finished = 0"
| "steps_left (Logging e) = 1"
| "steps_left AtTop = 1"
| "steps_left (Raised e) = 2"
| "steps_left (Serving p) = 2"
| "steps_left Entering = 2"
| "steps_left (Failing e) = 3"
| "steps_left (CheckObject m) = 4"
| "steps_left (RecvObject g rank) = 5"
| "steps_left (CheckSize g rank) = 6"
| "steps_left (RecvSize g) = 7"
| "steps_left (CheckPlane g) = 8"
| "steps_left ReadGroup = 9"

lemma steps_left_bound: "steps_left ph \<le> 9"
  by (cases ph) simp_all

lemma phase_step_decreases:
  "phase_step c True out ph r = (ph', r') \<Longrightarrow> ph \<noteq> Finished \<Longrightarrow> ph \<noteq> Entering \<Longrightarrow> steps_left ph' < steps_left ph"
  by (cases ph)
    (auto simp: size_received_def object_received_def decoded_def split: if_splits option.splits sum.splits prod.splits wire_msg.splits)

fun moves_loop :: "nat \<Rightarrow> move \<Rightarrow> bool" where
  "moves_loop i (Loop j out) = (j = i)"
| "moves_loop i m = False"

definition doomed :: "nat \<Rightarrow> nat \<Rightarrow> 'r ffn_worker \<Rightarrow> bool" where
  "doomed i e w \<longleftrightarrow> wf_worker w \<and> i < length (fw_threads w) \<and> e < length (fw_events w) \<and> fw_events w ! e \<and>
     (live (fw_threads w ! i) \<longrightarrow> fw_event w = Some e)"


lemma start_alive: "thread_alive w \<Longrightarrow> start_ffn_server_loop c w = (w, raise_ffn_loop_error_if_any w)"
  by (simp add: start_ffn_server_loop_def)

lemma start_extends:
  assumes "start_ffn_server_loop c w = (w', x)" "i < length (fw_threads w)" "e < length (fw_events w)"
  shows "i < length (fw_threads w')" "e < length (fw_events w')" "fw_threads w' ! i = fw_threads w ! i"
    "fw_events w' ! e = fw_events w ! e"
  using assms
  by (auto simp: start_ffn_server_loop_def op_bind_def launch_def nth_append split: if_splits sum.splits prod.splits)

lemma request_stop_events: "e < length (fw_events w) \<Longrightarrow> fw_events w ! e \<Longrightarrow> fw_events (request_stop c sh w) ! e"
  by (auto simp: request_stop_def set_event_def split: option.split)
    (metis nth_list_update_eq nth_list_update_neq)

lemma alive_of_live: "wf_worker w \<Longrightarrow> i < length (fw_threads w) \<Longrightarrow> live (fw_threads w ! i) \<Longrightarrow> fw_thread w = Some i \<and> thread_alive w"
  by (auto simp: wf_worker_def wf_threads_def thread_alive_def)

lemma doomed_move:
  assumes "doomed i e w" "j < length (fw_threads w)" "live (fw_threads w ! j)"
  shows "doomed i e (move_thread c out j w)"
    "j = i \<Longrightarrow> steps_left (lt_phase (fw_threads (move_thread c out j w) ! i)) < steps_left (lt_phase (fw_threads w ! i))"
    "j \<noteq> i \<Longrightarrow> fw_threads (move_thread c out j w) ! i = fw_threads w ! i"
proof -
  let ?t = "fw_threads w ! j"
  have d: "wf_worker w" "i < length (fw_threads w)" "e < length (fw_events w)" "fw_events w ! e"
    "live (fw_threads w ! i) \<Longrightarrow> fw_event w = Some e" using assms(1) by (auto simp: doomed_def)
  obtain t' r where m: "move_thread c out j w = w\<lparr>fw_runner := r, fw_threads := (fw_threads w)[j := t'],
       fw_error := (case lt_phase t' of Logging e \<Rightarrow> Some e | _ \<Rightarrow> fw_error w)\<rparr>"
    and ent: "lt_phase ?t = Entering \<Longrightarrow> r = fw_runner w \<and>
       t' = \<lparr>lt_phase = (if fw_event w = None then Finished else AtTop), lt_event = fw_event w\<rparr>"
    and oth: "lt_phase ?t \<noteq> Entering \<Longrightarrow> lt_event t' = lt_event ?t \<and>
       phase_step c (stopping w ?t) out (lt_phase ?t) (fw_runner w) = (lt_phase t', r)"
    by (rule move_thread_effect [of c out j w]) blast
  show "j \<noteq> i \<Longrightarrow> fw_threads (move_thread c out j w) ! i = fw_threads w ! i" by (simp add: m)
  have ev: "fw_event w = Some e" if "j = i" using d(5) assms(3) that by simp
  have "live (fw_threads w ! i)" if "live ((fw_threads w)[j := t'] ! i)"
    using that assms(3) by (cases "j = i") auto
  then show "doomed i e (move_thread c out j w)"
    using wf_move [OF d(1) assms(2,3), of c out] d by (simp add: doomed_def m)
  show "steps_left (lt_phase (fw_threads (move_thread c out j w) ! i)) < steps_left (lt_phase (fw_threads w ! i))" if "j = i"
  proof (cases "lt_phase ?t = Entering")
    case True
    then show ?thesis unfolding m using ent d(2) that by (cases "fw_event w = None") simp_all
  next
    case False
    then have "lt_event ?t = Some e" using ev [OF that] d(1) assms(2,3) by (auto simp: wf_worker_def wf_threads_def)
    then have "stopping w ?t" using d(4) by (simp add: stopping_def)
    with False oth phase_step_decreases [of c out "lt_phase ?t" "fw_runner w"] assms(3) d(2) that
    show ?thesis unfolding m by (auto simp: live_def)
  qed
qed

lemma doomed_step:
  assumes "worker_step c w m w'" "doomed i e w"
  shows "doomed i e w' \<and> steps_left (lt_phase (fw_threads w' ! i)) + (if moves_loop i m then 1 else 0)
    \<le> steps_left (lt_phase (fw_threads w ! i))"
proof -
  have d: "wf_worker w" "i < length (fw_threads w)" "e < length (fw_events w)" "fw_events w ! e"
    "live (fw_threads w ! i) \<Longrightarrow> fw_event w = Some e" using assms(2) by (auto simp: doomed_def)
  have wf': "wf_worker w'" using wf_step [OF assms(1) d(1)] .
  show ?thesis
    using assms(1)
  proof cases
    case (start v x)
    note ext = start_extends [OF start(4) d(2,3)]
    have "fw_event v = Some e" if "live (fw_threads w ! i)"
      using start(4) start_alive [of w c] alive_of_live [OF d(1,2) that] d(5) [OF that] by simp
    then show ?thesis using start ext d wf' by (simp add: doomed_def)
  next
    case stop
    then show ?thesis using d wf' by (simp add: doomed_def request_stop_events)
  next
    case shutdown
    then show ?thesis using d wf' by (simp add: doomed_def request_stop_events)
  next
    case (close sh g)
    then show ?thesis using d wf' by (simp add: doomed_def)
  next
    case (join sh)
    have "thread_alive w" if "live (fw_threads w ! i)" using alive_of_live [OF d(1,2) that] by simp
    then show ?thesis using join d wf' by (simp add: doomed_def)
  next
    case (loop j out)
    note mv = doomed_move [OF assms(2) loop(3,4), of c out]
    show ?thesis using loop mv by (cases "j = i") (auto simp: Suc_le_eq)
  qed
qed

lemma doomed_run:
  assumes "worker_run c w ms w'" "doomed i e w"
  shows "doomed i e w' \<and> steps_left (lt_phase (fw_threads w' ! i)) + length (filter (moves_loop i) ms)
    \<le> steps_left (lt_phase (fw_threads w ! i))"
  using assms
proof (induction rule: worker_run.induct)
  case (more w ms w' m w'')
  then have a: "doomed i e w'" "steps_left (lt_phase (fw_threads w' ! i)) + length (filter (moves_loop i) ms)
      \<le> steps_left (lt_phase (fw_threads w ! i))" by auto
  from doomed_step [OF more.hyps(2) a(1)] a(2) show ?case by (cases "moves_loop i m") auto
qed simp



section \<open>A healthy loop stops cleanly\<close>

text \<open>
  A loop step goes wrong on its own account: on a group that was not aborted a receive ends in
  something else than a well-formed fragment from \<open>src\<close>, or serving a payload raises.
\<close>

fun faulty :: "('r, 'z) loop_ops_scheme \<Rightarrow> int \<Rightarrow> recv_outcome \<Rightarrow> loop_phase \<Rightarrow> 'r \<Rightarrow> bool" where
  "faulty c src out (RecvSize g) r \<longleftrightarrow> g \<notin> set (pl_aborted c r) \<and>
     (case out of Received rank (SizeMsg n) \<Rightarrow> rank \<noteq> src | _ \<Rightarrow> True)"
| "faulty c src out (RecvObject g rank) r \<longleftrightarrow> g \<notin> set (pl_aborted c r) \<and>
     (case out of Received rank (BytesMsg bs) \<Rightarrow> rank \<noteq> src \<or> \<not> is_ok (decode_control_payload bs) | _ \<Rightarrow> True)"
| "faulty c src out (Serving p) r \<longleftrightarrow> \<not> is_ok (snd (serve_payload c p r))"
| "faulty c src out ph r \<longleftrightarrow> False"

fun faulty_move :: "('r, 'z) loop_ops_scheme \<Rightarrow> int \<Rightarrow> move \<Rightarrow> 'r ffn_worker \<Rightarrow> bool" where
  "faulty_move c src (Loop i out) w = faulty c src out (lt_phase (fw_threads w ! i)) (fw_runner w)"
| "faulty_move c src m w = False"

inductive sound_run :: "('r, 'z) loop_ops_scheme \<Rightarrow> int \<Rightarrow> 'r ffn_worker \<Rightarrow> move list \<Rightarrow> 'r ffn_worker \<Rightarrow> bool" for c src where
  none: "sound_run c src w [] w"
| more: "sound_run c src w ms w' \<Longrightarrow> worker_step c w' m w'' \<Longrightarrow> \<not> faulty_move c src m w' \<Longrightarrow> sound_run c src w (ms @ [m]) w''"

lemma possible_sound: "possible c (\<lambda>m w. \<not> faulty_move c src m w) ms w \<Longrightarrow> sound_run c src w ms (fold (perform c) ms w)"
proof (induction ms rule: rev_induct)
  case (snoc m ms)
  then show ?case by (auto simp: possible_append worker_step_iff intro: sound_run.more)
qed (simp add: sound_run.none)

text \<open>The phases of a loop that has met nothing but, possibly, the closing of its control plane.\<close>

definition phase_ok :: "('r, 'z) loop_ops_scheme \<Rightarrow> int \<Rightarrow> bool \<Rightarrow> loop_phase \<Rightarrow> bool" where
  "phase_ok c src closed ph =
     (case ph of
        CheckPlane None \<Rightarrow> closed
      | CheckSize g rank \<Rightarrow> closed \<or> rank = src
      | RecvObject g rank \<Rightarrow> rank = src
      | CheckObject m \<Rightarrow> closed \<or> (\<exists>p. decoded m = Serving p)
      | Failing e \<Rightarrow> closed \<and> pl_wrap c True e = ControlPlaneClosed
      | Raised e \<Rightarrow> closed \<and> e = ControlPlaneClosed
      | Logging e \<Rightarrow> False
      | _ \<Rightarrow> True)"

lemma phase_ok_closed: "phase_ok c src closed ph \<Longrightarrow> phase_ok c src True ph"
  by (auto simp: phase_ok_def split: loop_phase.splits option.splits)

definition clean_call :: "call \<times> unit result \<Rightarrow> bool" where
  "clean_call kx \<longleftrightarrow> snd kx = Inr () \<or> snd kx = Inl (RuntimeError ''AFD FFN worker loop did not stop before shutdown'')"

definition plane_ok :: "('r, 'z) loop_ops_scheme \<Rightarrow> 'r \<Rightarrow> bool" where
  "plane_ok c r \<longleftrightarrow> (pl_closed c r \<or> pl_group c r \<noteq> None \<and> pl_aborted c r = [])"

definition clean :: "('r, 'z) loop_ops_scheme \<Rightarrow> int \<Rightarrow> 'r ffn_worker \<Rightarrow> bool" where
  "clean c src w \<longleftrightarrow> wf_worker w \<and> fw_error w = None \<and> plane_ok c (fw_runner w) \<and>
     (pl_closed c (fw_runner w) \<longrightarrow> event_set (fw_event w) (fw_events w)) \<and>
     (case fw_main w of Aborting sh g \<Rightarrow> pl_closed c (fw_runner w) | Clearing sh \<Rightarrow> pl_closed c (fw_runner w) | _ \<Rightarrow> True) \<and>
     (\<forall>t \<in> set (fw_threads w). phase_ok c src (pl_closed c (fw_runner w)) (lt_phase t)) \<and>
     list_all clean_call (fw_calls w)"

text \<open>
  The contract of a control plane whose closing its own receives can tell from a fault: the laws of
  the three writes of \<open>close\<close>, what a receive on an aborted group comes to, and that a served step
  leaves the plane alone.
\<close>

locale closing_plane =
  fixes c :: "('r, 'z) loop_ops_scheme" and src :: int
  assumes has_plane: "rn_has_plane c"
    and set_closed: "pl_closed c (pl_set_closed c r)" "pl_group c (pl_set_closed c r) = pl_group c r"
    and abort: "pl_closed c (pl_abort c g r) = pl_closed c r" "pl_group c (pl_abort c g r) = pl_group c r"
    and clear: "pl_closed c (pl_clear c r) = pl_closed c r"
    and close_split: "pl_close c r = (let r = pl_set_closed c r in
        case pl_group c r of None \<Rightarrow> r | Some g \<Rightarrow> pl_clear c (pl_abort c g r))"
    and aborted_size: "pl_net c True True out \<Longrightarrow> size_received g (recv_tensor (Some True) out) = Failing e \<Longrightarrow>
        pl_wrap c True e = ControlPlaneClosed"
    and aborted_object: "pl_net c True False out \<Longrightarrow> object_received src (recv_tensor (Some True) out) = Failing e \<Longrightarrow>
        pl_wrap c True e = ControlPlaneClosed"
    and wrap_closed: "pl_wrap c True ControlPlaneClosed = ControlPlaneClosed"
    and serve_keeps: "pl_closed c (fst (serve_payload c p r)) = pl_closed c r"
        "pl_group c (fst (serve_payload c p r)) = pl_group c r" "pl_aborted c (fst (serve_payload c p r)) = pl_aborted c r"
begin

text \<open>One step of the loop: only \<open>Serving\<close> touches the runner.\<close>

lemma phase_step_runner:
  assumes "phase_step c st out ph r = (ph', r')"
  shows "pl_closed c r' = pl_closed c r" "pl_group c r' = pl_group c r" "pl_aborted c r' = pl_aborted c r"
  using assms serve_keeps by (cases ph; auto split: prod.splits sum.splits; metis fst_conv)+

lemma size_phase:
  assumes "may_receive c out (RecvSize g) r" "\<not> faulty c src out (RecvSize g) r" "plane_ok c r"
  shows "phase_ok c src (pl_closed c r) (size_received g (recv_tensor (Some (pl_closed c r)) out))"
proof (cases "g \<in> set (pl_aborted c r)")
  case True
  then have cl: "pl_closed c r" using assms(3) by (auto simp: plane_ok_def)
  show ?thesis
  proof (cases "size_received g (recv_tensor (Some True) out)")
    case (Failing e)
    then show ?thesis using aborted_size [of out g e] assms(1) True cl by (simp add: phase_ok_def)
  qed (use cl in \<open>auto simp: phase_ok_def size_received_def split: sum.splits prod.splits wire_msg.splits\<close>)
next
  case False
  then show ?thesis
    using assms(2) by (auto simp: phase_ok_def size_received_def recv_tensor_def split: recv_outcome.splits wire_msg.splits)
qed

lemma object_phase:
  assumes "may_receive c out (RecvObject g src) r" "\<not> faulty c src out (RecvObject g src) r" "plane_ok c r"
  shows "phase_ok c src (pl_closed c r) (object_received src (recv_tensor (Some (pl_closed c r)) out))"
proof (cases "g \<in> set (pl_aborted c r)")
  case True
  then have cl: "pl_closed c r" using assms(3) by (auto simp: plane_ok_def)
  show ?thesis
  proof (cases "object_received src (recv_tensor (Some True) out)")
    case (Failing e)
    then show ?thesis using aborted_object [of out e] assms(1) True cl by (simp add: phase_ok_def)
  qed (use cl in \<open>auto simp: phase_ok_def object_received_def split: sum.splits prod.splits if_splits\<close>)
next
  case False
  then show ?thesis
    using assms(2)
    by (auto simp: phase_ok_def object_received_def recv_tensor_def decoded_def is_ok_def
        split: recv_outcome.splits wire_msg.splits sum.splits)
qed

lemma phase_step_ok:
  assumes "phase_step c st out ph r = (ph', r')" "phase_ok c src (pl_closed c r) ph" "plane_ok c r"
    and "may_receive c out ph r" "\<not> faulty c src out ph r" "pl_closed c r \<longrightarrow> st" "ph \<noteq> Entering"
  shows "phase_ok c src (pl_closed c r) ph'"
proof (cases ph)
  case (RecvSize g)
  then show ?thesis using assms size_phase by auto
next
  case (RecvObject g rank)
  then show ?thesis using assms object_phase by (auto simp: phase_ok_def [of _ _ _ "RecvObject g rank"])
next
  case (Serving p)
  then show ?thesis using assms by (auto simp: phase_ok_def is_ok_def split: prod.splits sum.splits)
qed (use assms has_plane wrap_closed in \<open>auto simp: phase_ok_def plane_ok_def split: option.splits\<close>)

lemma clean_move:
  assumes cl: "clean c src w" and i: "i < length (fw_threads w)" "live (fw_threads w ! i)"
    and m: "may_receive c out (lt_phase (fw_threads w ! i)) (fw_runner w)"
    and f: "\<not> faulty c src out (lt_phase (fw_threads w ! i)) (fw_runner w)"
  shows "clean c src (move_thread c out i w)"
proof -
  let ?t = "fw_threads w ! i"
  have wf: "wf_worker w" "plane_ok c (fw_runner w)" "fw_error w = None"
    and ph: "phase_ok c src (pl_closed c (fw_runner w)) (lt_phase ?t)"
    and ev: "pl_closed c (fw_runner w) \<longrightarrow> event_set (fw_event w) (fw_events w)"
    using cl i(1) by (auto simp: clean_def)
  from wf(1) i have cur: "lt_phase ?t = Entering \<or> lt_event ?t = fw_event w" and none: "fw_event w \<noteq> None"
    by (auto simp: wf_worker_def wf_threads_def)
  obtain t' r where mv: "move_thread c out i w = w\<lparr>fw_runner := r, fw_threads := (fw_threads w)[i := t'],
       fw_error := (case lt_phase t' of Logging e \<Rightarrow> Some e | _ \<Rightarrow> fw_error w)\<rparr>"
    and ent: "lt_phase ?t = Entering \<Longrightarrow> r = fw_runner w \<and>
       t' = \<lparr>lt_phase = (if fw_event w = None then Finished else AtTop), lt_event = fw_event w\<rparr>"
    and oth: "lt_phase ?t \<noteq> Entering \<Longrightarrow> lt_event t' = lt_event ?t \<and>
       phase_step c (stopping w ?t) out (lt_phase ?t) (fw_runner w) = (lt_phase t', r)"
    by (rule move_thread_effect [of c out i w]) blast
  have step: "phase_ok c src (pl_closed c (fw_runner w)) (lt_phase t') \<and> pl_closed c r = pl_closed c (fw_runner w) \<and>
      pl_group c r = pl_group c (fw_runner w) \<and> pl_aborted c r = pl_aborted c (fw_runner w)"
  proof (cases "lt_phase ?t = Entering")
    case True
    then show ?thesis using ent by (simp add: phase_ok_def)
  next
    case False
    then have "pl_closed c (fw_runner w) \<longrightarrow> stopping w ?t"
      using ev cur none by (auto simp: stopping_def event_set_def)
    with phase_step_ok [OF _ ph wf(2) m f _ False] phase_step_runner oth [OF False] show ?thesis by metis
  qed
  then have "fw_error (move_thread c out i w) = None"
    using wf(3) by (auto simp: mv phase_ok_def split: loop_phase.splits)
  moreover have "phase_ok c src (pl_closed c r) (lt_phase t)" if "t \<in> set ((fw_threads w)[i := t'])" for t
    using that step cl set_update_subset_insert [of "fw_threads w" i t'] by (auto simp: clean_def)
  moreover have "fw_runner (move_thread c out i w) = r" "fw_threads (move_thread c out i w) = (fw_threads w)[i := t']"
      "fw_event (move_thread c out i w) = fw_event w" "fw_events (move_thread c out i w) = fw_events w"
      "fw_main (move_thread c out i w) = fw_main w" "fw_calls (move_thread c out i w) = fw_calls w"
    by (simp_all add: mv)
  ultimately show ?thesis
    using cl step wf_move [OF wf(1) i, of c out] by (auto simp: clean_def plane_ok_def split: main_pc.splits)
qed

lemma clean_request:
  assumes "clean c src w"
  shows "clean c src (request_stop c sh w)"
proof -
  have wf: "wf_worker w" using assms by (simp add: clean_def)
  have "fw_main (request_stop c sh w) = Closing sh" by (simp add: request_stop_def has_plane)
  moreover have "event_set (fw_event w) (fw_events (request_stop c sh w))"
    using wf_request [OF wf, of c sh] calculation by (simp add: wf_worker_def wf_threads_def)
  ultimately show ?thesis using assms wf_request [OF wf, of c sh] by (simp add: clean_def)
qed

lemma clean_close:
  assumes "clean c src w" "fw_main w \<in> {Closing sh, Aborting sh g, Clearing sh}"
  shows "clean c src (close_step c w)"
proof -
  have wf: "wf_worker w" "fw_main w \<noteq> Idle" using assms by (auto simp: clean_def)
  then have ev: "event_set (fw_event w) (fw_events w)" by (simp add: wf_worker_def wf_threads_def)
  have ph: "\<forall>t \<in> set (fw_threads w). phase_ok c src True (lt_phase t)"
    using assms(1) by (auto simp: clean_def intro: phase_ok_closed)
  have "pl_closed c (fw_runner (close_step c w))"
    using assms by (auto simp: close_step_def Let_def clean_def set_closed abort clear split: option.split)
  then show ?thesis
    using assms(1) wf_close [OF wf, of c] ev ph by (simp add: clean_def plane_ok_def split: main_pc.split)
qed

lemma clean_join: "clean c src w \<Longrightarrow> clean c src (join_loop sh w)"
  using wf_join [of w sh]
  by (auto simp: clean_def join_loop_calls clean_call_def raise_ffn_loop_error_if_any_def guard_def event_set_def)

lemma clean_step:
  assumes "worker_step c w m w'" "clean c src w" "\<not> faulty_move c src m w" "m \<noteq> Call Start"
  shows "clean c src w'"
  using assms
  by (induction rule: worker_step.induct) (auto intro: clean_request clean_join clean_move clean_close)

text \<open>From a started healthy loop, whatever the other thread does, nothing is ever recorded.\<close>

lemma clean_run:
  "sound_run c src w ms w' \<Longrightarrow> clean c src w \<Longrightarrow> Call Start \<notin> set ms \<Longrightarrow> clean c src w'"
proof (induction rule: sound_run.induct)
  case (more w ms w' m w'')
  then have "clean c src w'" by auto
  with clean_step [OF more.hyps(2) this more.hyps(3)] more.prems(2) show ?case by auto
qed

lemma stop_is_clean:
  assumes "rn_initialized c r" "\<not> pl_closed c r" "pl_group c r \<noteq> None" "pl_aborted c r = []"
    and "worker_step c (new_worker r) (Call Start) w" "sound_run c src w ms w'" "Call Start \<notin> set ms"
  shows "fw_error w' = None \<and> list_all clean_call (fw_calls w')"
proof -
  have w: "w = finish_call Start (Inr ()) (launch (new_worker r))"
    using assms(1,5)
    by (elim worker_stepE)
      (auto simp: start_ffn_server_loop_def thread_alive_def new_worker_def raise_ffn_loop_error_if_any_def guard_def op_bind_def)
  have "wf_worker w" using wf_step [OF assms(5)] by simp
  then have "clean c src w"
    using assms(2-4)
    by (simp add: w clean_def plane_ok_def launch_def new_worker_def finish_call_def phase_ok_def clean_call_def)
  from clean_run [OF assms(6) this assms(7)] show ?thesis by (simp add: clean_def)
qed

end

end
