(* ===== verification/Ffn_Tokens.thy ===== *)
theory Ffn_Tokens
  imports Topology Metadata
begin

text \<open>
  Token counts as both sides derive them from the DP metadata:
  \<open>afd_plugin/v1/worker/ffn_metadata.py\<close> (the counts an FFN rank runs with) and
  \<open>_num_tokens_for_attention_rank\<close> of \<open>connectors/gpu/p2p.py\<close> (the rows one Attention rank
  sends).  The two must agree, or a receive is posted with the wrong shape.
\<close>

text \<open>DP counts replicated over the TP peers of each DP rank, when they divide evenly.\<close>

definition expand_counts :: "int list \<Rightarrow> int \<Rightarrow> int list" where
  "expand_counts counts A =
     (if counts \<noteq> [] \<and> int (length counts) < A \<and> A mod int (length counts) = 0
      then (let per = A div int (length counts)
            in map (\<lambda>r. counts ! nat (r div per)) (py_range 0 A))
      else counts)"

definition aggregate_ffn_token_counts :: "int list \<Rightarrow> int \<Rightarrow> int \<Rightarrow> int \<Rightarrow> int list" where
  "aggregate_ffn_token_counts counts A F fallback =
     (let fallback_count = max 1 fallback in
      if F \<le> 0 \<or> A < F then map (\<lambda>_. fallback_count) (py_range 0 (max 0 F))
      else
        (let expanded = expand_counts counts A
         in map (\<lambda>f. sum_list (map (\<lambda>a.
                if a < int (length expanded) then max 1 (expanded ! nat a) else fallback_count)
              (subgroup_attention_block f A F))) (py_range 0 F)))"

definition project_ffn_token_counts_to_dp :: "int list \<Rightarrow> int \<Rightarrow> int list" where
  "project_ffn_token_counts_to_dp counts dp =
     (let n = int (length counts) in
      if n = dp \<or> dp \<le> 0 \<or> n mod dp \<noteq> 0 then counts
      else map (\<lambda>r. counts ! nat (r * (n div dp))) (py_range 0 dp))"

text \<open>\<open>_num_tokens_for_attention_rank\<close>; \<open>fallback\<close> is 1 at every call.\<close>

definition num_tokens_for_attention_rank :: "dp_metadata \<Rightarrow> int \<Rightarrow> int \<Rightarrow> int \<Rightarrow> int" where
  "num_tokens_for_attention_rank d a A fallback =
     (let counts = num_tokens_across_dp_cpu d in
      if counts = [] then max 1 fallback
      else (let counts = expand_counts counts A in
            if 0 \<le> a \<and> a < int (length counts) then max 1 (counts ! nat a) else max 1 fallback))"

text \<open>\<open>_set_moe_layer_index\<close>: the first MoE layer whose dotted name has the layer number as a part.\<close>

definition contains :: "string \<Rightarrow> string \<Rightarrow> bool" where
  "contains t s = list_ex (\<lambda>i. take (length t) (drop i s) = t) [0..<Suc (length s)]"

fun first_moe_layer :: "string \<Rightarrow> string list \<Rightarrow> int \<Rightarrow> int option" where
  "first_moe_layer target [] i = None"
| "first_moe_layer target (n # ns) i =
     (if contains target (''.'' @ n @ ''.'') then Some i else first_moe_layer target ns (i + 1))"

definition set_moe_layer_index :: "string list \<Rightarrow> int \<Rightarrow> int option \<Rightarrow> int option" where
  "set_moe_layer_index all_moe_layers layer current =
     (case first_moe_layer (''.layers.'' @ py_str_int layer @ ''.'') all_moe_layers 0 of
        None \<Rightarrow> current | Some i \<Rightarrow> Some i)"

section \<open>Agreement and bounds\<close>

lemma num_tokens_pos: "1 \<le> num_tokens_for_attention_rank d a A fb"
  by (simp add: num_tokens_for_attention_rank_def Let_def)

lemma length_expand_counts:
  "length (expand_counts counts A) =
     (if counts \<noteq> [] \<and> int (length counts) < A \<and> A mod int (length counts) = 0 then nat A else length counts)"
  by (simp add: expand_counts_def Let_def)

text \<open>Expansion reads in range: every TP peer of DP rank \<open>k\<close> has DP rank \<open>k\<close>'s count.\<close>

lemma nth_expand_counts:
  assumes counts: "counts \<noteq> []" "A = tp * int (length counts)" "0 < tp" and r: "0 \<le> r" "r < A"
  shows "expand_counts counts A ! nat r = counts ! nat (r div tp) \<and> nat (r div tp) < length counts"
proof -
  have per: "A div int (length counts) = tp" using counts by simp
  have "0 \<le> r div tp" using r counts by (simp add: pos_imp_zdiv_nonneg_iff)
  moreover have "r < int (length counts) * tp" using counts(2) r by (simp add: mult.commute)
  then have "\<not> int (length counts) \<le> r div tp" using le_div_iff [OF counts(3), of "int (length counts)" r] by simp
  ultimately have in_range: "nat (r div tp) < length counts" by linarith
  show ?thesis
  proof (cases "int (length counts) < A")
    case True
    then show ?thesis
      using counts r per in_range by (simp add: expand_counts_def Let_def)
  next
    case False
    have "1 * int (length counts) \<le> tp * int (length counts)" using counts(3) by (intro mult_right_mono) auto
    with False counts(2) have "int (length counts) * 1 = int (length counts) * tp" by (simp add: mult.commute)
    then have "tp = 1" using counts(1) by simp
    then show ?thesis using in_range False by (simp add: expand_counts_def)
  qed
qed

text \<open>The count an FFN rank runs with is the number of rows its Attention peers send.\<close>

lemma aggregate_agrees:
  assumes "0 < F" "F \<le> A" "0 \<le> f" "f < F"
  shows "aggregate_ffn_token_counts (num_tokens_across_dp_cpu d) A F fb ! nat f =
     (\<Sum>a \<leftarrow> subgroup_attention_block f A F. num_tokens_for_attention_rank d a A fb)"
proof -
  let ?c = "num_tokens_across_dp_cpu d"
  have nonneg: "0 \<le> a" if "a \<in> set (subgroup_attention_block f A F)" for a
    using balanced.block_members [of A f F a] that assms by simp
  have "(if a < int (length (expand_counts ?c A)) then max 1 (expand_counts ?c A ! nat a) else max 1 fb)
      = num_tokens_for_attention_rank d a A fb" if "a \<in> set (subgroup_attention_block f A F)" for a
    using nonneg [OF that] by (auto simp: num_tokens_for_attention_rank_def Let_def expand_counts_def)
  then show ?thesis
    using assms by (auto simp: aggregate_ffn_token_counts_def Let_def intro!: arg_cong [where f = sum_list] map_cong)
qed

lemma length_aggregate: "length (aggregate_ffn_token_counts c A F fb) = nat F"
  by (auto simp: aggregate_ffn_token_counts_def Let_def)

text \<open>No rank is lost: over all FFN ranks the counts add up to what all Attention ranks send.\<close>

lemma aggregate_total:
  assumes F: "0 < F" "F \<le> A"
  shows "sum_list (aggregate_ffn_token_counts (num_tokens_across_dp_cpu d) A F fb) =
     (\<Sum>a = 0..<A. num_tokens_for_attention_rank d a A fb)"
proof -
  let ?agg = "aggregate_ffn_token_counts (num_tokens_across_dp_cpu d) A F fb"
  let ?g = "\<lambda>f. \<Sum>a \<leftarrow> subgroup_attention_block f A F. num_tokens_for_attention_rank d a A fb"
  have "?agg = map ?g (py_range 0 F)"
  proof (rule nth_equalityI)
    fix i assume "i < length ?agg"
    then show "?agg ! i = map ?g (py_range 0 F) ! i"
      using aggregate_agrees [OF F, of "int i" d fb] by (simp add: length_aggregate)
  qed (simp add: length_aggregate)
  then have "sum_list ?agg = (\<Sum>f \<leftarrow> py_range 0 F. ?g f)" by simp
  also have "\<dots> = (\<Sum>f = 0..<F. ?g f)"
    by (simp add: sum_list_distinct_conv_sum_set)
  also have "\<dots> = (\<Sum>a = 0..<A. num_tokens_for_attention_rank d a A fb)"
    by (rule balanced.sum_blocks) (use F in auto)
  finally show ?thesis .
qed

lemma aggregate_ge_block:
  fixes d :: dp_metadata
  assumes "0 < F" "F \<le> A" "0 \<le> f" "f < F"
  shows "int (length (subgroup_attention_block f A F)) \<le>
    aggregate_ffn_token_counts (num_tokens_across_dp_cpu d) A F fb ! nat f"
proof -
  have "int (length xs) \<le> (\<Sum>a \<leftarrow> xs. num_tokens_for_attention_rank d a A fb)" for xs
    using num_tokens_pos by (induction xs) (auto intro: add_mono order_trans)
  then show ?thesis by (simp add: aggregate_agrees assms)
qed

lemma project_length:
  "0 < dp \<Longrightarrow> int (length c) mod dp = 0 \<Longrightarrow> length (project_ffn_token_counts_to_dp c dp) = nat dp"
  by (auto simp: project_ffn_token_counts_to_dp_def Let_def)

text \<open>Projecting counts that repeat every DP count over its TP peers gives the DP counts back.\<close>

lemma project_repeat:
  assumes "0 < tp" "c \<noteq> []"
  shows "project_ffn_token_counts_to_dp (repeat_interleave tp c) (int (length c)) = c"
proof -
  have len: "length (repeat_interleave tp c) = length c * nat tp" for c :: "int list"
    by (induction c) (simp_all add: repeat_interleave_def)
  have nth: "i < length c \<Longrightarrow> repeat_interleave tp c ! (i * nat tp) = c ! i" for i
    using assms(1)
  proof (induction c arbitrary: i)
    case (Cons x c)
    then show ?case
      by (cases i) (auto simp: repeat_interleave_def nth_append)
  qed simp
  have n: "int (length c * nat tp) = int (length c) * tp" using assms by simp
  show ?thesis
  proof (cases "tp = 1")
    case True
    then have "repeat_interleave tp c = c" by (induction c) (simp_all add: repeat_interleave_def)
    then show ?thesis by (simp add: project_ffn_token_counts_to_dp_def)
  next
    case False
    then have "\<not> (int (length c) * tp = int (length c))" using assms by simp
    then have "project_ffn_token_counts_to_dp (repeat_interleave tp c) (int (length c)) =
        map (\<lambda>r. repeat_interleave tp c ! nat (r * tp)) (py_range 0 (int (length c)))"
      using assms by (simp add: project_ffn_token_counts_to_dp_def len n Let_def)
    also have "\<dots> = c"
      by (rule nth_equalityI) (use nth assms in \<open>auto simp: nat_mult_distrib\<close>)
    finally show ?thesis .
  qed
qed

end
