(* ===== verification/P2P.thy ===== *)
theory P2P
  imports Ffn_Tokens
begin

text \<open>
  \<open>afd_plugin/connectors/gpu/p2p.py\<close>: the NCCL connector between the Attention ranks of a
  subgroup (subgroup ranks \<open>1..ratio\<close>) and its FFN rank (subgroup rank 0).  A process is the
  connector object, the module's communicator registry, the allocator (the next address), and
  the operations it has issued on the wire, newest last.  Process groups, communicators and
  the delivery of a receive are the environment's.
\<close>

section \<open>Tensors and buffers\<close>

datatype device = Cpu | Cuda int

text \<open>\<open>_TensorMetadata\<close>; a size is its leading dimension and the rest.\<close>

record tensor_meta =
  tm_device :: device
  tm_dtype :: dtype
  tm_rows :: int
  tm_tail :: "int list"

record buffer =
  buf_addr :: int
  buf_meta :: tensor_meta

record 'r tensor =
  t_rows :: "'r list"
  t_tail :: "int list"
  t_dtype :: dtype
  t_is_cpu :: bool

definition tensor_shape :: "'r tensor \<Rightarrow> int list" where
  "tensor_shape t = int (length (t_rows t)) # t_tail t"

definition INPUT_IDS_DTYPE :: dtype where
  "INPUT_IDS_DTYPE = INT32"

datatype 'r wire_op =
    Sent int int "'r tensor"
  | Recvd int int buffer
  | SentGroup int "(int \<times> 'r list) list"
  | RecvdGroup int "(int \<times> buffer) list"

section \<open>State\<close>

record 'r p2p_state =
  p_initialized :: bool
  p_config :: afd_config
  p_mapping :: rank_mapping
  p_local_rank :: int
  p_enforce_eager :: bool
  p_hidden_size :: int
  p_dtype :: dtype
  p_dp_metadata :: "(int, dp_metadata) dict"
  p_capturing :: bool
  p_warmup :: bool
  tensor_metadata_list :: "(int, tensor_meta) dict"
  recv_attn_tensor_metadata_list :: "(int \<times> int, tensor_meta) dict"
  recv_attn_buffers :: "(int \<times> int \<times> int list, buffer) dict"
  recv_attn_input_ids_buffers :: "(int \<times> int \<times> int list, buffer) dict"
  a2e_group :: "int option"
  e2a_group :: "int option"
  p2p_pg :: "int option"
  a2e_pynccl :: "int option"
  e2a_pynccl :: "int option"
  a2e_comm_id :: "int option"
  e2a_comm_id :: "int option"
  plane_closed :: bool
  communicators :: "(int, int) dict"
  comm_id_counter :: int
  destroyed :: "int list"
  aborted :: "int list"
  next_addr :: int
  wire :: "'r wire_op list"

definition ratio :: "'r p2p_state \<Rightarrow> int" where
  "ratio s = int (length (subgroup_ranks (p_mapping s))) - 1"

definition group_size :: "'r p2p_state \<Rightarrow> int" where
  "group_size s = int (length (subgroup_ranks (p_mapping s)))"

definition parse_extra_config :: "pyval option \<Rightarrow> unit result" where
  "parse_extra_config raw =
     (case raw of
        None \<Rightarrow> Inr ()
      | Some (PDict []) \<Rightarrow> Inr ()
      | Some (PDict _) \<Rightarrow> Inl (ValueError ''P2pNcclAFDConnector does not support connector_extra_config'')
      | Some _ \<Rightarrow> Inl (TypeError ''P2P connector_extra_config must be a mapping''))"

text \<open>The constructor, in a process whose module state is \<open>registry\<close>, \<open>counter\<close> and \<open>addr\<close>.\<close>

definition make_connector ::
  "afd_config \<Rightarrow> int \<Rightarrow> int \<Rightarrow> bool \<Rightarrow> int \<Rightarrow> dtype \<Rightarrow> (int, int) dict \<Rightarrow> int \<Rightarrow> int \<Rightarrow> 'r p2p_state result" where
  "make_connector c rank local_rank eager hidden model_dtype registry counter addr =
     bind_result (build_rank_mapping c rank) (\<lambda>m.
     Inr \<lparr>p_initialized = False, p_config = c, p_mapping = m, p_local_rank = local_rank,
          p_enforce_eager = eager, p_hidden_size = hidden, p_dtype = model_dtype,
          p_dp_metadata = [], p_capturing = False, p_warmup = False, tensor_metadata_list = [],
          recv_attn_tensor_metadata_list = [], recv_attn_buffers = [],
          recv_attn_input_ids_buffers = [], a2e_group = None, e2a_group = None, p2p_pg = None,
          a2e_pynccl = None, e2a_pynccl = None, a2e_comm_id = None, e2a_comm_id = None,
          plane_closed = False, communicators = registry, comm_id_counter = counter,
          destroyed = [], aborted = [], next_addr = addr, wire = []\<rparr>)"

section \<open>Life cycle\<close>

definition register_comm :: "int \<Rightarrow> ('r p2p_state, int) op" where
  "register_comm comm = (\<lambda>s.
     (s\<lparr>communicators := dict_put (comm_id_counter s) comm (communicators s),
        comm_id_counter := comm_id_counter s + 1\<rparr>, Inr (comm_id_counter s)))"

text \<open>
  The collective calls of \<open>init_afd_connector\<close>: joining a process group by name, world size and
  rank, and opening the first or second communicator over the subgroup.  Each gives a handle
  or raises.
\<close>

record p2p_env =
  join_group :: "string \<Rightarrow> int \<Rightarrow> int \<Rightarrow> int result"
  open_communicator :: "nat \<Rightarrow> int \<Rightarrow> int \<Rightarrow> int \<Rightarrow> int result"

definition open_subgroup :: "p2p_env \<Rightarrow> ('r p2p_state, unit) op" where
  "open_subgroup env = (\<lambda>s.
     let m = p_mapping s; n = int (length (subgroup_ranks m)) in
     op_bind (op_modify (\<lambda>s. s\<lparr>a2e_group := Some n, e2a_group := Some n\<rparr>)) (\<lambda>_.
     op_bind (op_lift (\<lambda>_. open_communicator env 0 (subgroup_index m) (rank_in_subgroup m) n)) (\<lambda>a2e.
     op_bind (op_modify (\<lambda>s. s\<lparr>a2e_pynccl := Some a2e\<rparr>)) (\<lambda>_.
     op_bind (register_comm a2e) (\<lambda>i.
     op_bind (op_modify (\<lambda>s. s\<lparr>a2e_comm_id := Some i\<rparr>)) (\<lambda>_.
     op_bind (op_lift (\<lambda>_. open_communicator env 1 (subgroup_index m) (rank_in_subgroup m) n)) (\<lambda>e2a.
     op_bind (op_modify (\<lambda>s. s\<lparr>e2a_pynccl := Some e2a\<rparr>)) (\<lambda>_.
     op_bind (register_comm e2a) (\<lambda>j.
     op_modify (\<lambda>s. s\<lparr>e2a_comm_id := Some j\<rparr>))))))))) s)"

definition init_afd_connector :: "p2p_env \<Rightarrow> ('r p2p_state, unit) op" where
  "init_afd_connector env = (\<lambda>s.
     if p_initialized s then (s, Inr ())
     else
       (let m = p_mapping s in
        op_bind (op_lift (\<lambda>_. join_group env ''afd'' (ffn_size m + attention_size m) (world_rank m))) (\<lambda>_.
        op_bind (open_subgroup env) (\<lambda>_.
        op_bind
          (if participates_in_dp_metadata_group m then
             op_bind (op_lift (\<lambda>_. join_group env ''p2p'' (ffn_size m + min_size m) (p2p_rank m)))
               (\<lambda>g. op_modify (\<lambda>s. s\<lparr>p2p_pg := Some g\<rparr>))
           else op_return ()) (\<lambda>_.
        op_modify (\<lambda>s. s\<lparr>p_initialized := True\<rparr>)))) s))"

definition close_control_plane :: "'r p2p_state \<Rightarrow> 'r p2p_state" where
  "close_control_plane s =
     (let s = s\<lparr>plane_closed := True\<rparr> in
      case p2p_pg s of
        None \<Rightarrow> s
      | Some g \<Rightarrow> s\<lparr>aborted := aborted s @ [g], p2p_pg := None\<rparr>)"

definition pop_comm :: "int option \<Rightarrow> (int, int) dict \<Rightarrow> (int, int) dict" where
  "pop_comm i d = (case i of None \<Rightarrow> d | Some k \<Rightarrow> dict_pop k d)"

definition close :: "'r p2p_state \<Rightarrow> 'r p2p_state" where
  "close s =
     (let s = close_control_plane s;
          s = s\<lparr>communicators := pop_comm (e2a_comm_id s) (pop_comm (a2e_comm_id s) (communicators s))\<rparr>;
          s = s\<lparr>a2e_comm_id := None, e2a_comm_id := None\<rparr>;
          s = s\<lparr>destroyed := destroyed s @ map the (filter (\<lambda>c. c \<noteq> None) [a2e_pynccl s, e2a_pynccl s])\<rparr>
      in s\<lparr>a2e_pynccl := None, e2a_pynccl := None, p_initialized := False\<rparr>)"

section \<open>Wire primitives\<close>

text \<open>The custom ops look the communicator up by id.\<close>

definition use_comm :: "int \<Rightarrow> ('r p2p_state, int) op" where
  "use_comm cid = op_lift (\<lambda>s. case dict_get (communicators s) cid of
     None \<Rightarrow> Inl (RuntimeError ''AFD communicator id is not registered'') | Some c \<Rightarrow> Inr c)"

definition issue :: "'r wire_op \<Rightarrow> ('r p2p_state, unit) op" where
  "issue w = op_modify (\<lambda>s. s\<lparr>wire := wire s @ [w]\<rparr>)"

definition require_initialized :: "int option \<Rightarrow> int option \<Rightarrow> (int \<times> int) result" where
  "require_initialized grp cid =
     (case (grp, cid) of
        (Some n, Some c) \<Rightarrow> Inr (n, c)
      | _ \<Rightarrow> Inl (RuntimeError ''P2P connector is not initialized''))"

definition send_hidden_states ::
  "'r tensor \<Rightarrow> int \<Rightarrow> int option \<Rightarrow> int option \<Rightarrow> ('r p2p_state, unit) op" where
  "send_hidden_states t dst grp cid =
     op_bind (op_lift (\<lambda>_. require_initialized grp cid)) (\<lambda>(n, c).
     if n = 1 then op_return ()
     else if n \<le> dst then op_raise (ValueError ''invalid P2P destination rank'')
     else if t_is_cpu t then op_raise (ValueError ''P2P hidden states must be on GPU'')
     else op_bind (use_comm c) (\<lambda>_. issue (Sent c dst t)))"

definition send_tensors ::
  "('r tensor \<times> int) list \<Rightarrow> int option \<Rightarrow> int option \<Rightarrow> ('r p2p_state, unit) op" where
  "send_tensors items grp cid =
     op_bind (op_lift (\<lambda>_. require_initialized grp cid)) (\<lambda>(n, c).
     op_bind (op_mapM (\<lambda>(t, dst).
         if n \<le> dst then op_raise (ValueError ''invalid P2P destination rank'')
         else if t_is_cpu t then op_raise (ValueError ''P2P hidden states must be on GPU'')
         else op_return ()) items) (\<lambda>_.
     op_bind (use_comm c) (\<lambda>_.
     if items = [] then op_raise IndexError
     else issue (SentGroup c (map (\<lambda>(t, dst). (dst, t_rows t)) items)))))"

definition recv_tensors ::
  "(int \<times> buffer) list \<Rightarrow> int option \<Rightarrow> int option \<Rightarrow> ('r p2p_state, unit) op" where
  "recv_tensors items grp cid =
     op_bind (op_lift (\<lambda>_. require_initialized grp cid)) (\<lambda>(n, c).
     op_bind (op_guard (list_ex (\<lambda>(src, _). n \<le> src) items) (ValueError ''invalid P2P source rank'')) (\<lambda>_.
     op_bind (use_comm c) (\<lambda>_.
     if items = [] then op_raise IndexError else issue (RecvdGroup c items))))"

text \<open>\<open>_recv_buffer\<close>: the reference tensor when it fits (its own leading dimension), else a fresh one.\<close>

definition recv_buffer :: "tensor_meta \<Rightarrow> buffer option \<Rightarrow> ('r p2p_state, buffer) op" where
  "recv_buffer meta ref = (\<lambda>s.
     let expected = (case ref of None \<Rightarrow> meta | Some b \<Rightarrow> meta\<lparr>tm_rows := tm_rows (buf_meta b)\<rparr>) in
     case ref of
       Some b \<Rightarrow> if buf_meta b = expected then (s, Inr b)
                 else (s\<lparr>next_addr := next_addr s + 1\<rparr>, Inr \<lparr>buf_addr = next_addr s, buf_meta = expected\<rparr>)
     | None \<Rightarrow> (s\<lparr>next_addr := next_addr s + 1\<rparr>, Inr \<lparr>buf_addr = next_addr s, buf_meta = expected\<rparr>))"

definition recv_hidden_states ::
  "int \<Rightarrow> int option \<Rightarrow> int option \<Rightarrow> tensor_meta \<Rightarrow> buffer option \<Rightarrow> ('r p2p_state, buffer) op" where
  "recv_hidden_states src grp cid meta ref =
     op_bind (op_lift (\<lambda>_. require_initialized grp cid)) (\<lambda>(n, c).
     if n = 1 then
       (case ref of None \<Rightarrow> op_raise (RuntimeError ''single-rank P2P recv requires a reference tensor'')
        | Some b \<Rightarrow> op_return b)
     else if n \<le> src then op_raise (ValueError ''invalid P2P source rank'')
     else op_bind (recv_buffer meta ref) (\<lambda>b.
          op_bind (use_comm c) (\<lambda>_.
          op_bind (issue (Recvd c src b)) (\<lambda>_. op_return b))))"

section \<open>Attention side\<close>

definition send_attn_output ::
  "bool \<Rightarrow> 'r tensor \<Rightarrow> transfer_metadata \<Rightarrow> 'r tensor option \<Rightarrow> 'r tensor option \<Rightarrow> ('r p2p_state, unit) op" where
  "send_attn_output compiling hidden meta router ids =
     op_bind (op_guard (\<not> compiling \<and> \<not> validate_tensor_shape meta (tensor_shape hidden))
       (ValueError ''hidden_states shape does not match AFD metadata token count'')) (\<lambda>_.
     op_bind (op_guard (case router of None \<Rightarrow> False | Some r \<Rightarrow> length (t_rows r) \<noteq> length (t_rows hidden))
       (ValueError ''router_logits and hidden_states must have equal token counts'')) (\<lambda>_.
     op_bind (op_guard (case ids of None \<Rightarrow> False
         | Some i \<Rightarrow> t_tail i \<noteq> [] \<or> length (t_rows i) \<noteq> length (t_rows hidden))
       (ValueError ''input_ids must be one-dimensional and token-aligned with hidden_states'')) (\<lambda>_.
     op_bind (op_guard (case ids of None \<Rightarrow> False | Some i \<Rightarrow> t_dtype i \<noteq> INPUT_IDS_DTYPE)
       (ValueError ''P2P AFD input_ids must use torch.int32'')) (\<lambda>_.
     op_bind (op_get (\<lambda>s. (a2e_group s, a2e_comm_id s))) (\<lambda>(grp, cid).
     op_bind (send_hidden_states hidden 0 grp cid) (\<lambda>_.
     op_bind (case router of None \<Rightarrow> op_return () | Some r \<Rightarrow> send_hidden_states r 0 grp cid) (\<lambda>_.
     (case ids of None \<Rightarrow> op_return () | Some i \<Rightarrow> send_hidden_states i 0 grp cid))))))))"

text \<open>\<open>None\<close> cannot be returned by the receive, so the guard after it never fires.\<close>

definition recv_ffn_output :: "buffer option \<Rightarrow> int \<Rightarrow> ('r p2p_state, buffer) op" where
  "recv_ffn_output ref ubatch =
     op_bind (op_lift (\<lambda>s. dict_lookup (tensor_metadata_list s) ubatch)) (\<lambda>meta.
     op_bind (op_get (\<lambda>s. (e2a_group s, e2a_comm_id s))) (\<lambda>(grp, cid).
     recv_hidden_states 0 grp cid meta ref))"

section \<open>FFN side\<close>

record routing_spec =
  router_logits_dtype :: dtype
  router_logits_width :: int

text \<open>The buffers one peer's tensors are received into, in wire order.\<close>

record peer_buffers =
  pb_hidden :: buffer
  pb_router :: "buffer option"
  pb_ids :: "buffer option"

definition size_key :: "tensor_meta \<Rightarrow> int list" where
  "size_key m = tm_rows m # tm_tail m"

definition ids_meta :: "tensor_meta \<Rightarrow> tensor_meta" where
  "ids_meta m = m\<lparr>tm_dtype := INPUT_IDS_DTYPE, tm_tail := []\<rparr>"

definition router_meta :: "routing_spec \<Rightarrow> tensor_meta \<Rightarrow> tensor_meta" where
  "router_meta sp m = m\<lparr>tm_dtype := router_logits_dtype sp, tm_tail := [router_logits_width sp]\<rparr>"

definition peer_meta :: "int \<Rightarrow> int \<Rightarrow> 'r p2p_state \<Rightarrow> tensor_meta result" where
  "peer_meta ubatch src s =
     bind_result (dict_lookup (tensor_metadata_list s) ubatch) (\<lambda>dflt.
     Inr (case dict_get (recv_attn_tensor_metadata_list s) (ubatch, src) of None \<Rightarrow> dflt | Some m \<Rightarrow> m))"

definition allocate_peer ::
  "int \<Rightarrow> routing_spec option \<Rightarrow> bool \<Rightarrow> int \<Rightarrow> ('r p2p_state, peer_buffers) op" where
  "allocate_peer ubatch spec recv_ids src =
     op_bind (op_lift (peer_meta ubatch src)) (\<lambda>m.
     op_bind (op_get (\<lambda>s. if p_enforce_eager s then None
                          else dict_get (recv_attn_buffers s) (ubatch, src, size_key m))) (\<lambda>ref.
     op_bind (recv_buffer m ref) (\<lambda>h.
     op_bind (case spec of None \<Rightarrow> op_return None
              | Some sp \<Rightarrow> op_bind (recv_buffer (router_meta sp m) None) (\<lambda>b. op_return (Some b))) (\<lambda>r.
     op_bind (if \<not> recv_ids then op_return None
              else
                op_bind (op_get (\<lambda>s. if p_enforce_eager s then None
                  else dict_get (recv_attn_input_ids_buffers s) (ubatch, src, [tm_rows m]))) (\<lambda>iref.
                op_bind (recv_buffer (ids_meta m) iref) (\<lambda>b. op_return (Some b)))) (\<lambda>i.
     op_return \<lparr>pb_hidden = h, pb_router = r, pb_ids = i\<rparr>)))))"

definition opt_list :: "'a option \<Rightarrow> 'a list" where
  "opt_list x = (case x of None \<Rightarrow> [] | Some y \<Rightarrow> [y])"

definition wire_buffers :: "int \<times> peer_buffers \<Rightarrow> (int \<times> buffer) list" where
  "wire_buffers = (\<lambda>(src, p). map (\<lambda>b. (src, b)) (pb_hidden p # opt_list (pb_router p) @ opt_list (pb_ids p)))"

text \<open>
  The environment delivers a receive group: the rows that arrive in each buffer, given the
  sources and the buffers in the order they were posted.  The concatenations of the payload
  read the buffers afterwards, so the \<open>k\<close>-th tensor kind of every peer is collected.
\<close>

type_synonym 'r delivery = "(int \<times> buffer) list \<Rightarrow> 'r list list"

record 'r a2f_payload =
  pl_hidden :: "'r list"
  pl_metadata :: transfer_metadata
  pl_router :: "'r list option"
  pl_ids :: "'r list option"

text \<open>Contents regrouped per peer: the hidden rows, then the optional router rows, then the ids.\<close>

fun split_peers :: "(int \<times> peer_buffers) list \<Rightarrow> 'r list list \<Rightarrow> ('r list \<times> 'r list \<times> 'r list) list" where
  "split_peers [] rows = []"
| "split_peers ((src, p) # ps) rows =
     (let h = hd rows; rows = tl rows;
          r = (if pb_router p = None then [] else hd rows);
          rows = (if pb_router p = None then rows else tl rows);
          i = (if pb_ids p = None then [] else hd rows);
          rows = (if pb_ids p = None then rows else tl rows)
      in (h, r, i) # split_peers ps rows)"

definition cat_rows :: "'r list list \<Rightarrow> 'r list" where
  "cat_rows xs = (if 1 < length xs then concat xs else hd xs)"

definition recv_attn_output ::
  "'r delivery \<Rightarrow> int \<Rightarrow> routing_spec option \<Rightarrow> bool \<Rightarrow> ('r p2p_state, 'r a2f_payload) op" where
  "recv_attn_output deliver ubatch spec recv_ids = (\<lambda>s.
     op_bind (op_mapM (\<lambda>src. op_bind (allocate_peer ubatch spec recv_ids src) (\<lambda>p. op_return (src, p)))
       (py_range 1 (group_size s))) (\<lambda>peers.
     if peers = [] then op_raise (RuntimeError ''P2P FFN rank has no Attention peers'')
     else
       op_bind (op_get (\<lambda>s. (a2e_group s, a2e_comm_id s))) (\<lambda>(grp, cid).
       op_bind (recv_tensors (concat (map wire_buffers peers)) grp cid) (\<lambda>_.
       let rows = split_peers peers (deliver (concat (map wire_buffers peers))) in
       op_bind (op_lift (\<lambda>_. create_ffn_metadata 0 ubatch (map (\<lambda>(_, p). tm_rows (buf_meta (pb_hidden p))) peers)))
         (\<lambda>meta.
       op_return
         \<lparr>pl_hidden = cat_rows (map fst rows), pl_metadata = meta,
          pl_router = (if spec = None then None else Some (cat_rows (map (fst \<circ> snd) rows))),
          pl_ids = (if recv_ids then Some (cat_rows (map (snd \<circ> snd) rows)) else None)\<rparr>)))) s)"

text \<open>\<open>ffn_output[start:end]\<close> for consecutive sizes.\<close>

fun split_rows :: "int \<Rightarrow> 'r list \<Rightarrow> int list \<Rightarrow> 'r list list" where
  "split_rows start rows [] = []"
| "split_rows start rows (n # ns) = py_slice start (start + n) rows # split_rows (start + n) rows ns"

definition split_sizes_of :: "int \<Rightarrow> int \<Rightarrow> transfer_metadata \<Rightarrow> int list result" where
  "split_sizes_of r tokens meta =
     (if int (length (seq_lens meta)) \<noteq> r then
        (if r = 0 then Inl ZeroDivisionError
         else if tokens mod r \<noteq> 0
         then Inl (ValueError ''cannot evenly split FFN output across Attention peers'')
         else Inr (replicate (nat r) (tokens div r)))
      else Inr (seq_lens meta))"

definition send_ffn_output :: "bool \<Rightarrow> 'r tensor \<Rightarrow> transfer_metadata \<Rightarrow> ('r p2p_state, unit) op" where
  "send_ffn_output compiling out meta = (\<lambda>s.
     op_bind (op_guard (\<not> compiling \<and> \<not> validate_tensor_shape meta (tensor_shape out))
       (ValueError ''ffn_output shape does not match metadata'')) (\<lambda>_.
     op_bind (op_lift (\<lambda>s. split_sizes_of (ratio s) (int (length (t_rows out))) meta)) (\<lambda>sizes.
     op_bind (op_get (\<lambda>s. (e2a_group s, e2a_comm_id s))) (\<lambda>(grp, cid).
     send_tensors
       (zip (map (\<lambda>rows. out\<lparr>t_rows := rows\<rparr>) (split_rows 0 (t_rows out) (take (nat (ratio s)) sizes)))
            (py_range 1 (group_size s)))
       grp cid))) s)"

section \<open>Control plane\<close>

definition hidden_meta :: "'r p2p_state \<Rightarrow> int \<Rightarrow> tensor_meta" where
  "hidden_meta s n =
     \<lparr>tm_device = Cuda (p_local_rank s), tm_dtype = p_dtype s, tm_rows = n, tm_tail = [p_hidden_size s]\<rparr>"

text \<open>
  The stage loop.  Subgroup rank \<open>src\<close> is world rank \<open>subgroup_ranks[src]\<close>, so Attention rank
  \<open>subgroup_ranks[src] - ffn_size\<close>.
\<close>

definition peer_tokens :: "'r p2p_state \<Rightarrow> dp_metadata \<Rightarrow> int \<Rightarrow> int" where
  "peer_tokens s d src =
     (let m = p_mapping s in
      num_tokens_for_attention_rank d (subgroup_ranks m ! nat src - ffn_size m) (attention_size m) 1)"

definition apply_stage :: "int \<times> dp_metadata \<Rightarrow> 'r p2p_state \<Rightarrow> 'r p2p_state" where
  "apply_stage = (\<lambda>(stage, d) s.
     let m = p_mapping s in
     if role (p_config s) = PStr ''ffn'' then
       (let srcs = py_range 1 (group_size s);
            metas = map (\<lambda>src. (src, hidden_meta s (peer_tokens s d src))) srcs
        in s\<lparr>recv_attn_tensor_metadata_list :=
               fold (\<lambda>(src, t) dct. dict_put (stage, src) t dct) metas (recv_attn_tensor_metadata_list s),
             tensor_metadata_list :=
               dict_put stage (hidden_meta s (sum_list (map (tm_rows \<circ> snd) metas))) (tensor_metadata_list s)\<rparr>)
     else
       s\<lparr>tensor_metadata_list :=
           dict_put stage (hidden_meta s (num_tokens_for_attention_rank d (role_rank m) (attention_size m) 1))
             (tensor_metadata_list s)\<rparr>)"

definition empty_buffer :: "tensor_meta \<Rightarrow> 'r p2p_state \<Rightarrow> buffer" where
  "empty_buffer m s = \<lparr>buf_addr = next_addr s, buf_meta = m\<rparr>"

definition preallocate :: "(int \<times> int) \<times> tensor_meta \<Rightarrow> 'r p2p_state \<Rightarrow> 'r p2p_state" where
  "preallocate = (\<lambda>((stage, src), m) s.
     let key = (stage, src, size_key m);
         s = (if p_capturing s \<and> dict_get (recv_attn_buffers s) key = None
              then s\<lparr>recv_attn_buffers := dict_put key (empty_buffer m s) (recv_attn_buffers s),
                     next_addr := next_addr s + 1\<rparr>
              else s);
         ids_key = (stage, src, [tm_rows m])
     in if dict_get (recv_attn_input_ids_buffers s) ids_key = None
        then s\<lparr>recv_attn_input_ids_buffers := dict_put ids_key (empty_buffer (ids_meta m) s) (recv_attn_input_ids_buffers s),
               next_addr := next_addr s + 1\<rparr>
        else s)"

definition begin_update :: "control_payload \<Rightarrow> 'r p2p_state \<Rightarrow> 'r p2p_state" where
  "begin_update p s =
     s\<lparr>p_dp_metadata := dp_metadata_list p, p_capturing := is_graph_capturing p,
       p_warmup := is_warmup p, tensor_metadata_list := [], recv_attn_tensor_metadata_list := []\<rparr>"

definition update_state_from_dp_metadata :: "control_payload \<Rightarrow> 'r p2p_state \<Rightarrow> 'r p2p_state" where
  "update_state_from_dp_metadata p s =
     (let s = fold apply_stage (dp_metadata_list p) (begin_update p s)
      in if role (p_config s) = PStr ''ffn'' \<and> \<not> p_enforce_eager s
         then fold preallocate (recv_attn_tensor_metadata_list s) s
         else s)"

text \<open>What is transmitted over the \<open>p2p\<close> group, and the receive; both leave the connector unchanged.\<close>

definition send_dp_metadata_list :: "control_payload \<Rightarrow> 'r p2p_state \<Rightarrow> (int \<times> wire_msg) list" where
  "send_dp_metadata_list p s =
     (let m = p_mapping s in
      if p2p_pg s = None then []
      else if \<not> (ffn_size m \<le> world_rank m \<and> world_rank m < ffn_size m + min_size m) then []
      else send_control_payload p (dp_metadata_destinations m))"

text \<open>
  \<open>traffic src\<close> is what the group delivers from \<open>src\<close>: the first fragment, and the second given
  the announced size; \<open>closing\<close> the closed flag at the four later moments it is read.
\<close>

definition recv_dp_metadata_list ::
  "(int \<Rightarrow> recv_outcome \<times> (int \<Rightarrow> recv_outcome)) \<Rightarrow> bool \<times> bool \<times> bool \<times> bool \<Rightarrow> 'r p2p_state \<Rightarrow>
   control_payload result" where
  "recv_dp_metadata_list traffic closing s =
     bind_result (guard (plane_closed s) ControlPlaneClosed) (\<lambda>_.
     bind_result (guard (p2p_pg s = None)
       (RuntimeError ''P2P DP metadata process group is not initialized'')) (\<lambda>_.
     let m = p_mapping s in
     if min_size m = 0 then Inl ZeroDivisionError
     else
       (let src = p2p_rank m mod min_size m + ffn_size m;
            (first, second) = traffic src;
            (c1, c2, c3, c4) = closing
        in recv_control_payload (Some c1, Some c2, Some c3, Some c4) first second)))"

end
