(* ===== verification/Ffn_Runner.thy ===== *)
theory Ffn_Runner
  imports P2P_Exchange Graph
begin

text \<open>
  The FFN model runner \<open>v1/worker/ffn_model_runner.py\<close> on the P2P connector: one step over the
  layers and stages, the graph cache, capture and replay, and shutdown.  The model is a parameter
  (its layers and its row computations); the CUDA graph of a capture is the wire operations
  issued while capturing, which a replay issues again.
\<close>

section \<open>The model\<close>

text \<open>What a computation reads from the forward context.\<close>

record forward_ctx =
  fc_dp_metadata :: dp_metadata
  fc_metadata :: transfer_metadata
  fc_moe_layer_index :: "int option"

record 'r ffn_model =
  fm_experts_layers :: "int list"
  fm_routing_spec :: "int \<Rightarrow> routing_spec"
  fm_requires_input_ids :: bool
  fm_compute_experts :: "forward_ctx \<Rightarrow> 'r list \<Rightarrow> int \<Rightarrow> 'r list \<Rightarrow> 'r tensor result"
  fm_compute_ffn :: "forward_ctx \<Rightarrow> 'r list \<Rightarrow> int \<Rightarrow> 'r list option \<Rightarrow> 'r tensor result"
  fm_all_moe_layers :: "string list"

record runner_config =
  rc_num_layers :: int
  rc_compute_gate :: bool
  rc_data_parallel_size :: int

section \<open>One step\<close>

definition make_ffn_dp_metadata :: "runner_config \<Rightarrow> 'r p2p_state \<Rightarrow> dp_metadata \<Rightarrow> dp_metadata result" where
  "make_ffn_dp_metadata rc s d =
     (let counts = aggregate_ffn_token_counts (num_tokens_across_dp_cpu d)
            (attention_size (p_mapping s)) (ffn_size (p_mapping s)) 1
      in make_dp_metadata (project_ffn_token_counts_to_dp counts (rc_data_parallel_size rc)) None)"

text \<open>\<open>tuple(sorted(experts_layer_indices))\<close> of a frozenset, or every layer.\<close>

definition layer_indices :: "runner_config \<Rightarrow> 'r ffn_model \<Rightarrow> int list" where
  "layer_indices rc m =
     (if rc_compute_gate rc then sort (remdups (fm_experts_layers m)) else py_range 0 (max (rc_num_layers rc) 1))"

definition runner_stage_ids :: "(int, dp_metadata) dict \<Rightarrow> int list" where
  "runner_stage_ids l = (if l = [] then [0] else sort (map fst l))"

definition routed_here :: "runner_config \<Rightarrow> 'r ffn_model \<Rightarrow> int \<Rightarrow> bool" where
  "routed_here rc m layer \<longleftrightarrow> layer \<in> set (fm_experts_layers m) \<and> rc_compute_gate rc"

text \<open>One layer of one stage; the value carried on is \<open>forward_context.moe_layer_index\<close>.\<close>

definition ffn_stage ::
  "runner_config \<Rightarrow> 'r ffn_model \<Rightarrow> (int \<Rightarrow> int \<Rightarrow> 'r delivery) \<Rightarrow> (int, dp_metadata) dict \<Rightarrow> int \<Rightarrow> int \<Rightarrow> int option \<Rightarrow>
   ('r p2p_state, int option) op" where
  "ffn_stage rc m net ffn_dp layer stage moe =
     op_bind (recv_attn_output (net layer stage) stage
       (if routed_here rc m layer then Some (fm_routing_spec m layer) else None) (fm_requires_input_ids m)) (\<lambda>pl.
     let meta = (pl_metadata pl)\<lparr>layer_idx := layer, stage_idx := stage\<rparr> in
     op_bind (op_lift (\<lambda>_. dict_lookup ffn_dp stage)) (\<lambda>d.
     let moe' = set_moe_layer_index (fm_all_moe_layers m) layer moe;
         ctx = \<lparr>fc_dp_metadata = d, fc_metadata = meta, fc_moe_layer_index = moe'\<rparr> in
     op_bind (op_lift (\<lambda>_.
         if routed_here rc m layer then
           (case pl_router pl of
              None \<Rightarrow> Inl AssertionError
            | Some router \<Rightarrow> fm_compute_experts m ctx (pl_hidden pl) layer router)
         else fm_compute_ffn m ctx (pl_hidden pl) layer (pl_ids pl))) (\<lambda>out.
     op_bind (send_ffn_output False out meta) (\<lambda>_. op_return moe'))))"

definition ffn_layer ::
  "runner_config \<Rightarrow> 'r ffn_model \<Rightarrow> (int \<Rightarrow> int \<Rightarrow> 'r delivery) \<Rightarrow> (int, dp_metadata) dict \<Rightarrow> int list \<Rightarrow> int \<Rightarrow> int option \<Rightarrow>
   ('r p2p_state, int option) op" where
  "ffn_layer rc m net ffn_dp stages layer = op_fold (ffn_stage rc m net ffn_dp layer) stages"

definition ffn_forward ::
  "runner_config \<Rightarrow> 'r ffn_model \<Rightarrow> (int \<Rightarrow> int \<Rightarrow> 'r delivery) \<Rightarrow> int option \<Rightarrow> bool \<Rightarrow> control_payload \<Rightarrow>
   ('r p2p_state, unit) op" where
  "ffn_forward rc m net moe0 update p =
     op_bind (op_modify (\<lambda>s. if update then update_state_from_dp_metadata p s else s)) (\<lambda>_.
     let stages = runner_stage_ids (dp_metadata_list p) in
     op_bind (op_lift (\<lambda>s. map_result (\<lambda>k.
         bind_result (dict_lookup (dp_metadata_list p) k) (\<lambda>d.
         bind_result (make_ffn_dp_metadata rc s d) (\<lambda>d'. Inr (k, d')))) stages)) (\<lambda>ffn_dp.
     op_bind (op_fold (ffn_layer rc m net ffn_dp stages) (layer_indices rc m) moe0) (\<lambda>_. op_return ())))"

section \<open>Graph cache\<close>

type_synonym graph_key = "(int \<times> key_value list) list"

text \<open>What a captured operation fixes: its communicator, peers and row counts; the rows are the replay's.\<close>

datatype wire_shape =
    SendShape int int nat
  | RecvShape int int
  | SendGroupShape int "(int \<times> nat) list"
  | RecvGroupShape int "int list"

fun shape_of :: "'r wire_op \<Rightarrow> wire_shape" where
  "shape_of (Sent c dst t) = SendShape c dst (length (t_rows t))"
| "shape_of (Recvd c src b) = RecvShape c src"
| "shape_of (SentGroup c items) = SendGroupShape c (map (\<lambda>(dst, rows). (dst, length rows)) items)"
| "shape_of (RecvdGroup c items) = RecvGroupShape c (map fst items)"

text \<open>\<open>fr_graph_capturing\<close> is \<open>set_cudagraph_capturing_enabled\<close>'s flag.\<close>

record 'r ffn_runner =
  fr_conn :: "'r p2p_state"
  fr_graphs :: "(graph_key, wire_shape list) dict"
  fr_graph_pool :: bool
  fr_use_cuda_graph :: bool
  fr_graph_capturing :: bool
  fr_model_loaded :: bool
  fr_connector_closed :: bool

definition on_conn :: "('r p2p_state, 'a) op \<Rightarrow> ('r ffn_runner, 'a) op" where
  "on_conn m = (\<lambda>r. case m (fr_conn r) of (s, x) \<Rightarrow> (r\<lparr>fr_conn := s\<rparr>, x))"

text \<open>\<open>with torch.cuda.graph(...)\<close>: the operations issued inside are recorded, not executed.\<close>

definition captured :: "('r p2p_state, unit) op \<Rightarrow> ('r p2p_state, wire_shape list) op" where
  "captured m = (\<lambda>s. case m s of
     (t, Inl e) \<Rightarrow> (t\<lparr>wire := wire s\<rparr>, Inl e)
   | (t, Inr _) \<Rightarrow> (t\<lparr>wire := wire s\<rparr>, Inr (map shape_of (drop (length (wire s)) (wire t)))))"

text \<open>\<open>device g\<close> is what the device issues when graph \<open>g\<close> is launched.\<close>

definition replay_graph :: "(wire_shape list \<Rightarrow> 'r wire_op list) \<Rightarrow> wire_shape list \<Rightarrow> ('r p2p_state, unit) op" where
  "replay_graph device g = op_modify (\<lambda>s. s\<lparr>wire := wire s @ device g\<rparr>)"

definition step_key :: "control_payload \<Rightarrow> graph_key result" where
  "step_key p = make_ffn_graph_key (map (\<lambda>(k, d). (k, Counted (ValueList (num_tokens_across_dp_cpu d)))) (dp_metadata_list p))
     None None 1"

text \<open>\<open>_make_dp_metadata_payload\<close>.\<close>

definition make_dp_metadata_payload :: "(int, dp_metadata) dict \<Rightarrow> bool \<Rightarrow> bool \<Rightarrow> bool \<Rightarrow> control_payload" where
  "make_dp_metadata_payload l capturing warmup replaying =
     \<lparr>dp_metadata_list = l, is_graph_capturing = capturing, is_warmup = warmup, is_graph_replaying = replaying,
      is_profile = False\<rparr>"

text \<open>\<open>fwd update payload\<close> is the class's \<open>_ffn_forward\<close>; \<open>None\<close> is a call without metadata.\<close>

definition execute_model ::
  "(wire_shape list \<Rightarrow> 'r wire_op list) \<Rightarrow> (bool \<Rightarrow> control_payload \<Rightarrow> ('r p2p_state, unit) op) \<Rightarrow> (int, dp_metadata) dict option \<Rightarrow> bool \<Rightarrow> bool \<Rightarrow> bool \<Rightarrow>
   ('r ffn_runner, unit) op" where
  "execute_model device fwd dp capturing warmup replaying =
     (case dp of
        None \<Rightarrow> op_raise (RuntimeError ''GPUFFNModelRunner requires dp_metadata_list'')
      | Some l \<Rightarrow>
          let p = make_dp_metadata_payload l capturing warmup replaying in
          op_bind (op_lift (\<lambda>_. step_key p)) (\<lambda>key.
          op_bind (op_get (\<lambda>r. (dict_get (fr_graphs r) key, fr_use_cuda_graph r))) (\<lambda>(graph, enabled).
          case (graph_run_mode warmup capturing replaying enabled (graph \<noteq> None), graph) of
            (REPLAY, Some g) \<Rightarrow> on_conn (replay_graph device g)
          | _ \<Rightarrow> on_conn (fwd True p))))"

definition dummy_run ::
  "(bool \<Rightarrow> control_payload \<Rightarrow> ('r p2p_state, unit) op) \<Rightarrow> string \<Rightarrow> (int, dp_metadata) dict \<Rightarrow> bool \<Rightarrow>
   ('r ffn_runner, unit) op" where
  "dummy_run fwd mode l capturing =
     (let p = make_dp_metadata_payload l capturing False False in
      if mode = ''FULL'' \<or> ends_with mode ''.FULL'' then
        op_bind (op_modify (\<lambda>r. r\<lparr>fr_graph_pool := True\<rparr>)) (\<lambda>_.
        op_bind (op_lift (\<lambda>_. step_key p)) (\<lambda>key.
        op_bind (on_conn (op_modify (update_state_from_dp_metadata p))) (\<lambda>_.
        op_bind (on_conn (captured (fwd False p))) (\<lambda>g.
        op_modify (\<lambda>r. r\<lparr>fr_graphs := dict_put key g (fr_graphs r)\<rparr>)))))
      else on_conn (fwd True p))"

text \<open>\<open>try: ... finally: ...\<close>.\<close>

definition op_finally :: "('s, 'a) op \<Rightarrow> ('s \<Rightarrow> 's) \<Rightarrow> ('s, 'a) op" where
  "op_finally m f = (\<lambda>s. case m s of (t, x) \<Rightarrow> (f t, x))"

definition capture_model ::
  "(bool \<Rightarrow> control_payload \<Rightarrow> ('r p2p_state, unit) op) \<Rightarrow> (int, dp_metadata) dict option \<Rightarrow> bool \<Rightarrow> bool \<Rightarrow>
   ('r ffn_runner, unit) op" where
  "capture_model fwd dp warmup capturing = (\<lambda>r.
     if \<not> fr_use_cuda_graph r then (r, Inr ())
     else case dp of
       None \<Rightarrow> (r, Inl (RuntimeError ''GPUFFNModelRunner.capture_model requires metadata''))
     | Some l \<Rightarrow>
         op_finally
           (if warmup then
              let p = make_dp_metadata_payload l False True False in
              op_bind (on_conn (op_modify (update_state_from_dp_metadata p))) (\<lambda>_. on_conn (fwd False p))
            else dummy_run fwd ''FULL'' l capturing)
           (\<lambda>r. r\<lparr>fr_graph_capturing := False\<rparr>)
           (r\<lparr>fr_graph_pool := True, fr_graph_capturing := True\<rparr>))"

text \<open>
  \<open>shutdown\<close>: \<open>prof\<close>, \<open>graphs\<close> and \<open>workspace\<close> are what stopping the profiler, resetting the graphs and
  resetting the workspace manager give.
\<close>

definition runner_shutdown :: "unit result \<Rightarrow> unit result \<Rightarrow> unit result \<Rightarrow> ('r ffn_runner, unit) op" where
  "runner_shutdown prof graphs workspace =
     op_bind (op_lift (\<lambda>_. prof)) (\<lambda>_.
     op_finally
       (op_bind (op_lift (\<lambda>_. graphs)) (\<lambda>_.
        op_bind (op_modify (\<lambda>r. r\<lparr>fr_graphs := [], fr_graph_pool := False, fr_model_loaded := False\<rparr>)) (\<lambda>_.
        op_lift (\<lambda>_. workspace))))
       (\<lambda>r. r\<lparr>fr_conn := close (fr_conn r), fr_connector_closed := True\<rparr>))"

section \<open>A step serves every peer\<close>

text \<open>A row-wise model: each row's output depends on that row, its router logits and its input id.\<close>

definition row_wise ::
  "'r ffn_model \<Rightarrow> (int \<Rightarrow> 'r \<Rightarrow> 'r \<Rightarrow> 'r) \<Rightarrow> (int \<Rightarrow> 'r \<Rightarrow> 'r \<Rightarrow> 'r) \<Rightarrow> (int \<Rightarrow> 'r \<Rightarrow> 'r) \<Rightarrow> bool" where
  "row_wise m ge gi gf \<longleftrightarrow>
     (\<forall>ctx rows layer router. length router = length rows \<longrightarrow>
        (\<exists>t. fm_compute_experts m ctx rows layer router = Inr t \<and> t_rows t = map2 (ge layer) rows router \<and> \<not> t_is_cpu t)) \<and>
     (\<forall>ctx rows layer ids. length ids = length rows \<longrightarrow>
        (\<exists>t. fm_compute_ffn m ctx rows layer (Some ids) = Inr t \<and> t_rows t = map2 (gi layer) rows ids \<and> \<not> t_is_cpu t)) \<and>
     (\<forall>ctx rows layer.
        (\<exists>t. fm_compute_ffn m ctx rows layer None = Inr t \<and> t_rows t = map (gf layer) rows \<and> \<not> t_is_cpu t))"

lemma row_wiseD:
  assumes "row_wise m ge gi gf"
  shows "length router = length rows \<Longrightarrow>
      \<exists>t. fm_compute_experts m ctx rows layer router = Inr t \<and> t_rows t = map2 (ge layer) rows router \<and> \<not> t_is_cpu t"
    "length ids = length rows \<Longrightarrow>
      \<exists>t. fm_compute_ffn m ctx rows layer (Some ids) = Inr t \<and> t_rows t = map2 (gi layer) rows ids \<and> \<not> t_is_cpu t"
    "\<exists>t. fm_compute_ffn m ctx rows layer None = Inr t \<and> t_rows t = map (gf layer) rows \<and> \<not> t_is_cpu t"
  using assms unfolding row_wise_def by blast+

text \<open>What a peer that sent \<open>h\<close> (with router logits \<open>r\<close> and ids \<open>i\<close>) is owed.\<close>

definition answer ::
  "runner_config \<Rightarrow> 'r ffn_model \<Rightarrow> (int \<Rightarrow> 'r \<Rightarrow> 'r \<Rightarrow> 'r) \<Rightarrow> (int \<Rightarrow> 'r \<Rightarrow> 'r \<Rightarrow> 'r) \<Rightarrow> (int \<Rightarrow> 'r \<Rightarrow> 'r) \<Rightarrow> int \<Rightarrow>
   'r list \<Rightarrow> 'r list \<Rightarrow> 'r list \<Rightarrow> 'r list" where
  "answer rc m ge gi gf layer h r i =
     (if routed_here rc m layer then map2 (ge layer) h r
      else if fm_requires_input_ids m then map2 (gi layer) h i
      else map (gf layer) h)"

lemma concat_map2:
  "(\<And>x. x \<in> set xs \<Longrightarrow> length (a x) = length (b x)) \<Longrightarrow>
   map2 f (concat (map a xs)) (concat (map b xs)) = concat (map (\<lambda>x. map2 f (a x) (b x)) xs)"
  by (induction xs) auto

lemma length_concat_eq:
  "(\<And>x. x \<in> set xs \<Longrightarrow> length (a x) = length (b x)) \<Longrightarrow> length (concat (map a xs)) = length (concat (map b xs))"
  by (induction xs) auto

text \<open>A connector updated for the step: every stage's and peer's tensor metadata is \<open>M stage peer\<close>.\<close>

definition serves :: "'r p2p_state \<Rightarrow> (int \<Rightarrow> int \<Rightarrow> tensor_meta) \<Rightarrow> int set \<Rightarrow> bool" where
  "serves s M stages \<longleftrightarrow> p2p_ready s \<and> buffers_ok s \<and> 1 < group_size s \<and>
     (\<forall>k \<in> stages. \<forall>src \<in> set (peer_ranks s).
        on_device s (M k src) \<and> peer_meta k src s = Inr (M k src) \<and> 0 \<le> tm_rows (M k src))"

lemma serves_wire [simp]: "serves (s\<lparr>next_addr := n, wire := w\<rparr>) M stages = serves s M stages"
proof -
  let ?t = "s\<lparr>next_addr := n, wire := w\<rparr>"
  have "p2p_ready ?t = p2p_ready s" "buffers_ok ?t = buffers_ok s" "group_size ?t = group_size s"
    "peer_ranks ?t = peer_ranks s" "on_device ?t x = on_device s x" "peer_meta k src ?t = peer_meta k src s" for x k src
    by (simp_all add: p2p_ready_def buffers_ok_def group_size_def peer_ranks_def on_device_def peer_meta_def)
  then show ?thesis unfolding serves_def by (simp add: on_device_def)
qed

text \<open>What the peers send for one layer and stage: aligned rows, logits and ids of the planned size.\<close>

record 'r traffic_of =
  tr_hidden :: "int \<Rightarrow> int \<Rightarrow> int \<Rightarrow> 'r list"
  tr_router :: "int \<Rightarrow> int \<Rightarrow> int \<Rightarrow> 'r list"
  tr_ids :: "int \<Rightarrow> int \<Rightarrow> int \<Rightarrow> 'r list"

definition arrives ::
  "runner_config \<Rightarrow> 'r ffn_model \<Rightarrow> 'r traffic_of \<Rightarrow> (int \<Rightarrow> int \<Rightarrow> tensor_meta) \<Rightarrow> int list \<Rightarrow> int \<Rightarrow> int \<Rightarrow> 'r delivery \<Rightarrow> bool" where
  "arrives rc m tr M srcs layer k deliver \<longleftrightarrow>
     nccl_matching (peer_stream (if routed_here rc m layer then Some (fm_routing_spec m layer) else None)
       (fm_requires_input_ids m) (tr_hidden tr layer k) (tr_router tr layer k) (tr_ids tr layer k)) deliver \<and>
     (\<forall>src \<in> set srcs. int (length (tr_hidden tr layer k src)) = tm_rows (M k src) \<and>
        length (tr_router tr layer k src) = length (tr_hidden tr layer k src) \<and>
        length (tr_ids tr layer k src) = length (tr_hidden tr layer k src))"

text \<open>The wire operations of one layer and stage.\<close>

definition stage_exchange ::
  "runner_config \<Rightarrow> 'r ffn_model \<Rightarrow> (int \<Rightarrow> 'r \<Rightarrow> 'r \<Rightarrow> 'r) \<Rightarrow> (int \<Rightarrow> 'r \<Rightarrow> 'r \<Rightarrow> 'r) \<Rightarrow> (int \<Rightarrow> 'r \<Rightarrow> 'r) \<Rightarrow> 'r traffic_of \<Rightarrow>
   'r p2p_state \<Rightarrow> int \<Rightarrow> int \<Rightarrow> 'r wire_op list \<Rightarrow> bool" where
  "stage_exchange rc m ge gi gf tr s layer k ops \<longleftrightarrow>
     (\<exists>posted. ops = [RecvdGroup (the (a2e_comm_id s)) posted,
        SentGroup (the (e2a_comm_id s)) (map (\<lambda>src. (src, answer rc m ge gi gf layer (tr_hidden tr layer k src)
           (tr_router tr layer k src) (tr_ids tr layer k src))) (peer_ranks s))] \<and>
        map fst posted = post_sources (if routed_here rc m layer then Some (fm_routing_spec m layer) else None)
          (fm_requires_input_ids m) (peer_ranks s))"

lemma stage_exchange_wire [simp]:
  "stage_exchange rc m ge gi gf tr (s\<lparr>next_addr := n, wire := w\<rparr>) = stage_exchange rc m ge gi gf tr s"
  by (simp add: stage_exchange_def peer_ranks_def group_size_def fun_eq_iff)

lemma ffn_stage_run:
  assumes "serves s M stages" "k \<in> stages" "row_wise m ge gi gf" "dict_get ffn_dp k \<noteq> None"
    and arr: "arrives rc m tr M (peer_ranks s) layer k (net layer k)"
  shows "\<exists>n ops moe'. ffn_stage rc m net ffn_dp layer k moe s = (s\<lparr>next_addr := n, wire := wire s @ ops\<rparr>, Inr moe') \<and>
    stage_exchange rc m ge gi gf tr s layer k ops"
proof -
  let ?srcs = "py_range 1 (group_size s)"
  let ?spec = "if routed_here rc m layer then Some (fm_routing_spec m layer) else None"
  let ?ids = "fm_requires_input_ids m"
  let ?h = "tr_hidden tr layer k" and ?r = "tr_router tr layer k" and ?i = "tr_ids tr layer k"
  let ?a = "\<lambda>src. answer rc m ge gi gf layer (?h src) (?r src) (?i src)"
  have s: "p2p_ready s" "buffers_ok s" "1 < group_size s"
    "\<And>src. src \<in> set ?srcs \<Longrightarrow> on_device s (M k src) \<and> peer_meta k src s = Inr (M k src) \<and> 0 \<le> tm_rows (M k src)"
    using assms(1,2) by (simp_all add: serves_def peer_ranks_def)
  have len: "int (length (?h src)) = tm_rows (M k src)" "length (?r src) = length (?h src)" "length (?i src) = length (?h src)"
    if "src \<in> set ?srcs" for src
    using arr that by (simp_all add: arrives_def peer_ranks_def)
  from arr have "nccl_matching (peer_stream ?spec ?ids ?h ?r ?i) (net layer k)" by (simp add: arrives_def)
  from recv_attn_output_run [OF s this] obtain n posted where
    recv: "recv_attn_output (net layer k) k ?spec ?ids s =
      (s\<lparr>next_addr := n, wire := wire s @ [RecvdGroup (the (a2e_comm_id s)) posted]\<rparr>,
       Inr \<lparr>pl_hidden = concat (map ?h ?srcs),
          pl_metadata = \<lparr>layer_idx = 0, stage_idx = k, seq_lens = map (\<lambda>src. tm_rows (M k src)) ?srcs\<rparr>,
          pl_router = (if ?spec = None then None else Some (concat (map ?r ?srcs))),
          pl_ids = (if ?ids then Some (concat (map ?i ?srcs)) else None)\<rparr>)" (is "_ = (?s1, Inr ?pl)")
      and posted: "map fst posted = post_sources ?spec ?ids ?srcs"
    by blast
  obtain d where d: "dict_lookup ffn_dp k = Inr d" using assms(4) by (auto simp: dict_lookup_def)
  let ?moe = "set_moe_layer_index (fm_all_moe_layers m) layer moe"
  let ?meta = "(pl_metadata ?pl)\<lparr>layer_idx := layer, stage_idx := k\<rparr>"
  let ?ctx = "\<lparr>fc_dp_metadata = d, fc_metadata = ?meta, fc_moe_layer_index = ?moe\<rparr>"
  let ?compute = "if routed_here rc m layer then
         (case pl_router ?pl of None \<Rightarrow> Inl AssertionError
          | Some router \<Rightarrow> fm_compute_experts m ?ctx (pl_hidden ?pl) layer router)
       else fm_compute_ffn m ?ctx (pl_hidden ?pl) layer (pl_ids ?pl)"
  have "\<exists>t. ?compute = Inr t \<and> t_rows t = concat (map ?a ?srcs) \<and> \<not> t_is_cpu t"
  proof -
    have lr: "length (concat (map ?r ?srcs)) = length (concat (map ?h ?srcs))"
      and li: "length (concat (map ?i ?srcs)) = length (concat (map ?h ?srcs))"
      using len by (auto intro!: length_concat_eq)
    have e: "\<exists>t. fm_compute_experts m ?ctx (concat (map ?h ?srcs)) layer (concat (map ?r ?srcs)) = Inr t \<and>
        t_rows t = concat (map (\<lambda>src. map2 (ge layer) (?h src) (?r src)) ?srcs) \<and> \<not> t_is_cpu t"
      using row_wiseD(1) [OF assms(3) lr, of ?ctx layer] concat_map2 [of ?srcs ?h ?r "ge layer"] len(2) by simp
    have i: "\<exists>t. fm_compute_ffn m ?ctx (concat (map ?h ?srcs)) layer (Some (concat (map ?i ?srcs))) = Inr t \<and>
        t_rows t = concat (map (\<lambda>src. map2 (gi layer) (?h src) (?i src)) ?srcs) \<and> \<not> t_is_cpu t"
      using row_wiseD(2) [OF assms(3) li, of ?ctx layer] concat_map2 [of ?srcs ?h ?i "gi layer"] len(3) by simp
    have f: "\<exists>t. fm_compute_ffn m ?ctx (concat (map ?h ?srcs)) layer None = Inr t \<and>
        t_rows t = concat (map (\<lambda>src. map (gf layer) (?h src)) ?srcs) \<and> \<not> t_is_cpu t"
      using row_wiseD(3) [OF assms(3), of ?ctx "concat (map ?h ?srcs)" layer] by (simp add: map_concat comp_def)
    show ?thesis using e i f by (simp add: answer_def)
  qed
  then obtain t where t: "?compute = Inr t" "t_rows t = concat (map ?a ?srcs)" "\<not> t_is_cpu t" by blast
  have s1: "p2p_ready ?s1" "1 < group_size ?s1" "peer_ranks ?s1 = ?srcs" "group_size ?s1 = group_size s"
    using s(1,3) by (simp_all add: p2p_ready_def group_size_def peer_ranks_def)
  have alen: "int (length (?a src)) = tm_rows (M k src)" if "src \<in> set ?srcs" for src
    using len [OF that] by (simp add: answer_def)
  let ?ops = "[RecvdGroup (the (a2e_comm_id s)) posted, SentGroup (the (e2a_comm_id s)) (map (\<lambda>src. (src, ?a src)) ?srcs)]"
  have "send_ffn_output False t \<lparr>layer_idx = layer, stage_idx = k, seq_lens = map (\<lambda>src. tm_rows (M k src)) ?srcs\<rparr> ?s1 =
      (s\<lparr>next_addr := n, wire := wire s @ ?ops\<rparr>, Inr ())"
    using send_ffn_output_run [OF s1(1,2), of ?a "M k" t layer k] alen t(2,3) by (simp add: s1(4))
  moreover have "?meta = \<lparr>layer_idx = layer, stage_idx = k, seq_lens = map (\<lambda>src. tm_rows (M k src)) ?srcs\<rparr>" by simp
  ultimately have send: "send_ffn_output False t ?meta ?s1 = (s\<lparr>next_addr := n, wire := wire s @ ?ops\<rparr>, Inr ())" by simp
  have "ffn_stage rc m net ffn_dp layer k moe s = (s\<lparr>next_addr := n, wire := wire s @ ?ops\<rparr>, Inr ?moe)"
    unfolding ffn_stage_def Let_def
    by (rule op_bindI, rule recv, rule op_bindI, simp add: d, rule op_bindI, simp only: op_lift_app t(1),
        rule op_bindI, rule send, rule op_return_app)
  moreover have "stage_exchange rc m ge gi gf tr s layer k ?ops"
    using posted by (auto simp: stage_exchange_def peer_ranks_def)
  ultimately show ?thesis by blast
qed

text \<open>Loops whose rounds only append to the wire.\<close>

lemma op_fold_wire:
  assumes "\<And>x b n w. x \<in> set xs \<Longrightarrow> \<exists>n' ops b'.
      f x b (s\<lparr>next_addr := n, wire := w\<rparr>) = (s\<lparr>next_addr := n', wire := w @ ops\<rparr>, Inr b') \<and> X x ops"
  shows "\<exists>n' opss b'. op_fold f xs b (s\<lparr>next_addr := n, wire := w\<rparr>) =
      (s\<lparr>next_addr := n', wire := w @ concat opss\<rparr>, Inr b') \<and> list_all2 X xs opss"
  using assms
proof (induction xs arbitrary: b n w)
  case Nil
  show ?case by (intro exI [of _ n] exI [of _ "[]"] exI [of _ b]) simp
next
  case (Cons x xs)
  have "\<exists>n' ops b'. f x b (s\<lparr>next_addr := n, wire := w\<rparr>) = (s\<lparr>next_addr := n', wire := w @ ops\<rparr>, Inr b') \<and> X x ops"
    by (rule Cons.prems) simp
  then obtain n1 ops b1 where x: "f x b (s\<lparr>next_addr := n, wire := w\<rparr>) = (s\<lparr>next_addr := n1, wire := w @ ops\<rparr>, Inr b1)" "X x ops"
    by blast
  obtain n2 opss b2 where xs: "op_fold f xs b1 (s\<lparr>next_addr := n1, wire := w @ ops\<rparr>) =
      (s\<lparr>next_addr := n2, wire := (w @ ops) @ concat opss\<rparr>, Inr b2)" "list_all2 X xs opss"
    using Cons.IH [where b = b1 and n = n1 and w = "w @ ops"] Cons.prems by (metis list.set_intros(2))
  have "op_fold f (x # xs) b (s\<lparr>next_addr := n, wire := w\<rparr>) =
      (s\<lparr>next_addr := n2, wire := w @ concat (ops # opss)\<rparr>, Inr b2)"
    unfolding op_fold.simps by (rule op_bindI, rule x(1)) (simp add: xs(1) [simplified])
  then show ?case using x(2) xs(2) by (intro exI [of _ n2] exI [of _ "ops # opss"] exI [of _ b2]) simp
qed

lemma list_all2_flatten:
  "list_all2 (\<lambda>x ops. \<exists>opss. list_all2 R (h x) opss \<and> ops = concat opss) xs O' \<Longrightarrow>
   \<exists>opss. list_all2 R (concat (map h xs)) opss \<and> concat O' = concat opss"
proof (induction rule: list_all2_induct)
  case (Cons x xs y ys)
  then obtain a b where "list_all2 R (h x) a" "y = concat a" "list_all2 R (concat (map h xs)) b" "concat ys = concat b"
    by auto
  then show ?case by (intro exI [of _ "a @ b"]) (auto intro: list_all2_appendI)
qed auto

lemma ffn_layers_run:
  assumes "serves s M (set stages)" "row_wise m ge gi gf" "\<forall>k \<in> set stages. dict_get ffn_dp k \<noteq> None"
    and arr: "\<forall>layer \<in> set layers. \<forall>k \<in> set stages. arrives rc m tr M (peer_ranks s) layer k (net layer k)"
  shows "\<exists>n opss moe'. op_fold (ffn_layer rc m net ffn_dp stages) layers moe s =
      (s\<lparr>next_addr := n, wire := wire s @ concat opss\<rparr>, Inr moe') \<and>
    list_all2 (\<lambda>(layer, k). stage_exchange rc m ge gi gf tr s layer k) (concat (map (\<lambda>layer. map (Pair layer) stages) layers)) opss"
proof -
  let ?R = "\<lambda>(layer, k). stage_exchange rc m ge gi gf tr s layer k"
  have stage: "\<exists>n' ops b'. ffn_stage rc m net ffn_dp layer k b (s\<lparr>next_addr := n, wire := w\<rparr>) =
      (s\<lparr>next_addr := n', wire := w @ ops\<rparr>, Inr b') \<and> stage_exchange rc m ge gi gf tr s layer k ops"
    if "layer \<in> set layers" "k \<in> set stages" for layer k b n w
  proof -
    have "peer_ranks (s\<lparr>next_addr := n, wire := w\<rparr>) = peer_ranks s" by (simp add: peer_ranks_def group_size_def)
    then show ?thesis
      using ffn_stage_run [of "s\<lparr>next_addr := n, wire := w\<rparr>" M "set stages" k m ge gi gf ffn_dp rc tr layer net b]
        assms that by simp
  qed
  have layer: "\<exists>n' ops b'. ffn_layer rc m net ffn_dp stages layer b (s\<lparr>next_addr := n, wire := w\<rparr>) =
      (s\<lparr>next_addr := n', wire := w @ ops\<rparr>, Inr b') \<and> (\<exists>opss. list_all2 ?R (map (Pair layer) stages) opss \<and> ops = concat opss)"
    if l: "layer \<in> set layers" for layer b n w
  proof -
    obtain n' opss b' where "op_fold (ffn_stage rc m net ffn_dp layer) stages b (s\<lparr>next_addr := n, wire := w\<rparr>) =
        (s\<lparr>next_addr := n', wire := w @ concat opss\<rparr>, Inr b')" "list_all2 (stage_exchange rc m ge gi gf tr s layer) stages opss"
      using op_fold_wire [where xs = stages and f = "ffn_stage rc m net ffn_dp layer" and s = s
          and X = "stage_exchange rc m ge gi gf tr s layer" and b = b and n = n and w = w]
        stage [OF l] by blast
    then show ?thesis by (intro exI [of _ n'] exI [of _ "concat opss"] exI [of _ b']) (auto simp: ffn_layer_def list_all2_map1)
  qed
  let ?X = "\<lambda>layer ops. \<exists>opss. list_all2 ?R (map (Pair layer) stages) opss \<and> ops = concat opss"
  have id: "s\<lparr>next_addr := next_addr s, wire := wire s\<rparr> = s" by simp
  obtain n' O' b' where "op_fold (ffn_layer rc m net ffn_dp stages) layers moe s =
      (s\<lparr>next_addr := n', wire := wire s @ concat O'\<rparr>, Inr b')" "list_all2 ?X layers O'"
    using op_fold_wire [where xs = layers and f = "ffn_layer rc m net ffn_dp stages" and s = s and X = ?X
        and b = moe and n = "next_addr s" and w = "wire s", unfolded id] layer
    by blast
  with list_all2_flatten [of ?R "\<lambda>layer. map (Pair layer) stages" layers O'] show ?thesis by fastforce
qed

lemma serves_updated:
  assumes "0 < F" "F \<le> A" "ffn_connector A F f s" "0 \<le> f" "f < F" "p2p_ready s" "buffers_ok s" "wf_dict (dp_metadata_list p)"
  shows "serves (update_state_from_dp_metadata p s) (\<lambda>k. \<lambda>src. hidden_meta s (peer_tokens s (the (dict_get (dp_metadata_list p) k)) src))
    (fst ` set (dp_metadata_list p))"
proof -
  let ?u = "update_state_from_dp_metadata p s"
  have ffn: "role (p_config s) = PStr ''ffn''" using assms(3) by (simp add: ffn_connector_def)
  have gs: "1 < group_size s"
    using block_nonempty [OF assms(1,2), of f] by (simp add: ffn_group_size [OF assms(3)])
  have "on_device ?u (hidden_meta s (peer_tokens s d src)) \<and> peer_meta k src ?u = Inr (hidden_meta s (peer_tokens s d src)) \<and>
      0 \<le> tm_rows (hidden_meta s (peer_tokens s d src))"
    if "src \<in> set (peer_ranks s)" "dict_get (dp_metadata_list p) k = Some d" for k src d
  proof -
    have "1 \<le> peer_tokens s d src" by (simp add: peer_tokens_def Let_def num_tokens_pos)
    then show ?thesis
      using that update_peer_meta [OF assms(8) that(2) ffn, of src]
      by (auto simp: on_device_def hidden_meta_def peer_ranks_def)
  qed
  moreover have "\<exists>d. dict_get (dp_metadata_list p) k = Some d" if "k \<in> fst ` set (dp_metadata_list p)" for k
    using that assms(8) by (force dest: dict_get_in)
  ultimately show ?thesis
    using assms(6,7) gs by (fastforce simp: serves_def buffers_ok_update peer_ranks_def)
qed

text \<open>The planned shape of peer \<open>src\<close>'s rows in stage \<open>k\<close>.\<close>

definition planned :: "control_payload \<Rightarrow> 'r p2p_state \<Rightarrow> int \<Rightarrow> int \<Rightarrow> tensor_meta" where
  "planned p s k src = hidden_meta s (peer_tokens s (the (dict_get (dp_metadata_list p) k)) src)"

text \<open>The layers and stages of a step, in the order the runner visits them.\<close>

definition step_order :: "runner_config \<Rightarrow> 'r ffn_model \<Rightarrow> control_payload \<Rightarrow> (int \<times> int) list" where
  "step_order rc m p =
     concat (map (\<lambda>layer. map (Pair layer) (runner_stage_ids (dp_metadata_list p))) (layer_indices rc m))"

definition step_exchanges ::
  "runner_config \<Rightarrow> 'r ffn_model \<Rightarrow> (int \<Rightarrow> 'r \<Rightarrow> 'r \<Rightarrow> 'r) \<Rightarrow> (int \<Rightarrow> 'r \<Rightarrow> 'r \<Rightarrow> 'r) \<Rightarrow> (int \<Rightarrow> 'r \<Rightarrow> 'r) \<Rightarrow> 'r traffic_of \<Rightarrow>
   'r p2p_state \<Rightarrow> control_payload \<Rightarrow> 'r wire_op list \<Rightarrow> bool" where
  "step_exchanges rc m ge gi gf tr s p ops \<longleftrightarrow>
     (\<exists>opss. ops = concat opss \<and>
        list_all2 (\<lambda>(layer, k). stage_exchange rc m ge gi gf tr s layer k) (step_order rc m p) opss)"

lemma stage_ids_keys: "wf_dict l \<Longrightarrow> l \<noteq> [] \<Longrightarrow> set (runner_stage_ids l) = fst ` set l"
  by (simp add: runner_stage_ids_def)

lemma ffn_dp_ok:
  assumes "wf_dict l" "l \<noteq> []" "\<forall>(k, d) \<in> set l. is_ok (make_ffn_dp_metadata rc s d)"
  shows "\<exists>ffn_dp. map_result (\<lambda>k. bind_result (dict_lookup l k) (\<lambda>d. bind_result (make_ffn_dp_metadata rc s d) (\<lambda>d'. Inr (k, d'))))
      (runner_stage_ids l) = Inr ffn_dp \<and> (\<forall>k \<in> set (runner_stage_ids l). dict_get ffn_dp k \<noteq> None)"
proof -
  let ?f = "\<lambda>k. bind_result (dict_lookup l k) (\<lambda>d. bind_result (make_ffn_dp_metadata rc s d) (\<lambda>d'. Inr (k, d')))"
  let ?d = "\<lambda>k. projr (make_ffn_dp_metadata rc s (the (dict_get l k)))"
  have "?f k = Inr (k, ?d k)" if k: "k \<in> set (runner_stage_ids l)" for k
  proof -
    obtain d where d: "(k, d) \<in> set l" using k stage_ids_keys [OF assms(1,2)] by auto
    then have "dict_get l k = Some d" using assms(1) by (simp add: dict_get_in)
    moreover have "is_ok (make_ffn_dp_metadata rc s d)" using assms(3) d by auto
    ultimately show ?thesis by (auto simp: dict_lookup_def is_ok_def split: sum.splits)
  qed
  then have "map_result ?f (runner_stage_ids l) = Inr (map (\<lambda>k. (k, ?d k)) (runner_stage_ids l))"
    by (rule map_result_map_Inr)
  moreover have "\<forall>k \<in> set (runner_stage_ids l). dict_get (map (\<lambda>k. (k, ?d k)) (runner_stage_ids l)) k \<noteq> None"
    by (auto simp: dict_get_None)
  ultimately show ?thesis by blast
qed

lemma ffn_forward_run:
  assumes "serves s M (set (runner_stage_ids (dp_metadata_list p)))" "row_wise m ge gi gf"
    and "wf_dict (dp_metadata_list p)" "dp_metadata_list p \<noteq> []"
    and "\<forall>(k, d) \<in> set (dp_metadata_list p). is_ok (make_ffn_dp_metadata rc s d)"
    and "\<forall>(layer, k) \<in> set (step_order rc m p). arrives rc m tr M (peer_ranks s) layer k (net layer k)"
  shows "\<exists>n ops. ffn_forward rc m net moe0 False p s = (s\<lparr>next_addr := n, wire := wire s @ ops\<rparr>, Inr ()) \<and>
    step_exchanges rc m ge gi gf tr s p ops"
proof -
  let ?l = "dp_metadata_list p"
  let ?ks = "runner_stage_ids ?l"
  obtain ffn_dp where dp: "map_result (\<lambda>k. bind_result (dict_lookup ?l k)
        (\<lambda>d. bind_result (make_ffn_dp_metadata rc s d) (\<lambda>d'. Inr (k, d')))) ?ks = Inr ffn_dp"
      "\<forall>k \<in> set ?ks. dict_get ffn_dp k \<noteq> None"
    using ffn_dp_ok [OF assms(3-5)] by blast
  have arr: "\<forall>layer \<in> set (layer_indices rc m). \<forall>k \<in> set ?ks. arrives rc m tr M (peer_ranks s) layer k (net layer k)"
    using assms(6) by (auto simp: step_order_def)
  obtain n opss moe' where "op_fold (ffn_layer rc m net ffn_dp ?ks) (layer_indices rc m) moe0 s =
      (s\<lparr>next_addr := n, wire := wire s @ concat opss\<rparr>, Inr moe')"
      "list_all2 (\<lambda>(layer, k). stage_exchange rc m ge gi gf tr s layer k) (step_order rc m p) opss"
    using ffn_layers_run [OF assms(1,2) dp(2) arr] unfolding step_order_def by blast
  moreover from this(1) have "ffn_forward rc m net moe0 False p s = (s\<lparr>next_addr := n, wire := wire s @ concat opss\<rparr>, Inr ())"
    unfolding ffn_forward_def Let_def
    by (intro op_bindI [where x = "()" and u = s] op_bindI [where x = ffn_dp and u = s] op_bindI) (simp_all add: dp(1))
  ultimately show ?thesis by (auto simp: step_exchanges_def)
qed

text \<open>The transfers of a step, as its planned counts determine them.\<close>

definition exchange_shape :: "runner_config \<Rightarrow> 'r ffn_model \<Rightarrow> 'r p2p_state \<Rightarrow> control_payload \<Rightarrow> int \<times> int \<Rightarrow> wire_shape list" where
  "exchange_shape rc m s p = (\<lambda>(layer, k).
     [RecvGroupShape (the (a2e_comm_id s)) (post_sources (if routed_here rc m layer then Some (fm_routing_spec m layer) else None)
        (fm_requires_input_ids m) (peer_ranks s)),
      SendGroupShape (the (e2a_comm_id s)) (map (\<lambda>src. (src, nat (tm_rows (planned p s k src)))) (peer_ranks s))])"

definition step_shapes :: "runner_config \<Rightarrow> 'r ffn_model \<Rightarrow> 'r p2p_state \<Rightarrow> control_payload \<Rightarrow> wire_shape list" where
  "step_shapes rc m s p = concat (map (exchange_shape rc m s p) (step_order rc m p))"

lemma length_answer:
  assumes "arrives rc m tr M srcs layer k deliver" "src \<in> set srcs"
  shows "length (answer rc m ge gi gf layer (tr_hidden tr layer k src) (tr_router tr layer k src) (tr_ids tr layer k src)) =
    nat (tm_rows (M k src))"
proof -
  have "length (tr_hidden tr layer k src) = nat (tm_rows (M k src))"
      "length (tr_router tr layer k src) = nat (tm_rows (M k src)) \<or> \<not> routed_here rc m layer"
      "length (tr_ids tr layer k src) = nat (tm_rows (M k src)) \<or> \<not> fm_requires_input_ids m"
    using assms by (auto simp: arrives_def)
  then show ?thesis by (auto simp: answer_def)
qed

lemma step_exchanges_shape:
  assumes "step_exchanges rc m ge gi gf tr s p ops"
    and "\<forall>(layer, k) \<in> set (step_order rc m p). arrives rc m tr (planned p s) (peer_ranks s) layer k (net layer k)"
  shows "map shape_of ops = step_shapes rc m s p"
proof -
  from assms(1) obtain opss where ops: "ops = concat opss"
      "list_all2 (\<lambda>(layer, k). stage_exchange rc m ge gi gf tr s layer k) (step_order rc m p) opss"
    by (auto simp: step_exchanges_def)
  have "list_all2 (\<lambda>(layer, k). stage_exchange rc m ge gi gf tr s layer k) xs opss \<Longrightarrow>
      \<forall>(layer, k) \<in> set xs. arrives rc m tr (planned p s) (peer_ranks s) layer k (net layer k) \<Longrightarrow>
      map shape_of (concat opss) = concat (map (exchange_shape rc m s p) xs)" for xs
  proof (induction rule: list_all2_induct)
    case (Cons x xs y ys)
    obtain layer k where x: "x = (layer, k)" by fastforce
    have arr: "arrives rc m tr (planned p s) (peer_ranks s) layer k (net layer k)" using Cons.prems by (simp add: x)
    have "map shape_of y = exchange_shape rc m s p x"
      using Cons.hyps(1) length_answer [OF arr] by (auto simp: x stage_exchange_def exchange_shape_def)
    then show ?case using Cons by simp
  qed simp
  then show ?thesis using ops assms(2) by (simp add: step_shapes_def)
qed

text \<open>C27: a whole step of the FFN runner on a P2P FFN rank returns, and for every layer and stage - in the order
  of the layers and, within a layer, of the stages - each Attention peer of the subgroup is sent exactly the
  row-wise results of the rows it sent.\<close>
theorem ffn_step_answers_every_peer:
  assumes "0 < F" "F \<le> A" "0 \<le> f" "f < F" "ffn_connector A F f s" "p2p_ready s" "buffers_ok s"
    and "wf_dict (dp_metadata_list p)" "dp_metadata_list p \<noteq> []" "row_wise m ge gi gf"
    and "\<forall>(k, d) \<in> set (dp_metadata_list p). is_ok (make_ffn_dp_metadata rc s d)"
    and "\<forall>(layer, k) \<in> set (step_order rc m p). arrives rc m tr (planned p s) (peer_ranks s) layer k (net layer k)"
  shows "\<exists>t ops. ffn_forward rc m net moe0 True p s = (t, Inr ()) \<and> wire t = wire s @ ops \<and>
    step_exchanges rc m ge gi gf tr s p ops \<and> map shape_of ops = step_shapes rc m s p"
proof -
  let ?u = "update_state_from_dp_metadata p s"
  have ids: "set (runner_stage_ids (dp_metadata_list p)) = fst ` set (dp_metadata_list p)"
    by (rule stage_ids_keys [OF assms(8,9)])
  have serves: "serves ?u (planned p s) (set (runner_stage_ids (dp_metadata_list p)))"
    using serves_updated [OF assms(1,2,5,3,4,6-8)] by (simp add: ids planned_def [abs_def])
  have same: "make_ffn_dp_metadata rc ?u = make_ffn_dp_metadata rc s" "peer_ranks ?u = peer_ranks s"
    by (simp_all add: make_ffn_dp_metadata_def peer_ranks_def fun_eq_iff)
  obtain n ops where "ffn_forward rc m net moe0 False p ?u = (?u\<lparr>next_addr := n, wire := wire ?u @ ops\<rparr>, Inr ())"
      "step_exchanges rc m ge gi gf tr ?u p ops"
    using ffn_forward_run [OF serves assms(10,8,9), of rc tr net moe0] assms(11,12) by (auto simp: same)
  moreover have "ffn_forward rc m net moe0 True p s = ffn_forward rc m net moe0 False p ?u"
    by (simp add: ffn_forward_def)
  moreover have "step_exchanges rc m ge gi gf tr ?u p ops = step_exchanges rc m ge gi gf tr s p ops"
    by (simp add: step_exchanges_def stage_exchange_def [abs_def] same)
  moreover have "step_exchanges rc m ge gi gf tr s p ops \<Longrightarrow> map shape_of ops = step_shapes rc m s p"
    by (rule step_exchanges_shape [OF _ assms(12)])
  ultimately show ?thesis
    by (intro exI [of _ "?u\<lparr>next_addr := n, wire := wire ?u @ ops\<rparr>"] exI [of _ ops]) simp
qed

section \<open>A replayed step is the captured step\<close>

lemma step_key_eq:
  "step_key p = Inr (map (\<lambda>(k, d). (k, map KInt (num_tokens_across_dp_cpu d))) (sort_key fst (dp_metadata_list p)))"
proof -
  let ?conv = "\<lambda>(k, d). (k, Counted (ValueList (num_tokens_across_dp_cpu d)))"
  have keep: "fst (?conv x) = fst x" for x :: "int \<times> dp_metadata" by (cases x) simp
  have "sort_key fst (map ?conv (dp_metadata_list p)) = map ?conv (sort_key (\<lambda>x. fst (?conv x)) (dp_metadata_list p))"
    by (simp only: sort_key_map comp_def)
  then have "sort_key fst (map ?conv (dp_metadata_list p)) = map ?conv (sort_key fst (dp_metadata_list p))"
    by (simp only: keep)
  then show ?thesis
    by (auto simp: step_key_def make_ffn_graph_key_plain plain_key_def)
qed

lemma sorted_keys: "sort (map fst l) = map fst (sort_key fst l)" for l :: "(int \<times> 'a) list"
  using sort_key_map [of "\<lambda>x. x" fst l] by (simp add: comp_def)

text \<open>Equal keys: the same stages with the same counts.\<close>

lemma step_key_same:
  assumes "step_key p = step_key q" "wf_dict (dp_metadata_list p)" "wf_dict (dp_metadata_list q)"
  shows "runner_stage_ids (dp_metadata_list p) = runner_stage_ids (dp_metadata_list q) \<and>
    (\<forall>k \<in> fst ` set (dp_metadata_list p). num_tokens_across_dp_cpu (the (dict_get (dp_metadata_list p) k)) =
       num_tokens_across_dp_cpu (the (dict_get (dp_metadata_list q) k)))"
proof -
  let ?p = "dp_metadata_list p" and ?q = "dp_metadata_list q"
  let ?g = "\<lambda>(k, d). (k, map KInt (num_tokens_across_dp_cpu d))"
  have eq: "map ?g (sort_key fst ?p) = map ?g (sort_key fst ?q)" using assms(1) by (simp add: step_key_eq)
  have "map fst (map ?g xs) = map fst xs" for xs :: "(int \<times> dp_metadata) list" by (induction xs) auto
  then have "map fst (sort_key fst ?p) = map fst (sort_key fst ?q)" using arg_cong [OF eq, of "map fst"] by metis
  moreover have "?p = [] \<longleftrightarrow> ?q = []" using arg_cong [OF eq, of length] by auto
  ultimately have ids: "runner_stage_ids ?p = runner_stage_ids ?q" by (simp add: runner_stage_ids_def sorted_keys)
  have sets: "?g ` set ?p = ?g ` set ?q" using arg_cong [OF eq, of set] by simp
  have "num_tokens_across_dp_cpu (the (dict_get ?p k)) = num_tokens_across_dp_cpu (the (dict_get ?q k))"
    if k: "k \<in> fst ` set ?p" for k
  proof -
    from k obtain d where d: "(k, d) \<in> set ?p" by auto
    then have "?g (k, d) \<in> ?g ` set ?q" using sets by blast
    then obtain d' where d': "(k, d') \<in> set ?q" "map KInt (num_tokens_across_dp_cpu d) = map KInt (num_tokens_across_dp_cpu d')"
      by auto
    then show ?thesis using dict_get_in [OF assms(2) d] dict_get_in [OF assms(3) d'(1)] by (simp add: inj_map_eq_map inj_def)
  qed
  then show ?thesis using ids by blast
qed

lemma step_shapes_same:
  assumes "step_key p = step_key q" "wf_dict (dp_metadata_list p)" "wf_dict (dp_metadata_list q)" "dp_metadata_list p \<noteq> []"
  shows "step_shapes rc m s p = step_shapes rc m s q"
proof -
  note same = step_key_same [OF assms(1-3)]
  have order: "step_order rc m p = step_order rc m q" using same by (simp add: step_order_def)
  have "planned p s k src = planned q s k src" if "k \<in> fst ` set (dp_metadata_list p)" for k src
  proof -
    have cnt: "num_tokens_across_dp_cpu (the (dict_get (dp_metadata_list p) k)) =
        num_tokens_across_dp_cpu (the (dict_get (dp_metadata_list q) k))"
      using same that by blast
    show ?thesis
      by (simp only: planned_def peer_tokens_def num_tokens_for_attention_rank_def Let_def cnt)
  qed
  moreover have "k \<in> fst ` set (dp_metadata_list p)" if "(layer, k) \<in> set (step_order rc m p)" for layer k
    using that stage_ids_keys [OF assms(2,4)] by (auto simp: step_order_def)
  ultimately have "exchange_shape rc m s p x = exchange_shape rc m s q x" if "x \<in> set (step_order rc m p)" for x
    using that by (cases x) (simp add: exchange_shape_def)
  then show ?thesis unfolding step_shapes_def order by (metis (no_types, lifting) map_cong order)
qed

lemma close_update_wire [simp]:
  "make_ffn_dp_metadata rc (update_state_from_dp_metadata p s) = make_ffn_dp_metadata rc s"
  "peer_ranks (update_state_from_dp_metadata p s) = peer_ranks s"
  by (simp_all add: make_ffn_dp_metadata_def peer_ranks_def fun_eq_iff)

text \<open>C26: capturing a step returns, transmits nothing and stores a graph under the step's key; and whenever the
  runner later replays a step, with whatever rows, what it transmits are the transfers the replayed step's own
  token counts call for.\<close>
theorem replayed_step_is_the_captured_step:
  assumes "0 < F" "F \<le> A" "0 \<le> f" "f < F" "ffn_connector A F f (fr_conn r)" "p2p_ready (fr_conn r)" "buffers_ok (fr_conn r)"
    and "fr_use_cuda_graph r" "row_wise m ge gi gf" "p = make_dp_metadata_payload l capturing False False"
    and "wf_dict l" "l \<noteq> []" "\<forall>(k, d) \<in> set l. is_ok (make_ffn_dp_metadata rc (fr_conn r) d)"
    and "\<forall>(layer, k) \<in> set (step_order rc m p).
      arrives rc m tr (planned p (fr_conn r)) (peer_ranks (fr_conn r)) layer k (net layer k)"
    and "wf_dict l'" "step_key (make_dp_metadata_payload l' False False True) = step_key p"
    and "\<forall>g. map shape_of (device g) = g"
  shows "\<exists>r1. capture_model (ffn_forward rc m net moe0) (Some l) False capturing r = (r1, Inr ()) \<and>
    wire (fr_conn r1) = wire (fr_conn r) \<and> fr_use_cuda_graph r1 \<and>
    (\<forall>r2 fwd. fr_graphs r2 = fr_graphs r1 \<and> fr_use_cuda_graph r2 \<longrightarrow>
       (\<exists>r3 ops. execute_model device fwd (Some l') False False True r2 = (r3, Inr ()) \<and>
          wire (fr_conn r3) = wire (fr_conn r2) @ ops \<and>
          map shape_of ops = step_shapes rc m (fr_conn r) (make_dp_metadata_payload l' False False True)))"
proof -
  let ?s = "fr_conn r"
  let ?u = "update_state_from_dp_metadata p ?s"
  have l: "dp_metadata_list p = l" by (simp add: assms(10) make_dp_metadata_payload_def)
  have ids: "set (runner_stage_ids l) = fst ` set l" by (rule stage_ids_keys [OF assms(11,12)])
  have serves: "serves ?u (planned p ?s) (set (runner_stage_ids (dp_metadata_list p)))"
    using serves_updated [OF assms(1,2,5,3,4,6,7), of p] assms(11) by (simp add: ids planned_def [abs_def] l)
  obtain n ops where fwd: "ffn_forward rc m net moe0 False p ?u = (?u\<lparr>next_addr := n, wire := wire ?u @ ops\<rparr>, Inr ())"
      "step_exchanges rc m ge gi gf tr ?u p ops"
    using ffn_forward_run [OF serves assms(9), of rc tr net moe0] assms(11-14) by (auto simp: l)
  have "step_exchanges rc m ge gi gf tr ?s p ops"
    using fwd(2) by (simp add: step_exchanges_def stage_exchange_def [abs_def])
  then have shape: "map shape_of ops = step_shapes rc m ?s p" by (rule step_exchanges_shape [OF _ assms(14)])
  obtain key where key: "step_key p = Inr key" by (simp add: step_key_eq)
  let ?c = "?u\<lparr>next_addr := n, wire := wire ?s\<rparr>"
  have cap: "captured (ffn_forward rc m net moe0 False p) ?u = (?c, Inr (step_shapes rc m ?s p))"
    by (simp add: captured_def fwd(1) shape)
  let ?r1 = "r\<lparr>fr_graph_pool := True, fr_graph_capturing := False, fr_conn := ?c,
      fr_graphs := dict_put key (step_shapes rc m ?s p) (fr_graphs r)\<rparr>"
  have "capture_model (ffn_forward rc m net moe0) (Some l) False capturing r = (?r1, Inr ())"
    using assms(8)
    by (simp add: capture_model_def dummy_run_def Let_def op_finally_def op_bind_def key on_conn_def cap
        assms(10) [symmetric])
  moreover have "\<exists>r3 ops'. execute_model device fwd' (Some l') False False True r2 = (r3, Inr ()) \<and>
          wire (fr_conn r3) = wire (fr_conn r2) @ ops' \<and>
          map shape_of ops' = step_shapes rc m ?s (make_dp_metadata_payload l' False False True)"
    if r2: "fr_graphs r2 = fr_graphs ?r1" "fr_use_cuda_graph r2" for r2 fwd'
  proof -
    let ?q = "make_dp_metadata_payload l' False False True"
    have "step_shapes rc m ?s p = step_shapes rc m ?s ?q"
      by (rule step_shapes_same) (use assms(11,12,15,16) in \<open>simp_all add: l make_dp_metadata_payload_def\<close>)
    moreover have "execute_model device fwd' (Some l') False False True r2 =
        (r2\<lparr>fr_conn := (fr_conn r2)\<lparr>wire := wire (fr_conn r2) @ device (step_shapes rc m ?s p)\<rparr>\<rparr>, Inr ())"
      using r2 assms(16)
      by (simp add: execute_model_def Let_def op_bind_def key graph_run_mode_def on_conn_def replay_graph_def)
    ultimately show ?thesis using assms(17) by auto
  qed
  ultimately show ?thesis using assms(8) by (intro exI [of _ ?r1]) simp
qed

end
