(* ===== verification/Deepep_Layout.thy ===== *)
theory Deepep_Layout
  imports Graph
begin

text \<open>
  \<open>connectors/gpu/deepep_m2n/layout.py\<close> and the pure part of \<open>network.py\<close>: the union world of
  FFN and Attention ranks with the experts each FFN rank owns, and the network plan every rank
  derives from the gathered topologies.  Topology discovery reads the host name and NVML.
\<close>

section \<open>Layout\<close>

record layout =
  lay_ffn_size :: int
  lay_attn_size :: int
  lay_num_experts :: int

definition make_layout :: "int \<Rightarrow> int \<Rightarrow> int \<Rightarrow> layout result" where
  "make_layout F A E =
     (if F \<le> 0 \<or> A \<le> 0
      then Inl (ValueError ''DeepEP M2N needs at least one FFN and one Attention rank'')
      else if E mod F \<noteq> 0 then Inl (ValueError ''num_experts must be divisible by ffn_size'')
      else Inr \<lparr>lay_ffn_size = F, lay_attn_size = A, lay_num_experts = E\<rparr>)"

definition union_size :: "layout \<Rightarrow> int" where
  "union_size l = lay_ffn_size l + lay_attn_size l"

definition experts_per_rank :: "layout \<Rightarrow> int" where
  "experts_per_rank l = lay_num_experts l div lay_ffn_size l"

definition deepep_num_experts :: "layout \<Rightarrow> int" where
  "deepep_num_experts l = union_size l * experts_per_rank l"

definition check_rank :: "int \<Rightarrow> int \<Rightarrow> unit result" where
  "check_rank rank n = guard (\<not> (0 \<le> rank \<and> rank < n)) (ValueError ''rank must be in [0, size)'')"

definition layout_world_rank :: "layout \<Rightarrow> string \<Rightarrow> int \<Rightarrow> int result" where
  "layout_world_rank l r rank =
     (if r = ''ffn'' then bind_result (check_rank rank (lay_ffn_size l)) (\<lambda>_. Inr rank)
      else if r = ''attention''
      then bind_result (check_rank rank (lay_attn_size l)) (\<lambda>_. Inr (lay_ffn_size l + rank))
      else Inl (ValueError ''unknown AFD role''))"

definition expert_range :: "layout \<Rightarrow> int \<Rightarrow> int list result" where
  "expert_range l f =
     bind_result (check_rank f (lay_ffn_size l)) (\<lambda>_.
     let start = f * experts_per_rank l in Inr (py_range start (start + experts_per_rank l)))"

definition valid_layout :: "layout \<Rightarrow> bool" where
  "valid_layout l \<longleftrightarrow> 0 < lay_ffn_size l \<and> 0 < lay_attn_size l \<and> lay_num_experts l mod lay_ffn_size l = 0"

lemma make_layout_valid: "make_layout F A E = Inr l \<Longrightarrow> valid_layout l"
  by (auto simp: make_layout_def valid_layout_def split: if_splits)

lemma expert_range_in:
  "0 \<le> f \<Longrightarrow> f < lay_ffn_size l \<Longrightarrow>
   expert_range l f = Inr (py_range (f * experts_per_rank l) ((f + 1) * experts_per_rank l))"
  by (simp add: expert_range_def check_rank_def guard_def Let_def distrib_right)

lemma experts_total: "valid_layout l \<Longrightarrow> lay_ffn_size l * experts_per_rank l = lay_num_experts l"
  using mod_mult_div_eq [of "lay_num_experts l" "lay_ffn_size l"]
  by (simp add: valid_layout_def experts_per_rank_def)

lemma expert_owner:
  assumes "valid_layout l" "0 \<le> e" "e < lay_num_experts l" "0 \<le> f" "f < lay_ffn_size l"
  shows "e \<in> set (projr (expert_range l f)) \<longleftrightarrow> f = e div experts_per_rank l"
proof -
  let ?k = "experts_per_rank l"
  have "0 < lay_ffn_size l * ?k" using experts_total [OF assms(1)] assms(2,3) by simp
  then have k: "0 < ?k" using assms(1) by (simp add: valid_layout_def zero_less_mult_iff)
  have "e \<in> {f * ?k..<(f + 1) * ?k} \<longleftrightarrow> f = e div ?k"
  proof
    assume "e \<in> {f * ?k..<(f + 1) * ?k}"
    then have "0 \<le> e - f * ?k" "e - f * ?k < ?k" by (auto simp: distrib_right)
    then have "e div ?k = f" using k by (intro int_div_pos_eq [of e ?k f "e - f * ?k"]) auto
    then show "f = e div ?k" by simp
  next
    assume f: "f = e div ?k"
    have "e = f * ?k + e mod ?k" by (simp add: f)
    moreover have "0 \<le> e mod ?k" "e mod ?k < ?k" using k by simp_all
    ultimately show "e \<in> {f * ?k..<(f + 1) * ?k}" by (simp add: distrib_right)
  qed
  then show ?thesis by (simp add: expert_range_in assms(4,5))
qed

lemma experts_concat:
  assumes "valid_layout l" "0 \<le> lay_num_experts l"
  shows "concat (map (\<lambda>f. projr (expert_range l f)) (py_range 0 (lay_ffn_size l))) = py_range 0 (lay_num_experts l)"
proof -
  let ?k = "experts_per_rank l" and ?F = "lay_ffn_size l"
  have F: "0 < ?F" using assms(1) by (simp add: valid_layout_def)
  have k: "0 \<le> ?k" using assms(2) F by (simp add: experts_per_rank_def pos_imp_zdiv_nonneg_iff)
  have blocks: "map (\<lambda>f. projr (expert_range l f)) (py_range 0 ?F) = map (\<lambda>f. py_range (f * ?k) ((f + 1) * ?k)) (py_range 0 ?F)"
    by (auto simp: expert_range_in)
  show ?thesis unfolding blocks using concat_blocks [OF k, of ?F] F experts_total [OF assms(1)] by simp
qed

text \<open>In a layout the constructor accepts, every expert is owned by exactly one FFN rank, the ranges
  enumerate all experts in order, and no Attention dummy slot is a real expert.\<close>
theorem experts_partitioned:
  assumes "make_layout F A E = Inr l" "0 \<le> E"
  shows "concat (map (\<lambda>f. projr (expert_range l f)) (py_range 0 F)) = py_range 0 E \<and>
    (\<forall>e \<in> {0..<E}. \<exists>!f. f \<in> {0..<F} \<and> e \<in> set (projr (expert_range l f))) \<and>
    E \<le> deepep_num_experts l"
proof (intro conjI)
  have l: "lay_ffn_size l = F" "lay_num_experts l = E" "lay_attn_size l = A" "0 < F" "0 < A"
    using assms(1) by (auto simp: make_layout_def split: if_splits)
  note v = make_layout_valid [OF assms(1)]
  let ?k = "experts_per_rank l"
  have tot: "F * ?k = E" using experts_total [OF v] by (simp add: l)
  show "concat (map (\<lambda>f. projr (expert_range l f)) (py_range 0 F)) = py_range 0 E"
    using experts_concat [OF v] assms(2) by (simp add: l)
  show "\<forall>e \<in> {0..<E}. \<exists>!f. f \<in> {0..<F} \<and> e \<in> set (projr (expert_range l f))"
  proof
    fix e assume e: "e \<in> {0..<E}"
    then have "0 < F * ?k" by (simp add: tot)
    then have k: "0 < ?k" using l(4) by (simp add: zero_less_mult_iff)
    have "\<not> F \<le> e div ?k" using le_div_iff [OF k, of F e] e by (simp add: tot)
    then have own: "e div ?k \<in> {0..<F}" using e k by (simp add: pos_imp_zdiv_nonneg_iff)
    show "\<exists>!f. f \<in> {0..<F} \<and> e \<in> set (projr (expert_range l f))"
      using expert_owner [OF v, of e] e own by (intro ex1I [of _ "e div ?k"]) (auto simp: l)
  qed
  have "0 \<le> ?k" using assms(2) l(4) by (simp add: experts_per_rank_def l pos_imp_zdiv_nonneg_iff)
  then have "F * ?k \<le> (F + A) * ?k" using l(5) by (intro mult_right_mono) auto
  then show "E \<le> deepep_num_experts l" by (simp add: deepep_num_experts_def union_size_def l tot)
qed

section \<open>Network configuration and plan\<close>

record network_config =
  gin :: string
  hybrid :: string
  rdma_traffic_class :: int

definition GIN_MODES :: "string list" where
  "GIN_MODES = [''auto'', ''on'', ''off'']"

definition HYBRID_MODES :: "string list" where
  "HYBRID_MODES = [''auto'', ''on'', ''off'']"

definition validate_network :: "network_config \<Rightarrow> unit result" where
  "validate_network c =
     bind_result (guard (gin c \<notin> set GIN_MODES) (ValueError ''network.gin must be one of'')) (\<lambda>_.
     bind_result (guard (hybrid c \<notin> set HYBRID_MODES) (ValueError ''network.hybrid must be one of'')) (\<lambda>_.
     guard (rdma_traffic_class c < 0) (ValueError ''network.rdma_traffic_class must be non-negative'')))"

record rank_topology =
  rt_world_rank :: int
  rt_host :: string
  nvlink_domain :: string

record network_plan =
  num_domains :: int
  ranks_per_domain :: int
  use_gin :: bool
  plan_hybrid :: bool
  plan_traffic_class :: int

text \<open>One step of the grouping loop; the open block is the last one.\<close>

definition add_to_blocks :: "rank_topology \<Rightarrow> (string \<times> int list) list \<Rightarrow> (string \<times> int list) list" where
  "add_to_blocks t blocks =
     (if blocks \<noteq> [] \<and> fst (last blocks) = nvlink_domain t
      then butlast blocks @ [(fst (last blocks), snd (last blocks) @ [rt_world_rank t])]
      else blocks @ [(nvlink_domain t, [rt_world_rank t])])"

definition domain_blocks :: "rank_topology list \<Rightarrow> int list list result" where
  "domain_blocks ts =
     (let blocks = fold add_to_blocks ts [];
          names = map fst blocks;
          sizes = remdups (map (length \<circ> snd) blocks) in
      bind_result (guard (length (remdups names) \<noteq> length names)
        (RuntimeError ''ranks of one NVLink domain are not contiguous'')) (\<lambda>_.
      bind_result (guard (length sizes \<noteq> 1)
        (RuntimeError ''NVLink domains hold different rank counts'')) (\<lambda>_.
      Inr (map snd blocks))))"

definition plan_network :: "rank_topology list \<Rightarrow> network_config \<Rightarrow> network_plan result" where
  "plan_network topologies c =
     (let ts = sort_key rt_world_rank topologies in
      bind_result (domain_blocks ts) (\<lambda>domains.
      let multi_domain = (1 < length domains) in
      bind_result (guard (multi_domain \<and> gin c = ''off'')
        (RuntimeError ''network.gin=off, but the ranks span NVLink domains'')) (\<lambda>_.
      Inr \<lparr>num_domains = int (length domains), ranks_per_domain = int (length (hd domains)),
           use_gin = (if gin c = ''auto'' then multi_domain else gin c = ''on''),
           plan_hybrid = (hybrid c \<noteq> ''off''), plan_traffic_class = rdma_traffic_class c\<rparr>)))"

text \<open>The environment variable \<open>EP_DISABLE_GIN\<close> after \<open>apply_gin_environment\<close>.\<close>

definition apply_gin_environment :: "network_plan \<Rightarrow> (string \<times> string) list \<Rightarrow> (string \<times> string) list" where
  "apply_gin_environment p env =
     (if use_gin p then dict_pop ''EP_DISABLE_GIN'' env else dict_put ''EP_DISABLE_GIN'' ''1'' env)"

definition expand_blocks :: "(string \<times> int list) list \<Rightarrow> string list" where
  "expand_blocks bs = concat (map (\<lambda>(n, rs). replicate (length rs) n) bs)"

lemma expand_add: "expand_blocks (add_to_blocks t bs) = expand_blocks bs @ [nvlink_domain t]"
proof (cases "bs \<noteq> [] \<and> fst (last bs) = nvlink_domain t")
  case True
  then obtain pre n rs where "bs = pre @ [(n, rs)]" "n = nvlink_domain t"
    by (metis append_butlast_last_id prod.collapse)
  then show ?thesis by (simp add: add_to_blocks_def expand_blocks_def replicate_append_same)
qed (auto simp: add_to_blocks_def expand_blocks_def)

lemma expand_fold: "expand_blocks (fold add_to_blocks ts bs) = expand_blocks bs @ map nvlink_domain ts"
  by (induction ts arbitrary: bs) (simp_all add: expand_add)

lemma nth_concat_replicate:
  "i < length ns * k \<Longrightarrow> concat (map (replicate k) ns) ! i = ns ! (i div k) \<and> i div k < length ns"
proof (induction ns arbitrary: i)
  case (Cons n ns)
  show ?case
  proof (cases "i < k")
    case False
    then have k: "0 < k" using Cons.prems by (cases k) auto
    have "i - k < length ns * k" using False Cons.prems by auto
    moreover have "i div k = Suc ((i - k) div k)" using False k by (simp add: div_if)
    ultimately show ?thesis using Cons.IH [of "i - k"] False by (simp add: nth_append)
  qed (simp add: nth_append)
qed simp

lemma domain_blocks_ok:
  assumes "domain_blocks ts = Inr ds"
  obtains names k where "distinct names" "0 < length names" "length ds = length names"
    "\<forall>d \<in> set ds. length d = k" "map nvlink_domain ts = concat (map (replicate k) names)"
proof -
  let ?bs = "fold add_to_blocks ts []"
  have d: "distinct (map fst ?bs)" and s: "length (remdups (map (length \<circ> snd) ?bs)) = 1" and ds: "ds = map snd ?bs"
    using assms by (auto simp: domain_blocks_def Let_def result_simps length_remdups_eq)
  from s obtain k where k: "remdups (map (length \<circ> snd) ?bs) = [k]"
    by (auto simp: length_Suc_conv)
  then have "set (map (length \<circ> snd) ?bs) = {k}" by (metis list.simps(15) set_remdups empty_set)
  then have all: "\<forall>b \<in> set ?bs. length (snd b) = k" and ne: "?bs \<noteq> []" by auto
  have "map (\<lambda>(n, rs). replicate (length rs) n) bs = map (replicate k) (map fst bs)"
    if "\<forall>b \<in> set bs. length (snd b) = k" for bs :: "(string \<times> int list) list"
    using that by (induction bs) auto
  from this [OF all] have "expand_blocks ?bs = concat (map (replicate k) (map fst ?bs))"
    by (simp only: expand_blocks_def)
  then have "map nvlink_domain ts = concat (map (replicate k) (map fst ?bs))"
    using expand_fold [of ts "[]"] by (simp add: expand_blocks_def)
  then show ?thesis using d all ne by (intro that [of "map fst ?bs" k]) (auto simp: ds)
qed

lemma nth_block_eq:
  assumes "distinct names" "xs = concat (map (replicate k) names)" "i < length xs" "j < length xs"
  shows "xs ! i = xs ! j \<longleftrightarrow> i div k = j div k"
proof -
  have "length xs = length names * k" unfolding assms(2) by (induction names) auto
  then have "xs ! i = names ! (i div k)" "i div k < length names" "xs ! j = names ! (j div k)" "j div k < length names"
    using nth_concat_replicate [of i names k] nth_concat_replicate [of j names k] assms(2-4) by auto
  then show ?thesis using assms(1) by (simp add: nth_eq_iff_index_eq)
qed

text \<open>An accepted network plan splits the ranks, in world-rank order, into equal contiguous blocks
  that are exactly the NVLink domains, and leaves GIN off only when there is a single domain.\<close>
theorem network_plan_blocks:
  assumes "plan_network ts c = Inr p" "validate_network c = Inr ()"
  shows "num_domains p * ranks_per_domain p = int (length ts) \<and> 0 < num_domains p \<and>
    (\<forall>i < length ts. \<forall>j < length ts.
      nvlink_domain (sort_key rt_world_rank ts ! i) = nvlink_domain (sort_key rt_world_rank ts ! j) \<longleftrightarrow>
      int i div ranks_per_domain p = int j div ranks_per_domain p) \<and>
    (\<not> use_gin p \<longrightarrow> num_domains p = 1)"
proof -
  let ?ts = "sort_key rt_world_rank ts"
  obtain ds where ds: "domain_blocks ?ts = Inr ds" and gin: "1 < length ds \<Longrightarrow> gin c \<noteq> ''off''"
    and p: "num_domains p = int (length ds)" "ranks_per_domain p = int (length (hd ds))"
      "use_gin p = (if gin c = ''auto'' then 1 < length ds else gin c = ''on'')"
    using assms(1) by (auto simp: plan_network_def Let_def result_simps)
  obtain names k where n: "distinct names" "0 < length names" "length ds = length names"
    "\<forall>d \<in> set ds. length d = k" and xs: "map nvlink_domain ?ts = concat (map (replicate k) names)"
    using domain_blocks_ok [OF ds] by blast
  have k: "length (hd ds) = k" using n by (metis hd_in_set length_greater_0_conv)
  have "length (concat (map (replicate k) names)) = length names * k" by (induction names) auto
  then have len: "length ts = length ds * k" using arg_cong [OF xs, of length] n(3) by simp
  have "nvlink_domain (?ts ! i) = nvlink_domain (?ts ! j) \<longleftrightarrow> int i div int k = int j div int k"
    if "i < length ts" "j < length ts" for i j
    using nth_block_eq [OF n(1) xs, of i j] that by (simp flip: of_nat_div)
  moreover have "gin c \<in> {''auto'', ''on'', ''off''}"
    using assms(2) by (auto simp: validate_network_def GIN_MODES_def result_simps)
  moreover have "\<not> 1 < length ds \<longleftrightarrow> length ds = 1" using n(2,3) by linarith
  ultimately show ?thesis
    using n(2,3) gin by (auto simp: p k len)
qed

text \<open>Every rank derives the same network plan, in whatever order the topologies were gathered.\<close>
theorem network_plan_order_independent:
  assumes "distinct (map rt_world_rank ts)" "mset ts = mset ts'"
  shows "plan_network ts c = plan_network ts' c"
proof -
  have "inj_on rt_world_rank (set ts)" using assms(1) by (simp add: distinct_map)
  then have "sort_key rt_world_rank ts = sort_key rt_world_rank ts'"
    by (intro sort_key_inj_key_eq) (use assms(2) in auto)
  then show ?thesis by (simp add: plan_network_def)
qed

definition demo_topologies :: "rank_topology list" where
  "demo_topologies =
     [\<lparr>rt_world_rank = 2, rt_host = ''b'', nvlink_domain = ''host:b''\<rparr>,
      \<lparr>rt_world_rank = 0, rt_host = ''a'', nvlink_domain = ''host:a''\<rparr>,
      \<lparr>rt_world_rank = 3, rt_host = ''b'', nvlink_domain = ''host:b''\<rparr>,
      \<lparr>rt_world_rank = 1, rt_host = ''a'', nvlink_domain = ''host:a''\<rparr>]"

definition demo_network :: network_config where
  "demo_network = \<lparr>gin = ''auto'', hybrid = ''auto'', rdma_traffic_class = 3\<rparr>"

definition demo_plan :: network_plan where
  "demo_plan = \<lparr>num_domains = 2, ranks_per_domain = 2, use_gin = True, plan_hybrid = True, plan_traffic_class = 3\<rparr>"

lemma demo_plan: "plan_network demo_topologies demo_network = Inr demo_plan"
  by code_simp


end
