(* ===== verification/Deepep_Plan.thy ===== *)
theory Deepep_Plan
  imports Deepep_Layout Metadata
begin

text \<open>
  The pure planning functions of \<open>connectors/gpu/deepep_m2n/connector.py\<close>: the connector's
  configuration, the capacity and lane count, the dispatch bucket of a stage, the bucket ladder,
  and the set of kernels compiled at startup.  \<open>-(-a // b)\<close> is \<^const>\<open>ceil_div\<close>.
\<close>

section \<open>Configuration\<close>

definition PAYLOAD_FORMATS :: "string list" where
  "PAYLOAD_FORMATS = [''bf16'', ''fp8_block128_fp32'']"

definition EXPERT_BACKENDS :: "string list" where
  "EXPERT_BACKENDS = [''deepgemm'', ''fused_experts'']"

definition MAX_LANES :: int where
  "MAX_LANES = 2"

record deepep_config =
  capacity_tokens_per_rank :: "int option"
  num_lanes :: "int option"
  payload_format :: string
  expert_backend :: string
  dc_network :: network_config
  bucket_granularity :: int
  num_sms :: int
  num_qps :: int
  expert_num_sms :: int
  cpu_timeout_s :: int
  gpu_timeout_s :: int
  cpu_sync_min_tokens :: int

definition validate_deepep_config :: "deepep_config \<Rightarrow> unit result" where
  "validate_deepep_config c =
     bind_result (guard (case capacity_tokens_per_rank c of None \<Rightarrow> False | Some n \<Rightarrow> n \<le> 0)
       (ValueError ''capacity_tokens_per_rank must be positive'')) (\<lambda>_.
     bind_result (guard (case num_lanes c of None \<Rightarrow> False | Some n \<Rightarrow> \<not> (1 \<le> n \<and> n \<le> MAX_LANES))
       (ValueError ''num_lanes must be in [1, 2]'')) (\<lambda>_.
     bind_result (guard (payload_format c \<notin> set PAYLOAD_FORMATS) (ValueError ''payload_format must be one of'')) (\<lambda>_.
     bind_result (guard (expert_backend c \<notin> set EXPERT_BACKENDS) (ValueError ''expert_backend must be one of'')) (\<lambda>_.
     bind_result (guard (bucket_granularity c \<le> 0) (ValueError ''bucket_granularity must be positive'')) (\<lambda>_.
     bind_result (guard (num_sms c < 0) (ValueError ''num_sms must be non-negative'')) (\<lambda>_.
     bind_result (guard (expert_num_sms c < 0 \<or> expert_num_sms c mod 2 \<noteq> 0)
       (ValueError ''expert_num_sms must be a non-negative even number'')) (\<lambda>_.
     bind_result (guard (cpu_sync_min_tokens c < 0) (ValueError ''cpu_sync_min_tokens must be non-negative'')) (\<lambda>_.
     bind_result (guard (num_qps c < 0) (ValueError ''num_qps must be non-negative'')) (\<lambda>_.
     guard (cpu_timeout_s c \<le> 0 \<or> gpu_timeout_s c \<le> 0)
       (ValueError ''cpu_timeout_s and gpu_timeout_s must be positive''))))))))))"

definition resolve_capacity_tokens_per_rank :: "deepep_config \<Rightarrow> vllm_config \<Rightarrow> int result" where
  "resolve_capacity_tokens_per_rank c v =
     (case capacity_tokens_per_rank c of
        Some n \<Rightarrow> Inr n
      | None \<Rightarrow>
          if tensor_parallel_size v = 0 then Inl ZeroDivisionError
          else Inr (ceil_div (max (max_num_batched_tokens v) (max_cudagraph_capture_size v))
                      (tensor_parallel_size v)))"

definition resolve_num_lanes :: "deepep_config \<Rightarrow> vllm_config \<Rightarrow> int result" where
  "resolve_num_lanes c v =
     (case num_lanes c of
        Some n \<Rightarrow> Inr n
      | None \<Rightarrow>
          (let n = (if use_ubatching v then num_ubatches v else 1) in
           if n > MAX_LANES then Inl (ValueError ''DeepEP M2N supports at most 2 lanes'') else Inr n))"

section \<open>The plan of a stage\<close>

record stage_plan =
  plan_tokens :: "int list"
  plan_bucket :: int
  plan_sync :: bool
  plan_graph :: bool

definition tokens_per_attention_rank :: "dp_metadata \<Rightarrow> int \<Rightarrow> int \<Rightarrow> int list result" where
  "tokens_per_attention_rank d A tp =
     (let counts = num_tokens_across_dp_cpu d in
      if int (length counts) * tp \<noteq> A
      then Inl (ValueError ''DP metadata does not cover the Attention ranks'')
      else Inr (concat (map (\<lambda>n. replicate (nat tp) (ceil_div n tp)) counts)))"

text \<open>\<open>-(-n // g) * g\<close>.\<close>

definition round_up :: "int \<Rightarrow> int \<Rightarrow> int" where
  "round_up n g = ceil_div n g * g"

definition place_bucket :: "int \<Rightarrow> int list \<Rightarrow> int \<Rightarrow> int result" where
  "place_bucket capacity ladder b =
     (if ladder = [] \<or> last ladder < b then Inr capacity
      else case find (\<lambda>rung. b \<le> rung) ladder of Some rung \<Rightarrow> Inr rung | None \<Rightarrow> Inl StopIteration)"

definition plan_stage ::
  "dp_metadata \<Rightarrow> int \<Rightarrow> int \<Rightarrow> int \<Rightarrow> int \<Rightarrow> bool \<Rightarrow> int list \<Rightarrow> int \<Rightarrow> stage_plan result" where
  "plan_stage d A tp capacity granularity graph ladder cpu_sync_min =
     bind_result (tokens_per_attention_rank d A tp) (\<lambda>tokens.
     if tokens = [] then Inl (ValueError ''max() arg is an empty sequence'')
     else if granularity = 0 then Inl ZeroDivisionError
     else
       (let max_tokens = max 1 (Max (set tokens));
            b = round_up max_tokens granularity in
        if b > capacity then Inl (ValueError ''dispatch bucket exceeds capacity_tokens_per_rank'')
        else
          (let do_cpu_sync = (\<not> graph \<and> b \<ge> cpu_sync_min) in
           bind_result (place_bucket capacity ladder b) (\<lambda>final.
           Inr \<lparr>plan_tokens = tokens, plan_bucket = final, plan_sync = do_cpu_sync, plan_graph = graph\<rparr>))))"

definition no_sync_bucket_limit :: "int \<Rightarrow> int \<Rightarrow> int \<Rightarrow> int \<Rightarrow> int \<Rightarrow> int result" where
  "no_sync_bucket_limit capacity max_capture tp granularity cpu_sync_min =
     (if tp = 0 \<or> granularity = 0 then Inl ZeroDivisionError
      else
        (let graph_tokens = ceil_div max_capture tp;
             graph_bucket = round_up graph_tokens granularity
         in Inr (min capacity (max graph_bucket (cpu_sync_min - 1)))))"

definition bucket_ladder :: "int \<Rightarrow> int list \<Rightarrow> int \<Rightarrow> int \<Rightarrow> int \<Rightarrow> int list result" where
  "bucket_ladder capacity sizes tp granularity cpu_sync_min =
     bind_result (no_sync_bucket_limit capacity (if sizes = [] then 0 else Max (set sizes)) tp granularity cpu_sync_min)
       (\<lambda>limit.
     if limit < 1 then Inr []
     else
       (let rungs = filter (\<lambda>rung. 1 \<le> rung \<and> rung \<le> limit)
              (map (\<lambda>n. round_up (ceil_div n tp) granularity) sizes)
        in Inr (sort (remdups (limit # rungs)))))"

text \<open>\<open>tuple(dict.fromkeys(xs))\<close>: the first occurrence of every element.\<close>

definition unique :: "'a list \<Rightarrow> 'a list" where
  "unique xs = rev (remdups (rev xs))"

definition precompile_buckets :: "int list \<Rightarrow> int \<Rightarrow> int \<Rightarrow> (int \<times> bool) list" where
  "precompile_buckets ladder capacity cpu_sync_min =
     (let synced = map (\<lambda>rung. (rung, True)) (filter (\<lambda>rung. cpu_sync_min \<le> rung) ladder) @ [(capacity, True)];
          unsynced =
            (if 0 < cpu_sync_min \<and> ladder \<noteq> [] then
               (let covering = (case find (\<lambda>rung. cpu_sync_min - 1 \<le> rung) ladder of
                                  Some rung \<Rightarrow> rung | None \<Rightarrow> last ladder)
                in map (\<lambda>rung. (rung, False)) (filter (\<lambda>rung. rung \<le> covering) ladder))
             else [])
      in unique (synced @ unsynced))"

section \<open>Facts\<close>

lemma set_unique [simp]: "set (unique xs) = set xs"
  by (simp add: unique_def)

lemma round_up_ge: "0 < g \<Longrightarrow> n \<le> round_up n g"
  by (simp add: round_up_def ceil_div_ge)

lemma round_up_mono: "0 < g \<Longrightarrow> m \<le> n \<Longrightarrow> round_up m g \<le> round_up n g"
  by (simp add: round_up_def ceil_div_mono)

lemma find_sorted:
  assumes "sorted xs" "find (\<lambda>x. b \<le> x) xs = Some r"
  shows "r \<in> set xs" "b \<le> r" "\<And>x. x \<in> set xs \<Longrightarrow> (b::int) \<le> x \<Longrightarrow> r \<le> x"
  using assms by (induction xs) (auto split: if_splits)

lemma find_last: "xs \<noteq> [] \<Longrightarrow> (b::int) \<le> last xs \<Longrightarrow> \<exists>r. find (\<lambda>x. b \<le> x) xs = Some r"
  by (induction xs) (auto split: if_splits)

lemma place_bucket_cases:
  assumes "sorted ladder" "place_bucket capacity ladder b = Inr r"
  shows "r = capacity \<and> (ladder = [] \<or> last ladder < b) \<or>
    r \<in> set ladder \<and> b \<le> r \<and> (\<forall>x \<in> set ladder. b \<le> x \<longrightarrow> r \<le> x) \<and> b \<le> last ladder"
proof (cases "ladder = [] \<or> last ladder < b")
  case False
  then obtain rung where f: "find (\<lambda>x. b \<le> x) ladder = Some rung"
    using find_last [of ladder b] by auto
  then have "r = rung" using assms(2) False by (simp add: place_bucket_def)
  then show ?thesis using find_sorted [OF assms(1) f] False by auto
qed (use assms in \<open>simp add: place_bucket_def\<close>)

lemma place_bucket_total: "is_ok (place_bucket capacity ladder b)"
  using find_last [of ladder b] by (auto simp: place_bucket_def)

text \<open>The ladder: sorted rungs between 1 and the no-sync limit, which is the last one.\<close>

lemma last_sorted: "sorted xs \<Longrightarrow> (x::int) \<in> set xs \<Longrightarrow> (\<And>y. y \<in> set xs \<Longrightarrow> y \<le> x) \<Longrightarrow> last xs = x"
  by (induction xs) (auto intro: antisym)

definition max_capture :: "int list \<Rightarrow> int" where
  "max_capture sizes = (if sizes = [] then 0 else Max (set sizes))"

definition no_sync_limit :: "int \<Rightarrow> int list \<Rightarrow> int \<Rightarrow> int \<Rightarrow> int \<Rightarrow> int" where
  "no_sync_limit capacity sizes tp g cs =
     min capacity (max (round_up (ceil_div (max_capture sizes) tp) g) (cs - 1))"

lemma bucket_ladder_facts:
  assumes "bucket_ladder capacity sizes tp g cs = Inr L"
  shows "sorted L" "L = [] \<longleftrightarrow> no_sync_limit capacity sizes tp g cs < 1"
    "L \<noteq> [] \<Longrightarrow> last L = no_sync_limit capacity sizes tp g cs"
    "\<And>r. r \<in> set L \<Longrightarrow> 1 \<le> r \<and> r \<le> no_sync_limit capacity sizes tp g cs"
    "\<And>n. n \<in> set sizes \<Longrightarrow> 1 \<le> round_up (ceil_div n tp) g \<Longrightarrow>
       round_up (ceil_div n tp) g \<le> no_sync_limit capacity sizes tp g cs \<Longrightarrow> round_up (ceil_div n tp) g \<in> set L"
proof -
  let ?l = "no_sync_limit capacity sizes tp g cs"
  let ?rungs = "filter (\<lambda>r. 1 \<le> r \<and> r \<le> ?l) (map (\<lambda>n. round_up (ceil_div n tp) g) sizes)"
  have L: "L = (if ?l < 1 then [] else sort (remdups (?l # ?rungs)))"
    using assms
    by (auto simp: bucket_ladder_def no_sync_bucket_limit_def Let_def no_sync_limit_def max_capture_def
        result_simps split: if_splits)
  show "sorted L" by (simp add: L)
  have set_L: "set L = (if ?l < 1 then {} else insert ?l (set ?rungs))"
    unfolding L by (cases "?l < 1") (simp_all only: if_True if_False set_sort set_remdups list.set simp_thms)
  then show empty: "L = [] \<longleftrightarrow> ?l < 1" by (metis insert_not_empty set_empty)
  show *: "1 \<le> r \<and> r \<le> ?l" if "r \<in> set L" for r
    using that unfolding set_L by (cases "?l < 1") auto
  show "last L = ?l" if "L \<noteq> []"
  proof (rule last_sorted)
    show "?l \<in> set L" using that empty by (simp add: set_L)
  qed (use \<open>sorted L\<close> * in blast)+
  show "round_up (ceil_div n tp) g \<in> set L"
    if "n \<in> set sizes" "1 \<le> round_up (ceil_div n tp) g" "round_up (ceil_div n tp) g \<le> ?l" for n
  proof -
    have "\<not> ?l < 1" using that by linarith
    then show ?thesis unfolding set_L using that by simp
  qed
qed

text \<open>What a planned stage is made of.\<close>

lemma plan_stage_Inr:
  assumes "plan_stage d A tp capacity g graph ladder cs = Inr sp"
  obtains b where "b = round_up (max 1 (Max (set (plan_tokens sp)))) g" "b \<le> capacity" "g \<noteq> 0"
    "tokens_per_attention_rank d A tp = Inr (plan_tokens sp)" "plan_tokens sp \<noteq> []"
    "place_bucket capacity ladder b = Inr (plan_bucket sp)" "plan_sync sp \<longleftrightarrow> \<not> graph \<and> cs \<le> b"
    "plan_graph sp = graph"
  using assms by (auto simp: plan_stage_def result_simps Let_def split: if_splits)

lemma planned_bucket_pos: "0 < g \<Longrightarrow> 1 \<le> round_up (max 1 (m::int)) g"
  using round_up_ge [of g "max 1 m"] by linarith

text \<open>Every eager plan uses a bucket and host-sync mode of the startup list.\<close>

lemma eager_plan_precompiled:
  assumes "0 < g" "0 \<le> cs"
    and "bucket_ladder capacity sizes tp g cs = Inr L"
    and "plan_stage d A tp' capacity g False L cs = Inr sp"
  shows "(plan_bucket sp, plan_sync sp) \<in> set (precompile_buckets L capacity cs)"
proof -
  note L = bucket_ladder_facts [OF assms(3)]
  let ?l = "no_sync_limit capacity sizes tp g cs"
  obtain b where b: "b = round_up (max 1 (Max (set (plan_tokens sp)))) g" "b \<le> capacity"
    "place_bucket capacity L b = Inr (plan_bucket sp)" "plan_sync sp \<longleftrightarrow> cs \<le> b"
    by (rule plan_stage_Inr [OF assms(4)]) auto
  have b1: "1 \<le> b" unfolding b(1) by (rule planned_bucket_pos [OF assms(1)])
  note placed = place_bucket_cases [OF L(1) b(3)]
  show ?thesis
  proof (cases "cs \<le> b")
    case True
    with placed b(4) show ?thesis by (auto simp: precompile_buckets_def Let_def)
  next
    case False
    then have lim: "b \<le> ?l" "0 < cs" using b(2) assms(2) b1 by (auto simp: no_sync_limit_def)
    then have ne: "L \<noteq> []" using L(2) b1 by auto
    then have "b \<le> last L" using L(3) lim by simp
    with placed ne have r: "plan_bucket sp \<in> set L" "\<forall>x \<in> set L. b \<le> x \<longrightarrow> plan_bucket sp \<le> x" by auto
    have "plan_bucket sp \<le> (case find (\<lambda>rung. cs - 1 \<le> rung) L of Some rung \<Rightarrow> rung | None \<Rightarrow> last L)"
    proof (cases "find (\<lambda>rung. cs - 1 \<le> rung) L")
      case None
      then show ?thesis using r(2) \<open>b \<le> last L\<close> ne by simp
    next
      case (Some c)
      note c = find_sorted [OF L(1) Some]
      have "b \<le> c" using c(2) False by linarith
      with r(2) c(1) Some show ?thesis by simp
    qed
    then show ?thesis using r lim(2) ne b(4) False by (simp add: precompile_buckets_def Let_def)
  qed
qed

text \<open>C40: in a planned stage every Attention rank's tokens fit the dispatch bucket, the bucket fits the
  buffer capacity, and it comes from the ladder or is the capacity itself.\<close>
theorem planned_bucket_bounds:
  assumes "0 < g" "bucket_ladder capacity sizes tp g cs = Inr L"
    and "plan_stage d A tp capacity g graph L cs = Inr sp"
  shows "(\<forall>n \<in> set (plan_tokens sp). n \<le> plan_bucket sp) \<and> 1 \<le> plan_bucket sp \<and>
    plan_bucket sp \<le> capacity \<and> plan_bucket sp \<in> insert capacity (set L)"
proof -
  note L = bucket_ladder_facts [OF assms(2)]
  obtain b where b: "b = round_up (max 1 (Max (set (plan_tokens sp)))) g" "b \<le> capacity"
    "place_bucket capacity L b = Inr (plan_bucket sp)"
    by (rule plan_stage_Inr [OF assms(3)]) auto
  have ge: "max 1 (Max (set (plan_tokens sp))) \<le> b" unfolding b(1) by (rule round_up_ge [OF assms(1)])
  have mx: "n \<le> Max (set (plan_tokens sp))" if "n \<in> set (plan_tokens sp)" for n using that by simp
  then have tok: "n \<le> b" if "n \<in> set (plan_tokens sp)" for n using ge mx [OF that] by linarith
  have le: "r \<le> capacity" if "r \<in> set L" for r using L(4) [OF that] by (simp add: no_sync_limit_def)
  from place_bucket_cases [OF L(1) b(3)] show ?thesis
    using tok b(2) ge le by (auto intro: order_trans)
qed

text \<open>All ranks plan the same dispatch bucket for a stage, whether they run it as a graph step or
  fall back to eager execution.\<close>
theorem bucket_independent_of_mode:
  "map_sum id (\<lambda>sp. (plan_tokens sp, plan_bucket sp)) (plan_stage d A tp capacity g graph L cs) =
   map_sum id (\<lambda>sp. (plan_tokens sp, plan_bucket sp)) (plan_stage d A tp capacity g graph' L cs)"
  by (auto simp: plan_stage_def bind_result_def Let_def split: sum.split)

text \<open>A graph step's tokens were padded to a capture size.\<close>

definition graph_counts :: "dp_metadata \<Rightarrow> int list \<Rightarrow> bool" where
  "graph_counts d sizes \<longleftrightarrow> set (num_tokens_across_dp_cpu d) \<subseteq> {..max_capture sizes}"

lemma tokens_le_slice:
  assumes "tokens_per_attention_rank d A tp = Inr ts" "n \<in> set ts" "0 < tp" "graph_counts d sizes"
  shows "n \<le> ceil_div (max_capture sizes) tp"
proof -
  obtain c where "c \<in> set (num_tokens_across_dp_cpu d)" "n = ceil_div c tp"
    using assms(1,2) by (auto simp: tokens_per_attention_rank_def Let_def split: if_splits)
  then show ?thesis using assms(3,4) by (auto simp: graph_counts_def intro: ceil_div_mono)
qed

text \<open>A step without the host sync (a graph step, or an eager step below the threshold) dispatches
  with a rung of the ladder, never above the no-sync limit for which receive space is reserved.\<close>
theorem unsynced_steps_stay_on_ladder:
  assumes "0 < g" "0 < tp" "1 \<le> max_capture sizes \<or> \<not> graph"
    and "bucket_ladder capacity sizes tp g cs = Inr L"
    and "plan_stage d A tp capacity g graph L cs = Inr sp" "\<not> plan_sync sp"
    and "graph \<longrightarrow> graph_counts d sizes"
  shows "plan_bucket sp \<in> set L \<and>
    no_sync_bucket_limit capacity (max_capture sizes) tp g cs = Inr (last L) \<and> plan_bucket sp \<le> last L"
proof -
  note L = bucket_ladder_facts [OF assms(4)]
  let ?l = "no_sync_limit capacity sizes tp g cs"
  obtain b where b: "b = round_up (max 1 (Max (set (plan_tokens sp)))) g" "b \<le> capacity"
    "tokens_per_attention_rank d A tp = Inr (plan_tokens sp)" "plan_tokens sp \<noteq> []"
    "place_bucket capacity L b = Inr (plan_bucket sp)" "plan_sync sp \<longleftrightarrow> \<not> graph \<and> cs \<le> b"
    by (rule plan_stage_Inr [OF assms(5)]) auto
  have b1: "1 \<le> b" unfolding b(1) by (rule planned_bucket_pos [OF assms(1)])
  have "b \<le> max (round_up (ceil_div (max_capture sizes) tp) g) (cs - 1)"
  proof (cases graph)
    case True
    have "Max (set (plan_tokens sp)) \<le> ceil_div (max_capture sizes) tp"
      using tokens_le_slice [OF b(3) _ assms(2)] assms(7) True b(4) by simp
    moreover have "1 \<le> ceil_div (max_capture sizes) tp"
      using ceil_div_pos [OF assms(2), of "max_capture sizes"] assms(3) True by auto
    ultimately have "b \<le> round_up (ceil_div (max_capture sizes) tp) g"
      unfolding b(1) by (intro round_up_mono assms(1)) simp
    then show ?thesis by simp
  next
    case False
    then show ?thesis using assms(6) b(6) by auto
  qed
  then have bl: "b \<le> ?l" using b(2) by (simp add: no_sync_limit_def)
  then have ne: "L \<noteq> []" using L(2) b1 by auto
  with place_bucket_cases [OF L(1) b(5)] bl L(3) have r: "plan_bucket sp \<in> set L" by auto
  have "no_sync_bucket_limit capacity (max_capture sizes) tp g cs = Inr ?l"
    using assms(1,2) by (simp add: no_sync_bucket_limit_def no_sync_limit_def Let_def)
  then show ?thesis using r L(3,4) ne by simp
qed

text \<open>A graph step whose largest token count is a capture size dispatches with exactly its own
  rounded slice: the ladder adds no padding.\<close>
theorem graph_step_fits_its_rung:
  assumes "0 < g" "0 < tp" "bucket_ladder capacity sizes tp g cs = Inr L"
    and "plan_stage d A tp capacity g True L cs = Inr sp"
    and "graph_counts d sizes" "n \<in> set sizes" "0 < n" "Max (set (plan_tokens sp)) = ceil_div n tp"
  shows "plan_bucket sp = round_up (ceil_div n tp) g"
proof -
  note L = bucket_ladder_facts [OF assms(3)]
  let ?l = "no_sync_limit capacity sizes tp g cs"
  obtain b where b: "b = round_up (max 1 (Max (set (plan_tokens sp)))) g" "b \<le> capacity"
    "place_bucket capacity L b = Inr (plan_bucket sp)"
    by (rule plan_stage_Inr [OF assms(4)]) auto
  have one: "1 \<le> ceil_div n tp" using ceil_div_pos [OF assms(2,7)] by simp
  then have beq: "b = round_up (ceil_div n tp) g" by (simp add: b(1) assms(8))
  have b1: "1 \<le> b" unfolding b(1) by (rule planned_bucket_pos [OF assms(1)])
  have "n \<le> max_capture sizes" using assms(6) by (auto simp: max_capture_def)
  then have "b \<le> round_up (ceil_div (max_capture sizes) tp) g"
    unfolding beq by (intro round_up_mono ceil_div_mono assms(1,2))
  then have "b \<le> ?l" using b(2) by (simp add: no_sync_limit_def)
  then have "b \<in> set L" using L(5) [OF assms(6)] b1 by (simp add: beq)
  then have "L \<noteq> []" by auto
  with L(3) \<open>b \<le> ?l\<close> have "b \<le> last L" by simp
  with place_bucket_cases [OF L(1) b(3)] \<open>b \<in> set L\<close> \<open>L \<noteq> []\<close> show ?thesis by (force simp: beq)
qed

text \<open>The planned token counts list one slice per Attention rank, and the slices of the TP peers of
  every DP rank cover that rank's tokens with less than one row of padding per peer.\<close>
theorem slices_cover_dp_tokens:
  assumes "tokens_per_attention_rank d A tp = Inr ts" "0 < tp"
    and "0 \<le> k" "k < int (length (num_tokens_across_dp_cpu d))" "0 \<le> i" "i < tp"
  shows "int (length ts) = A \<and>
    ts ! nat (k * tp + i) = ceil_div (num_tokens_across_dp_cpu d ! nat k) tp \<and>
    num_tokens_across_dp_cpu d ! nat k \<le> tp * ts ! nat (k * tp + i) \<and>
    tp * ts ! nat (k * tp + i) < num_tokens_across_dp_cpu d ! nat k + tp"
proof -
  let ?c = "num_tokens_across_dp_cpu d"
  have ts: "ts = concat (map (replicate (nat tp)) (map (\<lambda>n. ceil_div n tp) ?c))" and A: "A = int (length ?c) * tp"
    using assms(1) by (auto simp: tokens_per_attention_rank_def Let_def comp_def split: if_splits)
  have idx: "nat (k * tp + i) = nat k * nat tp + nat i"
    using assms by (simp add: nat_add_distrib nat_mult_distrib)
  have "nat i < nat tp" using assms(2,5,6) by linarith
  then have div: "nat (k * tp + i) div nat tp = nat k" by (simp add: idx)
  have len: "length (concat (map (replicate m) xs)) = length xs * m" for m and xs :: "int list"
    by (induction xs) auto
  have "nat k * nat tp + nat i < Suc (nat k) * nat tp" using \<open>nat i < nat tp\<close> by simp
  also have "\<dots> \<le> length ?c * nat tp" using assms(3,4) by (intro mult_right_mono) auto
  finally have "nat (k * tp + i) < length (map (\<lambda>n. ceil_div n tp) ?c) * nat tp" by (simp add: idx)
  then have "ts ! nat (k * tp + i) = map (\<lambda>n. ceil_div n tp) ?c ! nat k"
    using nth_concat_replicate [of "nat (k * tp + i)" "map (\<lambda>n. ceil_div n tp) ?c" "nat tp"] by (simp add: ts div)
  moreover have "nat k < length ?c" using assms(3,4) by linarith
  ultimately have "ts ! nat (k * tp + i) = ceil_div (?c ! nat k) tp" by simp
  moreover have "int (length ts) = A" unfolding ts A len using assms(2) by simp
  ultimately show ?thesis
    using ceil_div_ge [OF assms(2), of "?c ! nat k"] ceil_div_lt [OF assms(2), of "?c ! nat k"]
    by (simp add: mult.commute)
qed

section \<open>Applications\<close>

definition demo_counts :: dp_metadata where
  "demo_counts = \<lparr>num_tokens_across_dp_cpu = [5, 8], max_tokens_across_dp_cpu = 8, local_sizes = None\<rparr>"

definition demo_stage :: "bool \<Rightarrow> stage_plan" where
  "demo_stage graph = \<lparr>plan_tokens = [3, 3, 4, 4], plan_bucket = 4, plan_sync = False, plan_graph = graph\<rparr>"

lemma demo_ladder: "bucket_ladder 16 [2, 8] 2 2 6 = Inr [2, 4, 5]"
  by code_simp

lemma demo_planned: "plan_stage demo_counts 4 2 16 2 False [2, 4, 5] 6 = Inr (demo_stage False)"
  "plan_stage demo_counts 4 2 16 2 True [2, 4, 5] 6 = Inr (demo_stage True)"
  by code_simp+

lemma demo_graph_counts: "graph_counts demo_counts [2, 8]"
  by (simp add: graph_counts_def demo_counts_def max_capture_def)

theorem planned_bucket_bounds_witness: "plan_tokens (demo_stage False) ! 2 \<le> plan_bucket (demo_stage False) \<and> (4::int) \<le> 16"
  using planned_bucket_bounds [OF _ demo_ladder demo_planned(1)] by (simp add: demo_stage_def)


lemma demo_slices: "tokens_per_attention_rank demo_counts 4 2 = Inr [3, 3, 4, 4]"
  by code_simp


end
