(* ===== verification/Deepep_Handshake.thy ===== *)
theory Deepep_Handshake
  imports Deepep_Plan
begin

text \<open>
  The handshake of \<open>connectors/gpu/deepep_m2n/connector.py\<close>: what every rank reports before any
  buffer is allocated and after the weights are loaded, and the checks that every rank runs on the
  gathered reports.  Sets of \<open>str(value)\<close> are sets of the values: the rendered types are integers,
  booleans, strings and the network settings.
\<close>

section \<open>Reports\<close>

record ffn_deployment =
  fd_expert_parallel :: bool
  fd_ep_size :: int
  fd_tensor_parallel_size :: int
  fd_expert_placement_strategy :: string
  fd_eplb :: bool
  fd_all2all_backend :: string
  fd_weight_format :: string

definition expert_weight_format :: "quant \<Rightarrow> string" where
  "expert_weight_format q =
     (case q of
        NoQuant \<Rightarrow> ''bf16''
      | Fp8Quant block name \<Rightarrow>
          if block = Some [128, 128] then ''fp8_block128'' else ''unsupported ('' @ name @ '')''
      | OtherQuant name \<Rightarrow> ''unsupported ('' @ name @ '')'')"

definition ffn_deployment_info :: "vllm_config \<Rightarrow> ffn_deployment" where
  "ffn_deployment_info v =
     \<lparr>fd_expert_parallel = enable_expert_parallel v,
      fd_ep_size = data_parallel_size v * tensor_parallel_size v,
      fd_tensor_parallel_size = tensor_parallel_size v,
      fd_expert_placement_strategy = expert_placement_strategy v, fd_eplb = enable_eplb v,
      fd_all2all_backend = all2all_backend v, fd_weight_format = expert_weight_format (quant_config v)\<rparr>"

record handshake_info =
  hs_protocol :: string
  hs_role :: string
  hs_role_rank :: int
  hs_world_rank :: int
  hs_sm :: "int \<times> int"
  hs_payload_format :: string
  hs_hidden_size :: int
  hs_dtype :: dtype
  hs_num_experts :: int
  hs_top_k :: int
  hs_num_lanes :: int
  hs_capacity :: "int option"
  hs_ladder :: "int list option"
  hs_bucket_granularity :: int
  hs_cpu_sync_min_tokens :: int
  hs_attn_tp_size :: "int option"
  hs_compute_gate :: bool
  hs_network :: network_config
  hs_expert_alignment :: "int option"
  hs_ffn_deployment :: "ffn_deployment option"
  hs_topology :: rank_topology

definition local_handshake_info ::
  "string \<Rightarrow> int \<Rightarrow> int \<Rightarrow> deepep_config \<Rightarrow> int \<Rightarrow> dtype \<Rightarrow> int \<Rightarrow> int \<Rightarrow> int \<Rightarrow> int option \<Rightarrow> int list option \<Rightarrow>
   int option \<Rightarrow> bool \<Rightarrow> int option \<Rightarrow> ffn_deployment option \<Rightarrow> int \<times> int \<Rightarrow> rank_topology \<Rightarrow> handshake_info" where
  "local_handshake_info r rank wr c hidden dt experts top_k lanes capacity ladder tp gate alignment deployment sm topology =
     \<lparr>hs_protocol = ''deepep_m2n/2'', hs_role = r, hs_role_rank = rank, hs_world_rank = wr, hs_sm = sm,
      hs_payload_format = payload_format c, hs_hidden_size = hidden, hs_dtype = dt,
      hs_num_experts = experts, hs_top_k = top_k, hs_num_lanes = lanes, hs_capacity = capacity,
      hs_ladder = ladder, hs_bucket_granularity = bucket_granularity c,
      hs_cpu_sync_min_tokens = cpu_sync_min_tokens c, hs_attn_tp_size = tp, hs_compute_gate = gate,
      hs_network = dc_network c, hs_expert_alignment = alignment, hs_ffn_deployment = deployment,
      hs_topology = topology\<rparr>"

record handshake_result =
  hr_expert_alignment :: int
  hr_network_plan :: network_plan
  hr_attn_tp_size :: int
  hr_capacity :: int
  hr_ladder :: "int list"

section \<open>Checks before allocation\<close>

definition MIN_SM_MAJOR :: int where
  "MIN_SM_MAJOR = 9"

definition weight_format_for :: "string \<Rightarrow> string result" where
  "weight_format_for payload =
     (if payload = ''bf16'' then Inr ''bf16''
      else if payload = ''fp8_block128_fp32'' then Inr ''fp8_block128''
      else Inl KeyError)"

definition expected_deployment :: "layout \<Rightarrow> string \<Rightarrow> ffn_deployment" where
  "expected_deployment l weight_format =
     \<lparr>fd_expert_parallel = True, fd_ep_size = lay_ffn_size l, fd_tensor_parallel_size = 1,
      fd_expert_placement_strategy = ''linear'', fd_eplb = False,
      fd_all2all_backend = ''allgather_reducescatter'', fd_weight_format = weight_format\<rparr>"

definition check_ffn_deployment :: "ffn_deployment option \<Rightarrow> layout \<Rightarrow> string \<Rightarrow> unit result" where
  "check_ffn_deployment deployment l payload =
     (case deployment of
        None \<Rightarrow> Inl (RuntimeError ''FFN world rank sent no deployment info'')
      | Some d \<Rightarrow>
          bind_result (weight_format_for payload) (\<lambda>w.
          guard (d \<noteq> expected_deployment l w) (RuntimeError ''FFN world rank is deployed with'')))"

definition check_rank_info :: "layout \<Rightarrow> int \<times> handshake_info \<Rightarrow> unit result" where
  "check_rank_info l = (\<lambda>(wr, info).
     bind_result (guard (hs_world_rank info \<noteq> wr \<or>
         hs_role info \<noteq> (if wr < lay_ffn_size l then ''ffn'' else ''attention''))
       (RuntimeError ''world rank reported another role or rank'')) (\<lambda>_.
     guard (fst (hs_sm info) < MIN_SM_MAJOR) (RuntimeError ''DeepEP M2N needs SM90 or newer'')))"

definition agree :: "(handshake_info \<Rightarrow> 'a) \<Rightarrow> handshake_info list \<Rightarrow> bool" where
  "agree f infos = (length (remdups (map f infos)) = 1)"

definition check_must_match :: "handshake_info list \<Rightarrow> unit result" where
  "check_must_match infos =
     guard (\<not> (agree hs_protocol infos \<and> agree hs_payload_format infos \<and> agree hs_hidden_size infos \<and>
               agree hs_dtype infos \<and> agree hs_num_experts infos \<and> agree hs_top_k infos \<and>
               agree hs_num_lanes infos \<and> agree hs_compute_gate infos \<and> agree hs_network infos \<and>
               agree hs_bucket_granularity infos \<and> agree hs_cpu_sync_min_tokens infos))
       (RuntimeError ''ranks disagree on'')"

text \<open>\<open>len(values) != 1 or None in values\<close>, else the value.\<close>

definition single :: "error \<Rightarrow> 'a option list \<Rightarrow> 'a result" where
  "single e xs = (case remdups xs of [Some x] \<Rightarrow> Inr x | _ \<Rightarrow> Inl e)"

definition validate_handshake ::
  "handshake_info list \<Rightarrow> layout \<Rightarrow> network_config \<Rightarrow> handshake_result result" where
  "validate_handshake infos l network =
     bind_result (guard (int (length infos) \<noteq> union_size l) (RuntimeError ''handshake has another number of ranks'')) (\<lambda>_.
     bind_result (map_result (check_rank_info l) (zip (py_range 0 (int (length infos))) infos)) (\<lambda>_.
     bind_result (check_must_match infos) (\<lambda>_.
     bind_result (guard (\<not> hs_compute_gate (hd infos)) (RuntimeError ''DeepEP M2N routes tokens on Attention'')) (\<lambda>_.
     let ffn = take (nat (lay_ffn_size l)) infos;
         attn = drop (nat (lay_ffn_size l)) infos in
     bind_result (map_result (\<lambda>i. check_ffn_deployment (hs_ffn_deployment i) l (hs_payload_format i)) ffn) (\<lambda>_.
     bind_result (single (RuntimeError ''FFN ranks disagree on expert_alignment'') (map hs_expert_alignment ffn)) (\<lambda>alignment.
     bind_result (single (RuntimeError ''Attention ranks disagree on their TP size'') (map hs_attn_tp_size attn)) (\<lambda>tp.
     bind_result (guard (tp \<le> 0 \<or> lay_attn_size l mod tp \<noteq> 0)
       (RuntimeError ''Attention TP size does not divide the Attention ranks'')) (\<lambda>_.
     bind_result (single (RuntimeError ''ranks disagree on capacity_tokens_per_rank'')
       (map hs_capacity attn @ filter (\<lambda>c. c \<noteq> None) (map hs_capacity ffn))) (\<lambda>capacity.
     bind_result (single (RuntimeError ''Attention ranks disagree on bucket_ladder'') (map hs_ladder attn)) (\<lambda>ladder.
     bind_result (plan_network (map hs_topology infos) network) (\<lambda>plan.
     Inr \<lparr>hr_expert_alignment = alignment, hr_network_plan = plan, hr_attn_tp_size = tp,
          hr_capacity = capacity, hr_ladder = ladder\<rparr>)))))))))))"

section \<open>Checks after loading\<close>

record described_experts =
  de_ids :: "int list"
  de_w13 :: tensor_info
  de_w2 :: tensor_info
  de_w13_scale :: "tensor_info option"
  de_w2_scale :: "tensor_info option"

record model_info =
  mi_moe_layers :: "int list"
  mi_experts :: "(int, described_experts) dict option"

definition describe_experts :: "ffn_local_experts \<Rightarrow> described_experts" where
  "describe_experts e =
     \<lparr>de_ids = expert_ids e, de_w13 = w13 (weights e), de_w2 = w2 (weights e),
      de_w13_scale = w13_scale (weights e), de_w2_scale = w2_scale (weights e)\<rparr>"

definition local_model_info ::
  "int list option \<Rightarrow> (int, ffn_local_experts) dict option \<Rightarrow> model_info option" where
  "local_model_info layers experts =
     (case layers of
        None \<Rightarrow> None
      | Some ls \<Rightarrow> Some \<lparr>mi_moe_layers = ls,
          mi_experts = map_option (map (\<lambda>(layer, e). (layer, describe_experts e))) experts\<rparr>)"

definition expected_expert_tensors :: "int \<Rightarrow> int \<Rightarrow> int \<Rightarrow> string \<Rightarrow> int list \<Rightarrow> described_experts" where
  "expected_expert_tensors n hidden intermediate payload ids =
     (let hidden_blocks = ceil_div hidden 128;
          intermediate_blocks = ceil_div intermediate 128;
          fp8 = (payload \<noteq> ''bf16'');
          dt = (if fp8 then FP8_E4M3 else BF16) in
      \<lparr>de_ids = ids,
       de_w13 = \<lparr>ti_dtype = dt, ti_shape = [n, 2 * intermediate, hidden]\<rparr>,
       de_w2 = \<lparr>ti_dtype = dt, ti_shape = [n, hidden, intermediate]\<rparr>,
       de_w13_scale = (if fp8 then Some \<lparr>ti_dtype = FP32, ti_shape = [n, ceil_div (2 * intermediate) 128, hidden_blocks]\<rparr> else None),
       de_w2_scale = (if fp8 then Some \<lparr>ti_dtype = FP32, ti_shape = [n, hidden_blocks, intermediate_blocks]\<rparr> else None)\<rparr>)"

definition check_layer_experts :: "layout \<Rightarrow> int \<Rightarrow> string \<Rightarrow> int list \<Rightarrow> described_experts \<Rightarrow> unit result" where
  "check_layer_experts l hidden payload expected_ids e =
     (if de_ids e \<noteq> expected_ids then
        Inl (if expected_ids = [] then IndexError else RuntimeError ''FFN rank holds other experts than DeepEP M2N routes to it'')
      else
        bind_result (py_get (ti_shape (de_w2 e)) 2) (\<lambda>intermediate.
        guard (e \<noteq> expected_expert_tensors (experts_per_rank l) hidden intermediate payload expected_ids)
          (RuntimeError ''expert tensors do not match payload_format'')))"

definition check_ffn_model :: "layout \<Rightarrow> int \<Rightarrow> string \<Rightarrow> int list \<Rightarrow> int \<times> model_info option \<Rightarrow> unit result" where
  "check_ffn_model l hidden payload moe_layers = (\<lambda>(wr, info).
     case info of
       None \<Rightarrow> Inl (RuntimeError ''FFN world rank reported no local experts'')
     | Some i \<Rightarrow>
         (case mi_experts i of
            None \<Rightarrow> Inl (RuntimeError ''FFN world rank reported no local experts'')
          | Some experts \<Rightarrow>
              bind_result (guard (sort (map fst experts) \<noteq> sort moe_layers)
                (RuntimeError ''FFN world rank holds experts for other layers'')) (\<lambda>_.
              bind_result (expert_range l wr) (\<lambda>ids.
              bind_result (map_result (\<lambda>(_, e). check_layer_experts l hidden payload ids e) experts) (\<lambda>_. Inr ())))))"

definition validate_model_infos ::
  "model_info option list \<Rightarrow> layout \<Rightarrow> int \<Rightarrow> string \<Rightarrow> unit result" where
  "validate_model_infos infos l hidden payload =
     (let reported = List.map_filter id infos in
      if reported = [] then Inr ()
      else if length (remdups (map mi_moe_layers reported)) \<noteq> 1
      then Inl (RuntimeError ''ranks disagree on MoE layers'')
      else
        (let moe_layers = mi_moe_layers (hd reported) in
         bind_result (map_result (\<lambda>wr. bind_result (py_get infos wr) (\<lambda>info.
             check_ffn_model l hidden payload moe_layers (wr, info)))
           (py_range 0 (lay_ffn_size l))) (\<lambda>_. Inr ())))"

section \<open>What a passed handshake means\<close>

lemma remdups_single: "remdups xs = [v] \<Longrightarrow> xs \<noteq> [] \<and> (\<forall>x \<in> set xs. x = v)"
proof -
  assume "remdups xs = [v]"
  from arg_cong [OF this, of set] have "set xs = {v}" by simp
  then show ?thesis by auto
qed

lemma single_Inr: "single e xs = Inr y \<Longrightarrow> xs \<noteq> [] \<and> (\<forall>x \<in> set xs. x = Some y)"
  by (rule remdups_single) (auto simp: single_def split: list.splits option.splits)

lemma agree_eq:
  assumes "agree f infos" "x \<in> set infos" "y \<in> set infos"
  shows "f x = f y"
proof -
  from assms(1) obtain v where "remdups (map f infos) = [v]" by (auto simp: agree_def length_Suc_conv)
  from remdups_single [OF this] assms(2,3) show ?thesis by simp
qed

lemma map_result_all: "map_result f xs = Inr ys \<Longrightarrow> x \<in> set xs \<Longrightarrow> \<exists>y \<in> set ys. f x = Inr y"
  by (induction xs arbitrary: ys) (auto simp: result_simps)

definition common_terms :: "handshake_info \<Rightarrow> handshake_info \<Rightarrow> bool" where
  "common_terms i j \<longleftrightarrow>
     hs_protocol i = hs_protocol j \<and> hs_payload_format i = hs_payload_format j \<and>
     hs_hidden_size i = hs_hidden_size j \<and> hs_dtype i = hs_dtype j \<and>
     hs_num_experts i = hs_num_experts j \<and> hs_top_k i = hs_top_k j \<and> hs_num_lanes i = hs_num_lanes j \<and>
     hs_compute_gate i \<and> hs_compute_gate j \<and> hs_network i = hs_network j \<and>
     hs_bucket_granularity i = hs_bucket_granularity j \<and> hs_cpu_sync_min_tokens i = hs_cpu_sync_min_tokens j"

definition ffn_terms :: "layout \<Rightarrow> handshake_result \<Rightarrow> handshake_info \<Rightarrow> bool" where
  "ffn_terms l r i \<longleftrightarrow>
     hs_role i = ''ffn'' \<and> hs_expert_alignment i = Some (hr_expert_alignment r) \<and>
     (hs_capacity i = None \<or> hs_capacity i = Some (hr_capacity r)) \<and>
     (\<exists>w. weight_format_for (hs_payload_format i) = Inr w \<and> hs_ffn_deployment i = Some (expected_deployment l w))"

definition attention_terms :: "layout \<Rightarrow> handshake_result \<Rightarrow> handshake_info \<Rightarrow> bool" where
  "attention_terms l r i \<longleftrightarrow>
     hs_role i = ''attention'' \<and> hs_attn_tp_size i = Some (hr_attn_tp_size r) \<and>
     hs_capacity i = Some (hr_capacity r) \<and> hs_ladder i = Some (hr_ladder r)"

lemma validate_handshake_parts:
  assumes "validate_handshake infos l network = Inr r"
  shows "int (length infos) = union_size l"
    "map_result (check_rank_info l) (zip (py_range 0 (int (length infos))) infos) \<noteq> Inl e"
    "check_must_match infos = Inr ()" "hs_compute_gate (hd infos)"
    "\<exists>us. map_result (\<lambda>i. check_ffn_deployment (hs_ffn_deployment i) l (hs_payload_format i))
       (take (nat (lay_ffn_size l)) infos) = Inr us"
    "single (RuntimeError ''FFN ranks disagree on expert_alignment'')
       (map hs_expert_alignment (take (nat (lay_ffn_size l)) infos)) = Inr (hr_expert_alignment r)"
    "single (RuntimeError ''Attention ranks disagree on their TP size'')
       (map hs_attn_tp_size (drop (nat (lay_ffn_size l)) infos)) = Inr (hr_attn_tp_size r)"
    "0 < hr_attn_tp_size r \<and> lay_attn_size l mod hr_attn_tp_size r = 0"
    "single (RuntimeError ''ranks disagree on capacity_tokens_per_rank'')
       (map hs_capacity (drop (nat (lay_ffn_size l)) infos) @
        filter (\<lambda>c. c \<noteq> None) (map hs_capacity (take (nat (lay_ffn_size l)) infos))) = Inr (hr_capacity r)"
    "single (RuntimeError ''Attention ranks disagree on bucket_ladder'')
       (map hs_ladder (drop (nat (lay_ffn_size l)) infos)) = Inr (hr_ladder r)"
    "plan_network (map hs_topology infos) network = Inr (hr_network_plan r)"
  using assms by (auto simp: validate_handshake_def result_simps Let_def not_le)

text \<open>C24: when the handshake passes, every rank is where its world rank says, all ranks share the terms
  the transport depends on, every FFN rank is deployed so that it loads the experts DeepEP routes to
  it, and the Attention ranks agree on the TP size, capacity and ladder every rank will plan with.\<close>
theorem handshake_agreement:
  assumes "validate_handshake infos l network = Inr r" "valid_layout l" "i < length infos"
  shows "int (length infos) = union_size l \<and> hs_world_rank (infos ! i) = int i \<and>
    9 \<le> fst (hs_sm (infos ! i)) \<and> common_terms (infos ! i) (hd infos) \<and>
    (if int i < lay_ffn_size l then ffn_terms l r (infos ! i) else attention_terms l r (infos ! i)) \<and>
    0 < hr_attn_tp_size r \<and> lay_attn_size l mod hr_attn_tp_size r = 0"
proof -
  note p = validate_handshake_parts [OF assms(1)]
  let ?n = "nat (lay_ffn_size l)"
  let ?i = "infos ! i"
  have len: "length infos = nat (lay_ffn_size l + lay_attn_size l)" using p(1) by (simp add: union_size_def)
  have F: "0 < lay_ffn_size l" using assms(2) by (simp add: valid_layout_def)
  have "(int i, ?i) \<in> set (zip (py_range 0 (int (length infos))) infos)"
    using assms(3) by (force simp: set_zip)
  moreover obtain us where "map_result (check_rank_info l) (zip (py_range 0 (int (length infos))) infos) = Inr us"
    using p(2) by (cases "map_result (check_rank_info l) (zip (py_range 0 (int (length infos))) infos)") auto
  ultimately have rank: "check_rank_info l (int i, ?i) = Inr ()" using map_result_all by fastforce
  then have r1: "hs_world_rank ?i = int i" "9 \<le> fst (hs_sm ?i)"
      "hs_role ?i = (if int i < lay_ffn_size l then ''ffn'' else ''attention'')"
    by (auto simp: check_rank_info_def result_simps MIN_SM_MAJOR_def not_less split: if_splits)
  have mem: "?i \<in> set infos" "hd infos \<in> set infos" using assms(3) by (auto intro: hd_in_set)
  have common: "common_terms ?i (hd infos)"
  proof -
    note all = p(3) [unfolded check_must_match_def guard_Inr not_not]
    have "hs_compute_gate ?i = hs_compute_gate (hd infos)" by (rule agree_eq [OF _ mem]) (use all in simp)
    then show ?thesis
      unfolding common_terms_def using all p(4) by (simp add: agree_eq [OF _ mem])
  qed
  have side: "if int i < lay_ffn_size l then ffn_terms l r ?i else attention_terms l r ?i"
  proof (cases "int i < lay_ffn_size l")
    case True
    then have "i < ?n" by linarith
    then have m: "?i \<in> set (take ?n infos)"
      using assms(3) by (metis in_set_conv_nth length_take min_less_iff_conj nth_take)
    have al: "hs_expert_alignment ?i = Some (hr_expert_alignment r)"
      using single_Inr [OF p(6)] m by auto
    have cap: "hs_capacity ?i = None \<or> hs_capacity ?i = Some (hr_capacity r)"
      using single_Inr [OF p(9)] m by auto
    obtain us where "map_result (\<lambda>i. check_ffn_deployment (hs_ffn_deployment i) l (hs_payload_format i)) (take ?n infos) = Inr us"
      using p(5) by blast
    from map_result_all [OF this m]
    have "check_ffn_deployment (hs_ffn_deployment ?i) l (hs_payload_format ?i) = Inr ()" by auto
    then have "\<exists>w. weight_format_for (hs_payload_format ?i) = Inr w \<and> hs_ffn_deployment ?i = Some (expected_deployment l w)"
      by (auto simp: check_ffn_deployment_def result_simps split: option.splits)
    with True r1(3) al cap show ?thesis by (simp add: ffn_terms_def)
  next
    case False
    then have "?n \<le> i" using F by linarith
    then have "drop ?n infos ! (i - ?n) = ?i" "i - ?n < length (drop ?n infos)" using assms(3) by simp_all
    then have m: "?i \<in> set (drop ?n infos)" by (metis nth_mem)
    then have "hs_attn_tp_size ?i = Some (hr_attn_tp_size r)" "hs_capacity ?i = Some (hr_capacity r)"
      "hs_ladder ?i = Some (hr_ladder r)"
      using single_Inr [OF p(7)] single_Inr [OF p(9)] single_Inr [OF p(10)] by auto
    with False r1(3) show ?thesis by (simp add: attention_terms_def)
  qed
  show ?thesis using p(1,8) r1 common side by simp
qed

definition held_experts :: "model_info option list \<Rightarrow> int \<Rightarrow> int \<Rightarrow> described_experts option" where
  "held_experts infos layer f =
     Option.bind (infos ! nat f) (\<lambda>i. Option.bind (mi_experts i) (\<lambda>ex. dict_get ex layer))"

lemma check_ffn_model_layer:
  assumes "check_ffn_model l hidden payload moe_layers (f, info) = Inr ()" "layer \<in> set moe_layers"
  shows "\<exists>i ex e intermediate ids. info = Some i \<and> mi_experts i = Some ex \<and> dict_get ex layer = Some e \<and>
    expert_range l f = Inr ids \<and> e = expected_expert_tensors (experts_per_rank l) hidden intermediate payload ids"
proof -
  obtain i ex ids us where i: "info = Some i" "mi_experts i = Some ex" "sort (map fst ex) = sort moe_layers"
      "expert_range l f = Inr ids" "map_result (\<lambda>(_, e). check_layer_experts l hidden payload ids e) ex = Inr us"
    using assms(1) by (auto simp: check_ffn_model_def result_simps split: option.splits)
  have "set (map fst ex) = set moe_layers" by (metis i(3) set_sort)
  then have "dict_get ex layer \<noteq> None" using assms(2) dict_get_None [of ex layer] by simp
  then obtain e where e: "dict_get ex layer = Some e" by blast
  have "check_layer_experts l hidden payload ids e = Inr ()"
    using map_result_all [OF i(5) dict_get_mem [OF e]] by auto
  then show ?thesis using i e by (auto simp: check_layer_experts_def result_simps split: if_splits)
qed

text \<open>C25: when the check after loading passes and any rank reported, every FFN rank holds every MoE layer,
  the FFN ranks together hold each expert of the layer exactly once, in rank order, and their
  tensors have the shapes and types of the payload format.\<close>
theorem loaded_experts_cover_the_model:
  assumes "validate_model_infos infos l hidden payload = Inr ()" "valid_layout l" "0 \<le> lay_num_experts l"
    and "Some info \<in> set infos" "layer \<in> set (mi_moe_layers info)"
  shows "concat (map (\<lambda>f. de_ids (the (held_experts infos layer f))) (py_range 0 (lay_ffn_size l))) =
      py_range 0 (lay_num_experts l) \<and>
    (\<forall>f \<in> {0..<lay_ffn_size l}. \<exists>intermediate. held_experts infos layer f =
      Some (expected_expert_tensors (experts_per_rank l) hidden intermediate payload (projr (expert_range l f))))"
proof -
  let ?rep = "List.map_filter id infos"
  have mem: "info \<in> set ?rep" using assms(4) by (force simp: List.map_filter_def)
  then have ne: "?rep \<noteq> []" by auto
  let ?check = "\<lambda>wr. bind_result (py_get infos wr) (\<lambda>info.
             check_ffn_model l hidden payload (mi_moe_layers (hd ?rep)) (wr, info))"
  obtain us where one: "length (remdups (map mi_moe_layers ?rep)) = 1"
      and us: "map_result ?check (py_range 0 (lay_ffn_size l)) = Inr us"
    using assms(1) unfolding validate_model_infos_def Let_def if_not_P [OF ne]
    by (cases "length (remdups (map mi_moe_layers ?rep)) = 1") (simp_all add: bind_result_Inr, blast)
  from one obtain v where "remdups (map mi_moe_layers ?rep) = [v]" by (auto simp: length_Suc_conv)
  from remdups_single [OF this] have layers: "mi_moe_layers (hd ?rep) = mi_moe_layers info"
    using mem hd_in_set [OF ne] by simp
  have held: "\<exists>intermediate. held_experts infos layer f =
      Some (expected_expert_tensors (experts_per_rank l) hidden intermediate payload (projr (expert_range l f)))"
    if f: "0 \<le> f" "f < lay_ffn_size l" for f
  proof -
    from map_result_all [OF us, of f] f obtain u where "?check f = Inr u" by auto
    then obtain inf where "py_get infos f = Inr inf"
        and c: "check_ffn_model l hidden payload (mi_moe_layers info) (f, inf) = Inr ()"
      by (auto simp: result_simps layers)
    then have "infos ! nat f = inf" using f(1) by (auto simp: py_get_def Let_def split: if_splits)
    with check_ffn_model_layer [OF c assms(5)] show ?thesis by (auto simp: held_experts_def)
  qed
  have "de_ids (the (held_experts infos layer f)) = projr (expert_range l f)" if "f \<in> set (py_range 0 (lay_ffn_size l))" for f
    using held [of f] that by (auto simp: expected_expert_tensors_def Let_def)
  then have "map (\<lambda>f. de_ids (the (held_experts infos layer f))) (py_range 0 (lay_ffn_size l)) =
      map (\<lambda>f. projr (expert_range l f)) (py_range 0 (lay_ffn_size l))"
    by (intro map_cong refl)
  then have "concat (map (\<lambda>f. de_ids (the (held_experts infos layer f))) (py_range 0 (lay_ffn_size l))) =
      py_range 0 (lay_num_experts l)"
    by (simp only: experts_concat [OF assms(2,3)])
  then show ?thesis using held by auto
qed

section \<open>Applications\<close>

definition demo_layout :: layout where
  "demo_layout = \<lparr>lay_ffn_size = 2, lay_attn_size = 2, lay_num_experts = 4\<rparr>"

definition demo_deepep_config :: deepep_config where
  "demo_deepep_config =
     \<lparr>capacity_tokens_per_rank = None, num_lanes = None, payload_format = ''bf16'', expert_backend = ''deepgemm'',
      dc_network = demo_network, bucket_granularity = 2, num_sms = 0, num_qps = 0, expert_num_sms = 0,
      cpu_timeout_s = 120, gpu_timeout_s = 120, cpu_sync_min_tokens = 6\<rparr>"

definition demo_info :: "int \<Rightarrow> rank_topology \<Rightarrow> handshake_info" where
  "demo_info wr t =
     (let ffn = (wr < 2) in
      local_handshake_info (if ffn then ''ffn'' else ''attention'') (wr mod 2) wr demo_deepep_config 64 BF16 4 2 2
        (if ffn then None else Some 16) (if ffn then None else Some [2, 4, 5]) (if ffn then None else Some 2) True
        (if ffn then Some 128 else None)
        (if ffn then Some (expected_deployment demo_layout ''bf16'') else None) (9, 0) t)"

definition demo_infos :: "handshake_info list" where
  "demo_infos = map2 demo_info [0, 1, 2, 3] (sort_key rt_world_rank demo_topologies)"

definition demo_result :: handshake_result where
  "demo_result = \<lparr>hr_expert_alignment = 128, hr_network_plan = demo_plan, hr_attn_tp_size = 2, hr_capacity = 16,
     hr_ladder = [2, 4, 5]\<rparr>"

lemma demo_handshake: "validate_handshake demo_infos demo_layout demo_network = Inr demo_result"
  by code_simp

lemma demo_layout_valid: "valid_layout demo_layout"
  by (simp add: valid_layout_def demo_layout_def)

theorem handshake_agreement_witness:
  "attention_terms demo_layout demo_result (demo_infos ! 3) \<and> common_terms (demo_infos ! 3) (hd demo_infos)"
proof -
  have "3 < length demo_infos" by code_simp
  from handshake_agreement [OF demo_handshake demo_layout_valid this] show ?thesis
    by (simp add: demo_layout_def)
qed

definition demo_loaded :: "int \<Rightarrow> model_info option" where
  "demo_loaded f = Some \<lparr>mi_moe_layers = [3],
     mi_experts = Some [(3, expected_expert_tensors 2 64 32 ''bf16'' [2 * f, 2 * f + 1])]\<rparr>"

lemma demo_models: "validate_model_infos [demo_loaded 0, demo_loaded 1, None, None] demo_layout 64 ''bf16'' = Inr ()"
  by code_simp

theorem loaded_experts_cover_the_model_witness:
  "concat (map (\<lambda>f. de_ids (the (held_experts [demo_loaded 0, demo_loaded 1, None, None] 3 f))) (py_range 0 2)) = py_range 0 4"
proof -
  have "Some \<lparr>mi_moe_layers = [3], mi_experts = Some [(3, expected_expert_tensors 2 64 32 ''bf16'' [0, 1])]\<rparr>
      \<in> set [demo_loaded 0, demo_loaded 1, None, None]" by (simp add: demo_loaded_def)
  from loaded_experts_cover_the_model [OF demo_models demo_layout_valid _ this, of 3] show ?thesis
    by (simp add: demo_layout_def)
qed

end
