(* ===== verification/Deepep_Connector.thy ===== *)
theory Deepep_Connector
  imports Deepep_Handshake Ffn_Tokens
begin

text \<open>
  The connector object and the control plane of \<open>connectors/gpu/deepep_m2n/connector.py\<close>.  Every
  stage has a lane; work is issued on CUDA streams, and the model keeps the sequence of stream
  operations, newest last: what runs after what on the device is a matter of that sequence.
  afdEP's buffers, the collectives and the device are the environment's.
\<close>

section \<open>Streams\<close>

datatype stream = Caller | LaneStream int

record handle =
  h_id :: int
  h_rows :: int
  h_cols :: int

text \<open>
  An operation and the stream it is queued on: a dispatch with its bucket and host-sync mode, the
  experts of a lane, a combine of a handle, a copy to the caller's tensor, recording an event,
  waiting for an event, and waiting for all work queued on another stream.
\<close>

datatype stream_op =
    Dispatch stream int int bool
  | Experts stream int
  | Combine stream int handle
  | CopyOut stream int
  | RecordEvent stream int
  | WaitEvent stream int
  | WaitStream stream stream

fun stream_of :: "stream_op \<Rightarrow> stream" where
  "stream_of (Dispatch s _ _ _) = s"
| "stream_of (Experts s _) = s"
| "stream_of (Combine s _ _) = s"
| "stream_of (CopyOut s _) = s"
| "stream_of (RecordEvent s _) = s"
| "stream_of (WaitEvent s _) = s"
| "stream_of (WaitStream s _) = s"

text \<open>CUDA's ordering: program order on a stream, an event's record before its waits, transitively.\<close>

inductive ordered :: "stream_op list \<Rightarrow> nat \<Rightarrow> nat \<Rightarrow> bool" for log where
  same: "i < j \<Longrightarrow> j < length log \<Longrightarrow> stream_of (log ! i) = stream_of (log ! j) \<Longrightarrow> ordered log i j"
| event: "i < j \<Longrightarrow> j < length log \<Longrightarrow> log ! i = RecordEvent s e \<Longrightarrow> log ! j = WaitEvent s' e \<Longrightarrow> ordered log i j"
| wait: "i < j \<Longrightarrow> j < length log \<Longrightarrow> log ! j = WaitStream s s' \<Longrightarrow> stream_of (log ! i) = s' \<Longrightarrow> ordered log i j"
| trans: "ordered log i j \<Longrightarrow> ordered log j k \<Longrightarrow> ordered log i k"

section \<open>State\<close>

record deepep_state =
  ds_config :: deepep_config
  ds_afd :: afd_config
  ds_vllm :: vllm_config
  ds_role_rank :: int
  ds_hidden_size :: int
  ds_top_k :: int
  ds_dtype :: dtype
  ds_layout :: layout
  ds_world_rank :: int
  ds_attn_tp_size :: "int option"
  ds_capacity :: "int option"
  ds_bucket_ladder :: "int list option"
  ds_num_lanes :: int
  ds_bootstrap_group :: "int option"
  ds_group :: "int option"
  ds_network_plan :: "network_plan option"
  ds_lanes :: "int list"
  ds_lane_streams :: "int list"
  ds_experts :: bool
  ds_expert_alignment :: int
  ds_stage_plans :: "(int, stage_plan) dict"
  ds_pending_combines :: "(int, handle) dict"
  ds_lane_done :: "(int, int) dict"
  ds_step_fork :: "int option"
  ds_step_fork_capturing :: bool
  ds_lanes_joined :: "int list"
  ds_combine_zeros :: "(int \<times> int) option"
  ds_op_id :: int
  ds_registry :: "int list"
  ds_initialized :: bool
  ds_closed :: bool
  ds_environ :: "(string, string) dict"
  ds_aborted :: "int list"
  ds_destroyed :: "int list"
  ds_next_event :: int
  ds_log :: "stream_op list"

definition is_ffn :: "deepep_state \<Rightarrow> bool" where
  "is_ffn s = (role (ds_afd s) = PStr ''ffn'')"

definition is_fp8_payload :: "deepep_state \<Rightarrow> bool" where
  "is_fp8_payload s = (payload_format (ds_config s) = ''fp8_block128_fp32'')"

text \<open>The constructor.  \<open>hidden\<close>, \<open>top_k\<close>, \<open>dt\<close> and \<open>experts\<close> are read from the model configuration.\<close>

definition make_deepep_connector ::
  "vllm_config \<Rightarrow> afd_config \<Rightarrow> int \<Rightarrow> deepep_config \<Rightarrow> int \<Rightarrow> int \<Rightarrow> dtype \<Rightarrow> int \<Rightarrow> int \<Rightarrow> (string, string) dict \<Rightarrow>
   int list \<Rightarrow> deepep_state result" where
  "make_deepep_connector v c rank cfg hidden top_k dt experts op_id environ registry =
     bind_result (guard (dt \<noteq> BF16) (ValueError ''DeepEP M2N needs a bfloat16 model'')) (\<lambda>_.
     bind_result (make_layout (num_ffn_ranks c) (num_attention_ranks c) experts) (\<lambda>l.
     let ffn = (role c = PStr ''ffn'') in
     bind_result (guard (payload_format cfg = ''fp8_block128_fp32'' \<and> hidden mod 128 \<noteq> 0)
       (ValueError ''FP8 payload needs hidden_size % 128 == 0'')) (\<lambda>_.
     bind_result (case role c of PStr r \<Rightarrow> layout_world_rank l r rank | _ \<Rightarrow> Inl (ValueError ''unknown AFD role'')) (\<lambda>wr.
     bind_result (if ffn then Inr (capacity_tokens_per_rank cfg)
                  else bind_result (resolve_capacity_tokens_per_rank cfg v) (\<lambda>n. Inr (Some n))) (\<lambda>cap.
     bind_result (if ffn then Inr None
                  else bind_result (bucket_ladder (the cap) (cudagraph_capture_sizes v) (tensor_parallel_size v)
                         (bucket_granularity cfg) (cpu_sync_min_tokens cfg)) (\<lambda>ladder. Inr (Some ladder))) (\<lambda>ladder.
     bind_result (resolve_num_lanes cfg v) (\<lambda>lanes.
     Inr \<lparr>ds_config = cfg, ds_afd = c, ds_vllm = v, ds_role_rank = rank, ds_hidden_size = hidden,
          ds_top_k = top_k, ds_dtype = dt, ds_layout = l, ds_world_rank = wr,
          ds_attn_tp_size = (if ffn then None else Some (tensor_parallel_size v)), ds_capacity = cap,
          ds_bucket_ladder = ladder, ds_num_lanes = lanes, ds_bootstrap_group = None, ds_group = None,
          ds_network_plan = None, ds_lanes = [], ds_lane_streams = [], ds_experts = False,
          ds_expert_alignment = 1, ds_stage_plans = [], ds_pending_combines = [], ds_lane_done = [],
          ds_step_fork = None, ds_step_fork_capturing = False, ds_lanes_joined = [],
          ds_combine_zeros = None, ds_op_id = op_id, ds_registry = registry, ds_initialized = False,
          ds_closed = False, ds_environ = environ, ds_aborted = [], ds_destroyed = [],
          ds_next_event = 0, ds_log = []\<rparr>)))))))"

text \<open>
  The environment: process groups, the all-gathers (given this rank's contribution), opening a
  lane's buffer, and each buffer's dispatch and combine, which may depend on everything issued
  before.  A dispatch gives a handle with the shape of the received rows; a combine gives the
  shape of its output.
\<close>

record deepep_env =
  env_join :: "string \<Rightarrow> int result"
  env_gather_infos :: "handshake_info \<Rightarrow> handshake_info list result"
  env_gather_models :: "model_info option \<Rightarrow> model_info option list result"
  env_open_lane :: "int \<Rightarrow> int result"
  env_dispatch :: "int \<Rightarrow> int \<Rightarrow> bool \<Rightarrow> stream_op list \<Rightarrow> handle result"
  env_combine :: "int \<Rightarrow> handle \<Rightarrow> stream_op list \<Rightarrow> (int \<times> int) result"
  env_alignment :: int
  env_sm :: "int \<times> int"
  env_topology :: rank_topology

section \<open>Stream primitives\<close>

definition emit :: "stream_op list \<Rightarrow> (deepep_state, unit) op" where
  "emit ops = op_modify (\<lambda>s. s\<lparr>ds_log := ds_log s @ ops\<rparr>)"

text \<open>A new event recorded on a stream.\<close>

definition record_event :: "stream \<Rightarrow> (deepep_state, int) op" where
  "record_event st = (\<lambda>s.
     (s\<lparr>ds_log := ds_log s @ [RecordEvent st (ds_next_event s)], ds_next_event := ds_next_event s + 1\<rparr>,
      Inr (ds_next_event s)))"

definition check_initialized :: "(deepep_state, unit) op" where
  "check_initialized = op_lift (\<lambda>s. guard (\<not> ds_initialized s)
     (RuntimeError ''DeepEPM2NAFDConnector is not initialized''))"

definition check_lane :: "int \<Rightarrow> (deepep_state, unit) op" where
  "check_lane stage = op_lift (\<lambda>s. guard (\<not> (0 \<le> stage \<and> stage < int (length (ds_lanes s))))
     (RuntimeError ''stage has no lane''))"

definition lane_stream :: "int \<Rightarrow> (deepep_state, stream) op" where
  "lane_stream stage =
     op_bind (check_lane stage) (\<lambda>_.
     op_get (\<lambda>s. if ds_lane_streams s = [] then Caller else LaneStream stage))"

definition fork_to :: "stream \<Rightarrow> (deepep_state, unit) op" where
  "fork_to st = (if st \<noteq> Caller then emit [WaitStream st Caller] else op_return ())"

definition reset_step_fork :: "deepep_state \<Rightarrow> deepep_state" where
  "reset_step_fork s = s\<lparr>ds_step_fork := None, ds_step_fork_capturing := False, ds_lanes_joined := []\<rparr>"

text \<open>\<open>capturing\<close> is whether the caller's stream is being captured now.\<close>

definition join_step :: "bool \<Rightarrow> int \<Rightarrow> stream \<Rightarrow> (deepep_state, unit) op" where
  "join_step capturing lane st =
     (if st = Caller then op_return ()
      else
        op_bind (op_modify (\<lambda>s. if ds_step_fork s \<noteq> None \<and> capturing \<noteq> ds_step_fork_capturing s
                                then reset_step_fork s else s)) (\<lambda>_.
        op_bind (op_get (\<lambda>s. lane \<in> set (ds_lanes_joined s))) (\<lambda>joined.
        if joined then op_return ()
        else
          op_bind (op_get ds_step_fork) (\<lambda>fork.
          op_bind (case fork of
                     Some e \<Rightarrow> op_return e
                   | None \<Rightarrow> op_bind (record_event Caller) (\<lambda>e.
                       op_bind (op_modify (\<lambda>s. s\<lparr>ds_step_fork := Some e, ds_step_fork_capturing := capturing\<rparr>))
                         (\<lambda>_. op_return e))) (\<lambda>e.
          op_bind (emit [WaitEvent st e]) (\<lambda>_.
          op_modify (\<lambda>s. s\<lparr>ds_lanes_joined := lane # ds_lanes_joined s\<rparr>)))))))"

definition dispatch :: "deepep_env \<Rightarrow> stream \<Rightarrow> int \<Rightarrow> (deepep_state, handle) op" where
  "dispatch env st stage =
     op_bind (op_lift (\<lambda>s. case dict_get (ds_stage_plans s) stage of
         None \<Rightarrow> Inl (RuntimeError ''no plan for stage'') | Some p \<Rightarrow> Inr p)) (\<lambda>p.
     op_bind (check_lane stage) (\<lambda>_.
     op_bind (op_lift (\<lambda>s. env_dispatch env stage (plan_bucket p) (plan_sync p) (ds_log s))) (\<lambda>h.
     op_bind (emit [Dispatch st stage (plan_bucket p) (plan_sync p)]) (\<lambda>_. op_return h))))"

definition combine :: "deepep_env \<Rightarrow> stream \<Rightarrow> int \<Rightarrow> handle \<Rightarrow> (deepep_state, int \<times> int) op" where
  "combine env st stage h =
     op_bind (check_lane stage) (\<lambda>_.
     op_bind (op_lift (\<lambda>s. env_combine env stage h (ds_log s))) (\<lambda>shape.
     op_bind (emit [Combine st stage h]) (\<lambda>_. op_return shape)))"

definition combine_zero_rows :: "handle \<Rightarrow> deepep_state \<Rightarrow> unit result" where
  "combine_zero_rows h s =
     (case ds_combine_zeros s of
        None \<Rightarrow> Inl AssertionError
      | Some (rows, cols) \<Rightarrow>
          guard (h_rows h > rows \<or> h_cols h \<noteq> cols)
            (RuntimeError ''combine needs zero rows but the buffer holds fewer''))"

section \<open>Attention side\<close>

definition live_stage_idx :: "int option \<Rightarrow> int \<Rightarrow> int" where
  "live_stage_idx ubatch traced = (case ubatch of Some u \<Rightarrow> u | None \<Rightarrow> traced)"

definition dispatch_attention :: "deepep_env \<Rightarrow> int \<Rightarrow> (deepep_state, unit) op" where
  "dispatch_attention env stage =
     op_bind check_initialized (\<lambda>_.
     op_bind (op_lift (\<lambda>s. guard (dict_get (ds_pending_combines s) stage \<noteq> None)
       (RuntimeError ''stage dispatched twice without combine''))) (\<lambda>_.
     op_bind (lane_stream stage) (\<lambda>st.
     op_bind (fork_to st) (\<lambda>_.
     op_bind (dispatch env st stage) (\<lambda>h.
     op_modify (\<lambda>s. s\<lparr>ds_pending_combines := dict_put stage h (ds_pending_combines s)\<rparr>))))))"

text \<open>\<open>out\<close> is the shape of the tensor combined into.\<close>

definition combine_attention :: "deepep_env \<Rightarrow> int \<times> int \<Rightarrow> int \<Rightarrow> (deepep_state, unit) op" where
  "combine_attention env out stage =
     op_bind check_initialized (\<lambda>_.
     op_bind (op_lift (\<lambda>s. dict_lookup (ds_pending_combines s) stage)) (\<lambda>h.
     op_bind (op_modify (\<lambda>s. s\<lparr>ds_pending_combines := dict_pop stage (ds_pending_combines s)\<rparr>)) (\<lambda>_.
     op_bind (lane_stream stage) (\<lambda>st.
     op_bind (op_lift (combine_zero_rows h)) (\<lambda>_.
     op_bind (combine env st stage h) (\<lambda>shape.
     op_bind (op_guard (shape \<noteq> out) (RuntimeError ''combined shape != out'')) (\<lambda>_.
     op_bind (if st \<noteq> Caller then emit [WaitStream Caller st] else op_return ()) (\<lambda>_.
     emit [CopyOut Caller stage]))))))))"

text \<open>The custom ops find the connector by id.\<close>

definition find_connector :: "(deepep_state, unit) op" where
  "find_connector = op_lift (\<lambda>s. if ds_op_id s \<in> set (ds_registry s) then Inr () else Inl KeyError)"

definition deepep_send_attn_output ::
  "deepep_env \<Rightarrow> int list \<Rightarrow> transfer_metadata \<Rightarrow> bool \<Rightarrow> int option \<Rightarrow> (deepep_state, unit) op" where
  "deepep_send_attn_output env shape meta routed ubatch =
     op_bind check_initialized (\<lambda>_.
     op_bind (op_guard (\<not> routed) (ValueError ''DeepEPM2NAFDConnector needs topk_ids and topk_weights'')) (\<lambda>_.
     op_bind (op_guard (\<not> validate_tensor_shape meta shape) (ValueError ''hidden_states shape does not match'')) (\<lambda>_.
     op_bind find_connector (\<lambda>_.
     dispatch_attention env (live_stage_idx ubatch (stage_idx meta))))))"

definition deepep_recv_ffn_output ::
  "deepep_env \<Rightarrow> int \<times> int \<Rightarrow> int \<Rightarrow> int option \<Rightarrow> (deepep_state, unit) op" where
  "deepep_recv_ffn_output env out ubatch_idx ubatch =
     op_bind check_initialized (\<lambda>_.
     op_bind find_connector (\<lambda>_.
     combine_attention env out (live_stage_idx ubatch ubatch_idx)))"

section \<open>FFN side\<close>

text \<open>\<open>DeepEPM2NTransferState\<close>: the handle, the lane, and the events of the lane's work.\<close>

record transfer_state =
  ts_handle :: handle
  ts_lane :: int
  ts_ready_event :: int
  ts_experts_done :: "int option"

definition deepep_recv_attn_output ::
  "deepep_env \<Rightarrow> bool \<Rightarrow> int \<Rightarrow> (deepep_state, transfer_metadata \<times> transfer_state) op" where
  "deepep_recv_attn_output env capturing lane =
     op_bind check_initialized (\<lambda>_.
     op_bind (lane_stream lane) (\<lambda>st.
     op_bind (join_step capturing lane st) (\<lambda>_.
     op_bind (dispatch env st lane) (\<lambda>h.
     op_bind (record_event st) (\<lambda>e.
     op_bind (op_lift (\<lambda>_. create_ffn_metadata 0 lane [h_rows h])) (\<lambda>meta.
     op_return (meta, \<lparr>ts_handle = h, ts_lane = lane, ts_ready_event = e, ts_experts_done = None\<rparr>)))))))"

text \<open>\<open>state\<close> is \<open>None\<close> for a context that another connector made.\<close>

definition transfer_state_of :: "transfer_state option \<Rightarrow> transfer_state result" where
  "transfer_state_of state =
     (case state of
        None \<Rightarrow> Inl (RuntimeError ''context does not come from DeepEPM2N recv_attn_output'')
      | Some t \<Rightarrow> Inr t)"

definition run_experts :: "transfer_state option \<Rightarrow> (deepep_state, transfer_state) op" where
  "run_experts state =
     op_bind check_initialized (\<lambda>_.
     op_bind (op_lift (\<lambda>s. guard (\<not> ds_experts s) (RuntimeError ''run_experts is only available on FFN ranks''))) (\<lambda>_.
     op_bind (op_lift (\<lambda>_. transfer_state_of state)) (\<lambda>t.
     op_bind (emit [WaitEvent Caller (ts_ready_event t)]) (\<lambda>_.
     op_bind (lane_stream (ts_lane t)) (\<lambda>_.
     op_bind (emit [Experts Caller (ts_lane t)]) (\<lambda>_.
     op_bind (op_get (\<lambda>s. ds_lane_streams s \<noteq> [])) (\<lambda>multi.
     if multi then op_bind (record_event Caller) (\<lambda>e. op_return (t\<lparr>ts_experts_done := Some e\<rparr>))
     else op_return t)))))))"

definition deepep_send_ffn_output :: "deepep_env \<Rightarrow> transfer_state option \<Rightarrow> (deepep_state, unit) op" where
  "deepep_send_ffn_output env state =
     op_bind check_initialized (\<lambda>_.
     op_bind (op_lift (\<lambda>_. transfer_state_of state)) (\<lambda>t.
     op_bind (lane_stream (ts_lane t)) (\<lambda>st.
     op_bind
       (case ts_experts_done t of
          Some e \<Rightarrow>
            if st \<noteq> Caller then
              op_bind (emit [WaitEvent st e]) (\<lambda>_.
              op_modify (\<lambda>s. s\<lparr>ds_lanes_joined := ts_lane t # ds_lanes_joined s\<rparr>))
            else fork_to st
        | None \<Rightarrow> fork_to st) (\<lambda>_.
     op_bind (combine env st (ts_lane t) (ts_handle t)) (\<lambda>_.
     op_bind (record_event st) (\<lambda>e.
     op_modify (\<lambda>s. s\<lparr>ds_lane_done := dict_put (ts_lane t) e (ds_lane_done s)\<rparr>)))))))"

definition synchronize_lanes :: "deepep_state \<Rightarrow> deepep_state" where
  "synchronize_lanes s =
     reset_step_fork
       (s\<lparr>ds_log := ds_log s @ map (\<lambda>(_, e). WaitEvent Caller e) (ds_lane_done s), ds_lane_done := []\<rparr>)"

section \<open>Life cycle\<close>

definition close_plane :: "deepep_state \<Rightarrow> deepep_state" where
  "close_plane s =
     (let s = s\<lparr>ds_closed := True\<rparr> in
      case ds_group s of
        None \<Rightarrow> s
      | Some g \<Rightarrow> s\<lparr>ds_aborted := ds_aborted s @ [g], ds_group := None\<rparr>)"

definition deepep_close :: "deepep_state \<Rightarrow> deepep_state" where
  "deepep_close s =
     (let s = close_plane s;
          s = s\<lparr>ds_registry := filter (\<lambda>i. i \<noteq> ds_op_id s) (ds_registry s)\<rparr>;
          s = s\<lparr>ds_destroyed := ds_destroyed s @ ds_lanes s, ds_lanes := [], ds_lane_streams := [],
                ds_pending_combines := [], ds_lane_done := []\<rparr>;
          s = reset_step_fork s
      in s\<lparr>ds_combine_zeros := None, ds_initialized := False\<rparr>)"

text \<open>The role is one of the two names once the constructor has found a world rank for it.\<close>

definition role_name :: "deepep_state \<Rightarrow> string" where
  "role_name s = (case role (ds_afd s) of PStr r \<Rightarrow> r | _ \<Rightarrow> [])"

definition own_handshake_info :: "deepep_env \<Rightarrow> deepep_state \<Rightarrow> handshake_info" where
  "own_handshake_info env s =
     local_handshake_info (role_name s) (ds_role_rank s) (ds_world_rank s)
       (ds_config s) (ds_hidden_size s) (ds_dtype s) (lay_num_experts (ds_layout s)) (ds_top_k s) (ds_num_lanes s)
       (ds_capacity s) (ds_bucket_ladder s) (ds_attn_tp_size s) (compute_gate_on_attention (ds_afd s))
       (if is_ffn s then Some (if expert_backend (ds_config s) = ''deepgemm'' then env_alignment env else 1) else None)
       (if is_ffn s then Some (ffn_deployment_info (ds_vllm s)) else None) (env_sm env) (env_topology env)"

definition adopt_handshake :: "handshake_result \<Rightarrow> deepep_state \<Rightarrow> deepep_state" where
  "adopt_handshake r s =
     (let s = s\<lparr>ds_expert_alignment := hr_expert_alignment r, ds_network_plan := Some (hr_network_plan r),
                ds_attn_tp_size := Some (hr_attn_tp_size r), ds_capacity := Some (hr_capacity r),
                ds_bucket_ladder := Some (hr_ladder r),
                ds_environ := apply_gin_environment (hr_network_plan r) (ds_environ s)\<rparr>
      in if 1 < ds_num_lanes s
         then s\<lparr>ds_environ := dict_put ''AFD_DEEPEP_PER_BUFFER_COMM_STREAM'' ''1'' (ds_environ s)\<rparr> else s)"

definition handshake :: "deepep_env \<Rightarrow> (deepep_state, unit) op" where
  "handshake env =
     op_bind (op_lift (\<lambda>_. env_join env ''afd_deepep_m2n_bootstrap'')) (\<lambda>g.
     op_bind (op_modify (\<lambda>s. s\<lparr>ds_bootstrap_group := Some g\<rparr>)) (\<lambda>_.
     op_bind (op_lift (\<lambda>s. env_gather_infos env (own_handshake_info env s))) (\<lambda>infos.
     op_bind (op_lift (\<lambda>s. validate_handshake infos (ds_layout s) (dc_network (ds_config s)))) (\<lambda>r.
     op_modify (adopt_handshake r)))))"

definition open_lane :: "deepep_env \<Rightarrow> int \<Rightarrow> (deepep_state, unit) op" where
  "open_lane env k =
     op_bind (op_lift (\<lambda>_. env_open_lane env k)) (\<lambda>lane.
     op_modify (\<lambda>s.
       let s = s\<lparr>ds_lanes := ds_lanes s @ [lane]\<rparr> in
       if 1 < ds_num_lanes s then s\<lparr>ds_lane_streams := ds_lane_streams s @ [k]\<rparr> else s))"

definition open_lanes :: "deepep_env \<Rightarrow> (deepep_state, unit) op" where
  "open_lanes env = (\<lambda>s.
     op_bind (op_mapM (open_lane env) (py_range 0 (ds_num_lanes s))) (\<lambda>_. op_return ()) s)"

text \<open>One pair on one lane.  Startup runs on the caller's stream.\<close>

definition precompile_pair :: "deepep_env \<Rightarrow> int \<Rightarrow> int \<times> bool \<Rightarrow> (deepep_state, unit) op" where
  "precompile_pair env lane = (\<lambda>(b, sync).
     op_bind (op_lift (\<lambda>s. env_dispatch env lane b sync (ds_log s))) (\<lambda>h.
     op_bind (emit [Dispatch Caller lane b sync]) (\<lambda>_.
     op_bind (op_lift (\<lambda>s. if is_ffn s then Inr () else combine_zero_rows h s)) (\<lambda>_.
     op_bind (op_lift (\<lambda>s. env_combine env lane h (ds_log s))) (\<lambda>_.
     emit [Combine Caller lane h])))))"

definition startup_buckets :: "deepep_state \<Rightarrow> (int \<times> bool) list result" where
  "startup_buckets s =
     (case (ds_bucket_ladder s, ds_capacity s) of
        (Some ladder, Some capacity) \<Rightarrow>
          Inr (precompile_buckets ladder capacity (cpu_sync_min_tokens (ds_config s)))
      | _ \<Rightarrow> Inl AssertionError)"

definition precompile_dispatch_kernels :: "deepep_env \<Rightarrow> (deepep_state, unit) op" where
  "precompile_dispatch_kernels env =
     op_bind (op_lift startup_buckets) (\<lambda>buckets.
     op_bind (op_get (\<lambda>s. py_range 0 (int (length (ds_lanes s))))) (\<lambda>lanes.
     op_bind (op_mapM (\<lambda>lane. op_mapM (precompile_pair env lane) buckets) lanes) (\<lambda>_. op_return ())))"

definition create_resources :: "deepep_env \<Rightarrow> (deepep_state, unit) op" where
  "create_resources env =
     op_bind (open_lanes env) (\<lambda>_.
     op_bind (op_modify (\<lambda>s. if is_ffn s then s\<lparr>ds_experts := True\<rparr>
                             else s\<lparr>ds_combine_zeros := Some (0, ds_hidden_size s)\<rparr>)) (\<lambda>_.
     precompile_dispatch_kernels env))"

text \<open>\<open>try: ... except Exception: self.close(); raise\<close>.\<close>

definition or_close :: "(deepep_state, unit) op \<Rightarrow> (deepep_state, unit) op" where
  "or_close m = (\<lambda>s. case m s of (s', Inl e) \<Rightarrow> (deepep_close s', Inl e) | (s', Inr u) \<Rightarrow> (s', Inr u))"

definition deepep_init ::
  "deepep_env \<Rightarrow> int list option \<Rightarrow> (int, ffn_local_experts) dict option \<Rightarrow> (deepep_state, unit) op" where
  "deepep_init env moe_layers local_experts = (\<lambda>s.
     if ds_initialized s then (s, Inr ())
     else if local_experts \<noteq> None \<and> \<not> is_ffn s
     then (s, Inl (ValueError ''only FFN ranks hold local experts''))
     else
       op_bind (handshake env) (\<lambda>_.
       op_bind (op_lift (\<lambda>_. env_gather_models env (local_model_info moe_layers local_experts))) (\<lambda>models.
       op_bind (op_lift (\<lambda>s. validate_model_infos models (ds_layout s) (ds_hidden_size s) (payload_format (ds_config s)))) (\<lambda>_.
       op_bind (op_lift (\<lambda>_. env_join env ''afd_deepep_m2n'')) (\<lambda>g.
       op_bind (op_modify (\<lambda>s. s\<lparr>ds_group := Some g\<rparr>)) (\<lambda>_.
       op_bind (or_close (create_resources env)) (\<lambda>_.
       op_modify (\<lambda>s. s\<lparr>ds_registry := ds_op_id s # ds_registry s, ds_initialized := True\<rparr>))))))) s)"

section \<open>Control plane\<close>

definition graph_payload :: "control_payload \<Rightarrow> bool" where
  "graph_payload p \<longleftrightarrow> is_graph_capturing p \<or> is_graph_replaying p"

definition plan_stages :: "control_payload \<Rightarrow> deepep_state \<Rightarrow> (int, stage_plan) dict result" where
  "plan_stages p s =
     (case (ds_attn_tp_size s, ds_capacity s, ds_bucket_ladder s) of
        (Some tp, Some capacity, Some ladder) \<Rightarrow>
          map_result (\<lambda>(stage, d).
              bind_result (plan_stage d (lay_attn_size (ds_layout s)) tp capacity (bucket_granularity (ds_config s))
                 (graph_payload p) ladder (cpu_sync_min_tokens (ds_config s))) (\<lambda>sp. Inr (stage, sp)))
            (dp_metadata_list p)
      | _ \<Rightarrow> Inl (RuntimeError ''DeepEPM2N control plane used before the handshake''))"

definition deepep_update_state :: "control_payload \<Rightarrow> (deepep_state, unit) op" where
  "deepep_update_state p =
     op_bind (op_lift (\<lambda>s. guard (int (length (dp_metadata_list p)) > ds_num_lanes s)
       (ValueError ''stages exceed num_lanes''))) (\<lambda>_.
     op_bind (op_lift (plan_stages p)) (\<lambda>plans.
     op_modify (\<lambda>s. s\<lparr>ds_stage_plans := plans\<rparr>)))"

definition deepep_send_dp_metadata :: "control_payload \<Rightarrow> deepep_state \<Rightarrow> (int \<times> wire_msg) list result" where
  "deepep_send_dp_metadata p s =
     (if is_ffn s \<or> ds_role_rank s \<noteq> 0 then Inr []
      else if ds_group s = None then Inl (RuntimeError ''DeepEPM2N control plane is not initialized'')
      else Inr (send_control_payload p (py_range 0 (lay_ffn_size (ds_layout s)))))"

text \<open>\<open>closed_after\<close> is the flag when a failing receive is examined.\<close>

definition deepep_recv_dp_metadata ::
  "(int \<Rightarrow> recv_outcome \<times> (int \<Rightarrow> recv_outcome)) \<Rightarrow> bool \<times> bool \<times> bool \<times> bool \<Rightarrow> bool \<Rightarrow> deepep_state \<Rightarrow>
   control_payload result" where
  "deepep_recv_dp_metadata traffic closing closed_after s =
     bind_result (guard (ds_closed s) ControlPlaneClosed) (\<lambda>_.
     bind_result (guard (ds_group s = None) (RuntimeError ''DeepEPM2N control plane is not initialized'')) (\<lambda>_.
     let received =
       bind_result (layout_world_rank (ds_layout s) ''attention'' 0) (\<lambda>src.
       let (first, second) = traffic src; (c1, c2, c3, c4) = closing
       in recv_control_payload (Some c1, Some c2, Some c3, Some c4) first second)
     in case received of
          Inr p \<Rightarrow> Inr p
        | Inl e \<Rightarrow> Inl (if e = ControlPlaneClosed \<or> closed_after then ControlPlaneClosed else e)))"

end
