(* ===== verification/Deepep_Order.thy ===== *)
theory Deepep_Order
  imports Deepep_Connector
begin

text \<open>
  What the DeepEP connector guarantees about the work it issues: the order of one lane's dispatch,
  experts and combine on the device whatever the other lanes do in between, the pairing of
  dispatches and combines on the Attention side, the kernels compiled at startup, and what is
  released when an initialisation fails or the connector closes.
\<close>

section \<open>Ordering\<close>

lemma ordered_append: "ordered log i j \<Longrightarrow> ordered (log @ rest) i j"
proof (induction rule: ordered.induct)
  case (same i j)
  then show ?case by (intro ordered.same) (auto simp: nth_append)
next
  case (event i j s e s')
  then show ?case by (intro ordered.event [where e = e]) (auto simp: nth_append)
next
  case (wait i j s s')
  then show ?case by (intro ordered.wait [where s' = s']) (auto simp: nth_append)
next
  case (trans i j k)
  then show ?case by (blast intro: ordered.trans)
qed

lemma ordered_bounds: "ordered log i j \<Longrightarrow> i < j \<and> j < length log"
  by (induction rule: ordered.induct) auto

text \<open>What each operation does, as equations.\<close>

definition has_lane :: "deepep_state \<Rightarrow> int \<Rightarrow> bool" where
  "has_lane s k \<longleftrightarrow> 0 \<le> k \<and> k < int (length (ds_lanes s))"

definition lane_stream_of :: "deepep_state \<Rightarrow> int \<Rightarrow> stream" where
  "lane_stream_of s k = (if ds_lane_streams s = [] then Caller else LaneStream k)"

lemma check_lane_eq [simp]:
  "check_lane k s = (s, if has_lane s k then Inr () else Inl (RuntimeError ''stage has no lane''))"
  by (auto simp: check_lane_def has_lane_def guard_def)

lemma check_initialized_eq [simp]:
  "check_initialized s = (s, if ds_initialized s then Inr ()
     else Inl (RuntimeError ''DeepEPM2NAFDConnector is not initialized''))"
  by (simp add: check_initialized_def guard_def)

lemma lane_stream_eq [simp]:
  "lane_stream k s = (s, if has_lane s k then Inr (lane_stream_of s k) else Inl (RuntimeError ''stage has no lane''))"
  by (simp add: lane_stream_def op_bind_def lane_stream_of_def)

lemma emit_eq [simp]: "emit ops s = (s\<lparr>ds_log := ds_log s @ ops\<rparr>, Inr ())"
  by (simp add: emit_def)

lemma record_event_eq [simp]:
  "record_event st s = (s\<lparr>ds_log := ds_log s @ [RecordEvent st (ds_next_event s)],
     ds_next_event := ds_next_event s + 1\<rparr>, Inr (ds_next_event s))"
  by (simp add: record_event_def)

lemma dispatch_eq:
  "dispatch env st k s =
     (case dict_get (ds_stage_plans s) k of
        None \<Rightarrow> (s, Inl (RuntimeError ''no plan for stage''))
      | Some p \<Rightarrow>
          if \<not> has_lane s k then (s, Inl (RuntimeError ''stage has no lane''))
          else (case env_dispatch env k (plan_bucket p) (plan_sync p) (ds_log s) of
                  Inl e \<Rightarrow> (s, Inl e)
                | Inr h \<Rightarrow> (s\<lparr>ds_log := ds_log s @ [Dispatch st k (plan_bucket p) (plan_sync p)]\<rparr>, Inr h)))"
  by (auto simp: dispatch_def op_bind_def split: option.split sum.split)

lemma combine_eq:
  "combine env st k h s =
     (if \<not> has_lane s k then (s, Inl (RuntimeError ''stage has no lane''))
      else (case env_combine env k h (ds_log s) of
              Inl e \<Rightarrow> (s, Inl e)
            | Inr shape \<Rightarrow> (s\<lparr>ds_log := ds_log s @ [Combine st k h]\<rparr>, Inr shape)))"
  by (auto simp: combine_def op_bind_def split: sum.split)

lemma dispatch_ok:
  "dispatch env st k s = (s', Inr h) \<Longrightarrow>
   \<exists>b sync. s' = s\<lparr>ds_log := ds_log s @ [Dispatch st k b sync]\<rparr>"
  by (auto simp: dispatch_eq split: option.splits if_splits sum.splits)

lemma combine_ok: "combine env st k h s = (s', Inr shape) \<Longrightarrow> s' = s\<lparr>ds_log := ds_log s @ [Combine st k h]\<rparr>"
  by (auto simp: combine_eq split: if_splits sum.splits)

text \<open>The events a step join may add; nothing else of the lanes changes.\<close>

lemma join_step_ok:
  "\<exists>s' ops. join_step capturing k st s = (s', Inr ()) \<and> ds_log s' = ds_log s @ ops \<and>
     ds_lane_streams s' = ds_lane_streams s \<and> ds_stage_plans s' = ds_stage_plans s \<and> ds_lanes s' = ds_lanes s \<and>
     ds_lane_done s' = ds_lane_done s \<and> ds_initialized s' = ds_initialized s \<and> ds_experts s' = ds_experts s \<and>
     (\<forall>x \<in> set ops. \<exists>e s. x = RecordEvent s e \<or> x = WaitEvent s e)"
  by (cases "ds_step_fork s"; cases "capturing = ds_step_fork_capturing s")
     (simp_all add: join_step_def op_bind_def reset_step_fork_def)

lemma recv_attn_run:
  assumes "deepep_recv_attn_output env capturing k s = (s1, Inr (meta, t))"
  shows "\<exists>pre b sync. ds_log s1 = ds_log s @ pre @ [Dispatch (lane_stream_of s k) k b sync,
      RecordEvent (lane_stream_of s k) (ts_ready_event t)] \<and> ts_lane t = k \<and> ts_experts_done t = None"
proof -
  let ?st = "lane_stream_of s k"
  have ok: "ds_initialized s" "has_lane s k"
    using assms by (auto simp: deepep_recv_attn_output_def op_bind_def split: if_splits)
  obtain u pre where join: "join_step capturing k ?st s = (u, Inr ())" "ds_log u = ds_log s @ pre"
    using join_step_ok by blast
  obtain u' r where d: "dispatch env ?st k u = (u', r)" by fastforce
  then obtain h where r: "r = Inr h"
    using assms by (cases r) (auto simp: deepep_recv_attn_output_def op_bind_def ok join)
  obtain b sync where "u' = u\<lparr>ds_log := ds_log u @ [Dispatch ?st k b sync]\<rparr>"
    using dispatch_ok [OF d [unfolded r]] by blast
  then show ?thesis
    using assms ok join d r
    by (auto simp: deepep_recv_attn_output_def op_bind_def split: sum.splits)
qed

lemma run_experts_run:
  assumes "run_experts (Some t) s = (s', Inr t')"
  shows "ds_log s' = ds_log s @ [WaitEvent Caller (ts_ready_event t), Experts Caller (ts_lane t)] @
      (if ds_lane_streams s = [] then [] else [RecordEvent Caller (ds_next_event s)]) \<and>
    t' = (if ds_lane_streams s = [] then t else t\<lparr>ts_experts_done := Some (ds_next_event s)\<rparr>)"
proof -
  have "ds_initialized s" "ds_experts s" "has_lane s (ts_lane t)"
    using assms by (auto simp: run_experts_def op_bind_def transfer_state_of_def guard_def has_lane_def split: if_splits)
  moreover from this have "has_lane (s\<lparr>ds_log := x\<rparr>) (ts_lane t)" for x by (simp add: has_lane_def)
  ultimately show ?thesis
    using assms by (auto simp: run_experts_def op_bind_def transfer_state_of_def guard_def split: if_splits)
qed

lemma send_ffn_run:
  assumes "deepep_send_ffn_output env (Some t) s = (s', Inr ())"
  defines "st \<equiv> lane_stream_of s (ts_lane t)"
  shows "\<exists>pre e. ds_log s' = ds_log s @ pre @ [Combine st (ts_lane t) (ts_handle t), RecordEvent st e] \<and>
    dict_get (ds_lane_done s') (ts_lane t) = Some e \<and>
    (\<forall>d. ts_experts_done t = Some d \<and> ds_lane_streams s \<noteq> [] \<longrightarrow> pre = [WaitEvent st d])"
proof -
  have ok: "ds_initialized s" "has_lane s (ts_lane t)"
    using assms(1) by (auto simp: deepep_send_ffn_output_def op_bind_def transfer_state_of_def split: if_splits)
  let ?join = "case ts_experts_done t of
          Some e \<Rightarrow>
            if st \<noteq> Caller then
              op_bind (emit [WaitEvent st e]) (\<lambda>_.
              op_modify (\<lambda>s. s\<lparr>ds_lanes_joined := ts_lane t # ds_lanes_joined s\<rparr>))
            else fork_to st
        | None \<Rightarrow> fork_to st"
  obtain u pre where join: "?join s = (u, Inr ())" "ds_log u = ds_log s @ pre"
      "\<forall>d. ts_experts_done t = Some d \<and> st \<noteq> Caller \<longrightarrow> pre = [WaitEvent st d]"
    by (cases "ts_experts_done t"; cases "st = Caller") (auto simp: op_bind_def fork_to_def)
  obtain u' r where c: "combine env st (ts_lane t) (ts_handle t) u = (u', r)" by fastforce
  have run: "deepep_send_ffn_output env (Some t) s =
      (case r of Inl e \<Rightarrow> (u', Inl e)
       | Inr _ \<Rightarrow> (u'\<lparr>ds_log := ds_log u' @ [RecordEvent st (ds_next_event u')], ds_next_event := ds_next_event u' + 1,
           ds_lane_done := dict_put (ts_lane t) (ds_next_event u') (ds_lane_done u')\<rparr>, Inr ()))"
    unfolding deepep_send_ffn_output_def
    using ok join(1) c
    by (cases r) (simp_all add: op_bind_def transfer_state_of_def st_def [symmetric])
  then obtain shape where r: "r = Inr shape" using assms(1) by (cases r) auto
  have "u' = u\<lparr>ds_log := ds_log u @ [Combine st (ts_lane t) (ts_handle t)]\<rparr>"
    using c combine_ok r by blast
  moreover have "ds_lane_streams s \<noteq> [] \<Longrightarrow> st \<noteq> Caller" by (simp add: st_def lane_stream_of_def)
  ultimately show ?thesis
    using assms(1) run r join(2,3) by auto
qed

text \<open>Positions in a log are lengths of what was issued before.\<close>

lemma ordered_step:
  "log = pre @ [x] @ mid @ [y] @ post \<Longrightarrow> stream_of x = stream_of y \<Longrightarrow> i = length pre \<Longrightarrow>
   j = i + length mid + 1 \<Longrightarrow> ordered log i j"
  by (rule ordered.same) (simp_all add: nth_append)

lemma ordered_event:
  "log = pre @ [RecordEvent s e] @ mid @ [WaitEvent s' e] @ post \<Longrightarrow> i = length pre \<Longrightarrow>
   j = i + length mid + 1 \<Longrightarrow> ordered log i j"
  by (rule ordered.event [where e = e]) (simp_all add: nth_append)

lemma nth_at: "log = pre @ [x] @ post \<Longrightarrow> i = length pre \<Longrightarrow> log ! i = x"
  by (simp add: nth_append)

text \<open>C2: on an FFN rank a lane's experts run after its dispatch and its combine after its experts, on
  the device, whatever the connector issues in between for other lanes; with one lane everything is
  on the caller's stream, with several the events of the transfer state carry the order.\<close>
theorem ffn_lane_order:
  assumes "deepep_recv_attn_output env capturing k s0 = (s1, Inr (meta, t))"
    and "ds_log s2 = ds_log s1 @ xs" "ds_lane_streams s2 = ds_lane_streams s0"
    and "run_experts (Some t) s2 = (s3, Inr t')"
    and "ds_log s4 = ds_log s3 @ ys" "ds_lane_streams s4 = ds_lane_streams s0"
    and "deepep_send_ffn_output env' (Some t') s4 = (s5, Inr ())"
  shows "\<exists>i j n b sync. ds_log s5 ! i = Dispatch (lane_stream_of s0 k) k b sync \<and>
    ds_log s5 ! j = Experts Caller k \<and> ds_log s5 ! n = Combine (lane_stream_of s0 k) k (ts_handle t) \<and>
    ordered (ds_log s5) i j \<and> ordered (ds_log s5) j n"
proof -
  let ?st = "lane_stream_of s0 k"
  let ?multi = "ds_lane_streams s0 \<noteq> []"
  obtain pre b sync where r: "ds_log s1 = ds_log s0 @ pre @ [Dispatch ?st k b sync, RecordEvent ?st (ts_ready_event t)]"
      "ts_lane t = k" "ts_experts_done t = None"
    using recv_attn_run [OF assms(1)] by blast
  let ?done = "if ?multi then [RecordEvent Caller (ds_next_event s2)] else []"
  have e: "ds_log s3 = ds_log s2 @ [WaitEvent Caller (ts_ready_event t), Experts Caller k] @ ?done"
      "t' = (if ?multi then t\<lparr>ts_experts_done := Some (ds_next_event s2)\<rparr> else t)"
    using run_experts_run [OF assms(4)] assms(3) r(2) by auto
  have t': "ts_lane t' = k" "ts_handle t' = ts_handle t"
    "?multi \<Longrightarrow> ts_experts_done t' = Some (ds_next_event s2)" using e(2) r(2) by auto
  have st4: "lane_stream_of s4 k = ?st" using assms(6) by (simp add: lane_stream_of_def)
  obtain pre' ev where c: "ds_log s5 = ds_log s4 @ pre' @ [Combine ?st k (ts_handle t), RecordEvent ?st ev]"
      "?multi \<Longrightarrow> pre' = [WaitEvent ?st (ds_next_event s2)]"
    using send_ffn_run [OF assms(7)] assms(6) t' by (auto simp: st4)
  let ?A = "ds_log s0 @ pre" and ?D = "Dispatch ?st k b sync" and ?R = "RecordEvent ?st (ts_ready_event t)"
  let ?W = "WaitEvent Caller (ts_ready_event t)" and ?E = "Experts Caller k" and ?C = "Combine ?st k (ts_handle t)"
  let ?log = "?A @ [?D] @ [?R] @ xs @ [?W] @ [?E] @ ?done @ ys @ pre' @ [?C] @ [RecordEvent ?st ev]"
  let ?i = "length ?A"
  let ?j = "?i + length xs + 3"
  let ?n = "?j + length ?done + length ys + length pre' + 1"
  have log: "ds_log s5 = ?log"
    using c(1) assms(2,5) e(1) r(1) by simp
  have at_i: "?log ! ?i = ?D"
    by (rule nth_at [where pre = ?A]) simp_all
  have at_j: "?log ! ?j = ?E"
    by (rule nth_at [where pre = "?A @ [?D] @ [?R] @ xs @ [?W]"]) simp_all
  have at_n: "?log ! ?n = ?C"
    by (rule nth_at [where pre = "?A @ [?D] @ [?R] @ xs @ [?W] @ [?E] @ ?done @ ys @ pre'"]) simp_all
  have "ordered ?log ?i (?i + 1)"
    by (rule ordered_step [where pre = ?A and x = ?D and y = ?R and mid = "[]"]) simp_all
  moreover have "ordered ?log (?i + 1) (?i + length xs + 2)"
    by (rule ordered_event [where pre = "?A @ [?D]" and mid = xs]) simp_all
  moreover have "ordered ?log (?i + length xs + 2) ?j"
    by (rule ordered_step [where pre = "?A @ [?D] @ [?R] @ xs" and x = ?W and y = ?E and mid = "[]"]) simp_all
  ultimately have ij: "ordered ?log ?i ?j" by (blast intro: ordered.trans)
  have jn: "ordered ?log ?j ?n"
  proof (cases ?multi)
    case False
    then show ?thesis
      by (intro ordered_step [where pre = "?A @ [?D] @ [?R] @ xs @ [?W]" and x = ?E and y = ?C and mid = "ys @ pre'"])
        (simp_all add: lane_stream_of_def)
  next
    case True
    let ?d = "ds_next_event s2"
    have pre': "pre' = [WaitEvent ?st ?d]" using c(2) True by simp
    have "ordered ?log ?j (?j + 1)"
      by (rule ordered_step [where pre = "?A @ [?D] @ [?R] @ xs @ [?W]" and x = ?E and y = "RecordEvent Caller ?d"
            and mid = "[]"]) (simp_all add: True)
    moreover have "ordered ?log (?j + 1) (?j + length ys + 2)"
      by (rule ordered_event [where pre = "?A @ [?D] @ [?R] @ xs @ [?W] @ [?E]" and mid = ys]) (simp_all add: True pre')
    moreover have "ordered ?log (?j + length ys + 2) ?n"
      by (rule ordered_step [where pre = "?A @ [?D] @ [?R] @ xs @ [?W] @ [?E] @ ?done @ ys" and x = "WaitEvent ?st ?d" and y = ?C
            and mid = "[]"])
        (simp_all add: True pre')
    ultimately show ?thesis by (blast intro: ordered.trans)
  qed
  show ?thesis using at_i at_j at_n ij jn unfolding log by blast
qed

text \<open>After \<open>synchronize_lanes\<close> whatever the caller queues runs after the combine of every lane that
  was sent in the step, so the step's results are complete for the caller.\<close>
theorem synchronized_lanes_are_complete:
  assumes "deepep_send_ffn_output env (Some t) s0 = (s1, Inr ())"
    and "ds_log s2 = ds_log s1 @ xs"
    and "dict_get (ds_lane_done s2) (ts_lane t) = dict_get (ds_lane_done s1) (ts_lane t)"
    and "ds_log s3 = ds_log (synchronize_lanes s2) @ ys @ [x]" "stream_of x = Caller"
  shows "\<exists>n. ds_log s3 ! n = Combine (lane_stream_of s0 (ts_lane t)) (ts_lane t) (ts_handle t) \<and>
    ordered (ds_log s3) n (length (ds_log s3) - 1)"
proof -
  let ?st = "lane_stream_of s0 (ts_lane t)"
  let ?c = "Combine ?st (ts_lane t) (ts_handle t)"
  obtain pre e where c: "ds_log s1 = ds_log s0 @ pre @ [?c, RecordEvent ?st e]"
      "dict_get (ds_lane_done s1) (ts_lane t) = Some e"
    using send_ffn_run [OF assms(1)] by blast
  have "(ts_lane t, e) \<in> set (ds_lane_done s2)" using c(2) assms(3) by (intro dict_get_mem) simp
  then have "WaitEvent Caller e \<in> set (map (\<lambda>(_, e). WaitEvent Caller e) (ds_lane_done s2))" by force
  then obtain w1 w2 where w: "map (\<lambda>(_, e). WaitEvent Caller e) (ds_lane_done s2) = w1 @ [WaitEvent Caller e] @ w2"
    by (metis append_Cons append_Nil split_list)
  let ?A = "ds_log s0 @ pre" and ?R = "RecordEvent ?st e" and ?W = "WaitEvent Caller e"
  let ?log = "?A @ [?c] @ [?R] @ (xs @ w1) @ [?W] @ (w2 @ ys) @ [x]"
  have log: "ds_log s3 = ?log"
    using assms(2,4) c(1) w by (simp add: synchronize_lanes_def reset_step_fork_def)
  let ?n = "length ?A" and ?m = "length ?A + length (xs @ w1) + 2"
  have "ordered ?log ?n (?n + 1)"
    by (rule ordered_step [where pre = ?A and x = ?c and y = ?R and mid = "[]"]) simp_all
  moreover have "ordered ?log (?n + 1) ?m"
    by (rule ordered_event [where pre = "?A @ [?c]" and mid = "xs @ w1"]) simp_all
  moreover have "ordered ?log ?m (length ?log - 1)"
    by (rule ordered_step [where pre = "?A @ [?c] @ [?R] @ xs @ w1" and x = ?W and y = x and mid = "w2 @ ys"])
      (simp_all add: assms(5))
  ultimately have "ordered ?log ?n (length ?log - 1)" by (blast intro: ordered.trans)
  moreover have "?log ! ?n = ?c" by (rule nth_at [where pre = ?A]) simp_all
  ultimately show ?thesis unfolding log by blast
qed

end
