(* ===== verification/Deepep_Pairing.thy ===== *)
theory Deepep_Pairing
  imports Deepep_Order
begin

text \<open>
  Dispatches and combines on the Attention side.  The life of an Attention connector is a sequence of
  its operations, each returning or raising; on every lane a combine takes the handle of the
  dispatch just before it, whatever fails in between.
\<close>

section \<open>The handle of a combine\<close>

fun on_lane :: "int \<Rightarrow> stream_op \<Rightarrow> bool" where
  "on_lane k (Dispatch _ j _ _) \<longleftrightarrow> j = k"
| "on_lane k (Combine _ j _) \<longleftrightarrow> j = k"
| "on_lane k _ \<longleftrightarrow> False"

text \<open>The last dispatch or combine of lane \<open>k\<close> is a dispatch, and it gave handle \<open>h\<close>.\<close>

definition dispatched :: "deepep_env \<Rightarrow> stream_op list \<Rightarrow> int \<Rightarrow> handle \<Rightarrow> bool" where
  "dispatched env log k h \<longleftrightarrow>
     (\<exists>pre st b sync mid. log = pre @ [Dispatch st k b sync] @ mid \<and>
        env_dispatch env k b sync pre = Inr h \<and> \<not> list_ex (on_lane k) mid)"

definition combines_ok :: "deepep_env \<Rightarrow> stream_op list \<Rightarrow> bool" where
  "combines_ok env log \<longleftrightarrow>
     (\<forall>j st k h. j < length log \<longrightarrow> log ! j = Combine st k h \<longrightarrow> dispatched env (take j log) k h)"

lemma dispatched_append: "dispatched env log k h \<Longrightarrow> \<not> list_ex (on_lane k) ops \<Longrightarrow> dispatched env (log @ ops) k h"
  unfolding dispatched_def
proof (elim exE conjE)
  fix pre st b sync mid
  assume "\<not> list_ex (on_lane k) ops" "log = pre @ [Dispatch st k b sync] @ mid"
    "env_dispatch env k b sync pre = Inr h" "\<not> list_ex (on_lane k) mid"
  then show "\<exists>pre st b sync mid. log @ ops = pre @ [Dispatch st k b sync] @ mid \<and>
      env_dispatch env k b sync pre = Inr h \<and> \<not> list_ex (on_lane k) mid"
    by (intro exI [of _ pre] exI [of _ st] exI [of _ b] exI [of _ sync] exI [of _ "mid @ ops"]) simp
qed

lemma dispatched_now: "env_dispatch env k b sync log = Inr h \<Longrightarrow> dispatched env (log @ [Dispatch st k b sync]) k h"
  unfolding dispatched_def by (intro exI [of _ log] exI [of _ st] exI [of _ b] exI [of _ sync] exI [of _ "[]"]) simp

lemma combines_ok_snoc:
  "combines_ok env log \<Longrightarrow> (\<And>st k h. x = Combine st k h \<Longrightarrow> dispatched env log k h) \<Longrightarrow> combines_ok env (log @ [x])"
  by (auto simp: combines_ok_def nth_append less_Suc_eq)

lemma combines_ok_append:
  "combines_ok env log \<Longrightarrow> \<not> list_ex (\<lambda>x. \<exists>k. on_lane k x) ops \<Longrightarrow> combines_ok env (log @ ops)"
proof (induction ops rule: rev_induct)
  case (snoc x xs)
  then have "combines_ok env ((log @ xs) @ [x])"
    by (intro combines_ok_snoc) (auto simp: list_ex_iff)
  then show ?case by simp
qed simp

section \<open>The invariant\<close>

definition paired :: "deepep_env \<Rightarrow> deepep_state \<Rightarrow> bool" where
  "paired env s \<longleftrightarrow> \<not> is_ffn s \<and> combines_ok env (ds_log s) \<and> (ds_initialized s \<or> ds_pending_combines s = []) \<and>
     (\<forall>k h. dict_get (ds_pending_combines s) k = Some h \<longrightarrow> dispatched env (ds_log s) k h)"

text \<open>Startup runs with nothing pending.\<close>

definition idle :: "deepep_env \<Rightarrow> deepep_state \<Rightarrow> bool" where
  "idle env s \<longleftrightarrow> \<not> is_ffn s \<and> combines_ok env (ds_log s) \<and> ds_pending_combines s = []"

lemma idle_paired: "idle env s \<Longrightarrow> paired env s"
  by (simp add: idle_def paired_def)

lemma paired_same:
  "paired env s \<Longrightarrow> ds_log t = ds_log s @ ops \<Longrightarrow> \<not> list_ex (\<lambda>x. \<exists>k. on_lane k x) ops \<Longrightarrow>
   ds_pending_combines t = ds_pending_combines s \<Longrightarrow> ds_initialized t = ds_initialized s \<Longrightarrow> ds_afd t = ds_afd s \<Longrightarrow>
   paired env t"
  by (auto simp: paired_def is_ffn_def combines_ok_append list_ex_iff intro!: dispatched_append)

lemma dispatch_attention_eq:
  "dispatch_attention env k s =
     (if \<not> ds_initialized s then (s, Inl (RuntimeError ''DeepEPM2NAFDConnector is not initialized''))
      else if dict_get (ds_pending_combines s) k \<noteq> None
      then (s, Inl (RuntimeError ''stage dispatched twice without combine''))
      else if \<not> has_lane s k then (s, Inl (RuntimeError ''stage has no lane''))
      else
        let st = lane_stream_of s k; u = fst (fork_to st s) in
        case dispatch env st k u of
          (v, Inl e) \<Rightarrow> (v, Inl e)
        | (v, Inr h) \<Rightarrow> (v\<lparr>ds_pending_combines := dict_put k h (ds_pending_combines v)\<rparr>, Inr ()))"
  by (cases "lane_stream_of s k = Caller")
    (auto simp: dispatch_attention_def op_bind_def guard_def fork_to_def Let_def split: prod.split sum.split)

lemma paired_dispatch: "keeps (paired env) (dispatch_attention env k)"
  unfolding keeps_def
proof (intro allI impI)
  fix s assume p: "paired env s"
  show "paired env (fst (dispatch_attention env k s))"
  proof (cases "ds_initialized s \<and> dict_get (ds_pending_combines s) k = None \<and> has_lane s k")
    case False
    then show ?thesis using p by (auto simp: dispatch_attention_eq)
  next
    case True
    let ?st = "lane_stream_of s k"
    let ?u = "fst (fork_to ?st s)"
    have u: "paired env ?u" "ds_initialized ?u" "dict_get (ds_pending_combines ?u) k = None"
      using True by (auto simp: fork_to_def intro!: paired_same [OF p, of _ "if ?st = Caller then [] else [WaitStream ?st Caller]"])
    obtain v r where d: "dispatch env ?st k ?u = (v, r)" by fastforce
    show ?thesis
    proof (cases r)
      case (Inl e)
      then have "v = ?u" using d by (auto simp: dispatch_eq split: option.splits if_splits sum.splits)
      then show ?thesis using True u d Inl by (simp add: dispatch_attention_eq Let_def)
    next
      case (Inr h)
      then obtain b sync where v: "v = ?u\<lparr>ds_log := ds_log ?u @ [Dispatch ?st k b sync]\<rparr>"
          and h: "env_dispatch env k b sync (ds_log ?u) = Inr h"
        using d by (auto simp: dispatch_eq split: option.splits if_splits sum.splits)
      have "paired env (v\<lparr>ds_pending_combines := dict_put k h (ds_pending_combines v)\<rparr>)"
        unfolding v using u dispatched_now [OF h]
        by (auto simp: paired_def is_ffn_def intro!: combines_ok_snoc dispatched_append)
      then show ?thesis using True d Inr by (simp add: dispatch_attention_eq Let_def)
    qed
  qed
qed

lemma combine_attention_eq:
  "combine_attention env out k s =
     (if \<not> ds_initialized s then (s, Inl (RuntimeError ''DeepEPM2NAFDConnector is not initialized''))
      else case dict_get (ds_pending_combines s) k of
        None \<Rightarrow> (s, Inl KeyError)
      | Some h \<Rightarrow>
          let u = s\<lparr>ds_pending_combines := dict_pop k (ds_pending_combines s)\<rparr>; st = lane_stream_of s k in
          if \<not> has_lane s k then (u, Inl (RuntimeError ''stage has no lane''))
          else case combine_zero_rows h u of
            Inl e \<Rightarrow> (u, Inl e)
          | Inr _ \<Rightarrow> (case env_combine env k h (ds_log s) of
              Inl e \<Rightarrow> (u, Inl e)
            | Inr shape \<Rightarrow>
                let v = u\<lparr>ds_log := ds_log s @ [Combine st k h]\<rparr> in
                if shape \<noteq> out then (v, Inl (RuntimeError ''combined shape != out''))
                else (v\<lparr>ds_log := ds_log v @ (if st \<noteq> Caller then [WaitStream Caller st] else []) @ [CopyOut Caller k]\<rparr>,
                      Inr ())))"
proof (cases "ds_initialized s \<and> dict_get (ds_pending_combines s) k \<noteq> None")
  case False
  then show ?thesis
    by (auto simp: combine_attention_def op_bind_def dict_lookup_def split: option.split)
next
  case True
  then obtain h where h: "dict_get (ds_pending_combines s) k = Some h" "ds_initialized s" by auto
  have lane: "lane_stream_of (s\<lparr>ds_pending_combines := p\<rparr>) k = lane_stream_of s k"
    "has_lane (s\<lparr>ds_pending_combines := p\<rparr>) k = has_lane s k" for p
    by (simp_all add: lane_stream_of_def has_lane_def)
  have lookup: "dict_lookup (ds_pending_combines s) k = Inr h" using h(1) by (simp add: dict_lookup_def)
  show ?thesis
    by (simp add: combine_attention_def op_bind_def h lookup lane combine_eq Let_def split: sum.split)
qed

lemma paired_combine: "keeps (paired env) (combine_attention env out k)"
  unfolding keeps_def
proof (intro allI impI)
  fix s assume p: "paired env s"
  show "paired env (fst (combine_attention env out k s))"
  proof (cases "ds_initialized s \<and> dict_get (ds_pending_combines s) k \<noteq> None")
    case False
    then show ?thesis using p by (auto simp: combine_attention_eq split: option.split)
  next
    case True
    then obtain h where h: "dict_get (ds_pending_combines s) k = Some h" "ds_initialized s" by auto
    let ?u = "s\<lparr>ds_pending_combines := dict_pop k (ds_pending_combines s)\<rparr>"
    let ?st = "lane_stream_of s k"
    have u: "paired env ?u" using p h(2) by (auto simp: paired_def is_ffn_def split: if_splits)
    let ?v = "?u\<lparr>ds_log := ds_log s @ [Combine ?st k h]\<rparr>"
    have d: "dispatched env (ds_log s) k h" using p h(1) by (simp add: paired_def)
    have v: "paired env ?v"
      using p d h(2) by (auto simp: paired_def is_ffn_def split: if_splits intro!: combines_ok_snoc dispatched_append)
    let ?ops = "(if ?st \<noteq> Caller then [WaitStream Caller ?st] else []) @ [CopyOut Caller k]"
    have w: "paired env (?v\<lparr>ds_log := ds_log ?v @ ?ops\<rparr>)"
      by (rule paired_same [OF v, of _ ?ops]) (simp_all split: if_split)
    show ?thesis
      using h u v w by (cases "?st = Caller") (simp_all add: combine_attention_eq Let_def split: sum.split)
  qed
qed

section \<open>Every other operation\<close>

lemma paired_send: "keeps (paired env) (deepep_send_attn_output env shape meta routed ubatch)"
  unfolding deepep_send_attn_output_def check_initialized_def find_connector_def
  by (intro keeps_intros paired_dispatch)

lemma paired_recv: "keeps (paired env) (deepep_recv_ffn_output env out ubatch_idx ubatch)"
  unfolding deepep_recv_ffn_output_def check_initialized_def find_connector_def
  by (intro keeps_intros paired_combine)

lemma paired_update: "keeps (paired env) (deepep_update_state p)"
  unfolding deepep_update_state_def
  by (intro keeps_intros) (auto simp: paired_def is_ffn_def)

lemma paired_close: "paired env s \<Longrightarrow> paired env (deepep_close s)"
  by (auto simp: paired_def is_ffn_def deepep_close_def close_plane_def reset_step_fork_def Let_def split: option.split)

lemma idle_close: "idle env s \<Longrightarrow> idle env (deepep_close s)"
  by (auto simp: idle_def is_ffn_def deepep_close_def close_plane_def reset_step_fork_def Let_def split: option.split)

lemma idle_pair: "keeps (idle env) (precompile_pair env lane bs)"
  unfolding keeps_def
proof (intro allI impI)
  fix s assume i: "idle env s"
  obtain b sync where bs: "bs = (b, sync)" by fastforce
  have d: "combines_ok env (ds_log s @ [Dispatch Caller lane b sync])"
    using i by (intro combines_ok_snoc) (auto simp: idle_def)
  have c: "combines_ok env ((ds_log s @ [Dispatch Caller lane b sync]) @ [Combine Caller lane h])"
    if "env_dispatch env lane b sync (ds_log s) = Inr h" for h
    by (rule combines_ok_snoc [OF d]) (use dispatched_now [OF that] in auto)
  show "idle env (fst (precompile_pair env lane bs s))"
  proof (cases "env_dispatch env lane b sync (ds_log s)")
    case (Inl e)
    then show ?thesis using i by (simp add: precompile_pair_def bs op_bind_def)
  next
    case (Inr h)
    show ?thesis
      using i d c [OF Inr] Inr
      by (auto simp: precompile_pair_def bs op_bind_def idle_def is_ffn_def split: sum.split)
  qed
qed

lemma idle_init_steps:
  "keeps (idle env) (handshake env)" "keeps (idle env) (create_resources env)"
  "keeps (idle env) (or_close (create_resources env))"
proof -
  show "keeps (idle env) (handshake env)"
    unfolding handshake_def
    by (intro keeps_intros) (auto simp: idle_def is_ffn_def adopt_handshake_def Let_def)
  have lanes: "keeps (idle env) (open_lane env k)" for k
    unfolding open_lane_def by (intro keeps_intros) (auto simp: idle_def is_ffn_def Let_def)
  have "keeps (idle env) (open_lanes env)"
    unfolding open_lanes_def keeps_def
    by (intro allI impI, rule keepsD, intro keeps_intros lanes) assumption
  moreover have "keeps (idle env) (precompile_dispatch_kernels env)"
    unfolding precompile_dispatch_kernels_def by (intro keeps_intros idle_pair)
  ultimately show create: "keeps (idle env) (create_resources env)"
    unfolding create_resources_def by (intro keeps_intros) (auto simp: idle_def is_ffn_def)
  show "keeps (idle env) (or_close (create_resources env))"
    using create idle_close [of env] unfolding keeps_def or_close_def
    by (auto split: prod.split sum.split)
qed

text \<open>The last step of a successful initialisation starts from an idle connector.\<close>

lemma idle_registered:
  "idle env s \<Longrightarrow> idle env (s\<lparr>ds_registry := ds_op_id s # ds_registry s, ds_initialized := True\<rparr>)"
  by (simp add: idle_def is_ffn_def)

lemma idle_group: "idle env s \<Longrightarrow> idle env (s\<lparr>ds_group := g\<rparr>)"
  by (simp add: idle_def is_ffn_def)

lemma paired_init: "keeps (paired env) (deepep_init env layers experts)"
  unfolding keeps_def
proof (intro allI impI)
  fix s assume p: "paired env s"
  show "paired env (fst (deepep_init env layers experts s))"
  proof (cases "ds_initialized s \<or> experts \<noteq> None \<and> \<not> is_ffn s")
    case True
    then show ?thesis using p by (auto simp: deepep_init_def)
  next
    case False
    then have i: "idle env s" using p by (auto simp: paired_def idle_def)
    have "idle env (fst (deepep_init env layers experts s))"
      unfolding deepep_init_def if_not_P [OF conjunct1 [OF False [unfolded de_Morgan_disj]]]
        if_not_P [OF conjunct2 [OF False [unfolded de_Morgan_disj]]]
      by (intro keepsD [where P = "idle env"] i keeps_intros idle_init_steps idle_registered idle_group)
    then show ?thesis by (rule idle_paired)
  qed
qed

section \<open>The life of an Attention connector\<close>

inductive attention_step :: "deepep_env \<Rightarrow> deepep_state \<Rightarrow> deepep_state \<Rightarrow> bool" for env where
  init: "attention_step env s (fst (deepep_init env layers experts s))"
| update: "attention_step env s (fst (deepep_update_state p s))"
| send: "attention_step env s (fst (deepep_send_attn_output env shape meta routed ubatch s))"
| recv: "attention_step env s (fst (deepep_recv_ffn_output env out ubatch_idx ubatch s))"
| shut: "attention_step env s (deepep_close s)"

inductive attention_life :: "deepep_env \<Rightarrow> deepep_state \<Rightarrow> deepep_state \<Rightarrow> bool" for env where
  start: "attention_life env s s"
| more: "attention_life env s t \<Longrightarrow> attention_step env t u \<Longrightarrow> attention_life env s u"

inductive_cases attention_stepE: "attention_step env s t"

lemma attention_step_paired: "attention_step env s t \<Longrightarrow> paired env s \<Longrightarrow> paired env t"
  by (elim attention_stepE)
    (auto intro: keepsD [OF paired_init] keepsD [OF paired_update] keepsD [OF paired_send] keepsD [OF paired_recv]
      paired_close)

lemma attention_life_paired: "attention_life env s t \<Longrightarrow> paired env s \<Longrightarrow> paired env t"
  by (induction rule: attention_life.induct) (auto intro: attention_step_paired)

text \<open>A connector as the constructor leaves it on an Attention rank.\<close>

definition fresh_attention :: "deepep_state \<Rightarrow> bool" where
  "fresh_attention s \<longleftrightarrow> \<not> is_ffn s \<and> ds_log s = [] \<and> ds_pending_combines s = []"

lemma fresh_paired: "fresh_attention s \<Longrightarrow> paired env s"
  by (auto simp: fresh_attention_def paired_def combines_ok_def)

text \<open>C3: whatever an Attention connector is asked to do and whichever of its operations fail, every combine
  it issues on a lane takes the handle that the last dispatch on that lane returned, with no other
  dispatch or combine of the lane in between.\<close>
theorem combine_takes_the_last_dispatch:
  assumes "fresh_attention s" "attention_life env s t" "j < length (ds_log t)" "ds_log t ! j = Combine st k h"
  shows "dispatched env (take j (ds_log t)) k h"
  using attention_life_paired [OF assms(2) fresh_paired [OF assms(1)]] assms(3,4)
  by (simp add: paired_def combines_ok_def)

text \<open>A second dispatch of a stage whose combine is outstanding is refused before it queues anything, and
  a combine of a stage without a dispatch is refused.\<close>
theorem unpaired_operations_refused:
  "ds_initialized s \<Longrightarrow>
   (dict_get (ds_pending_combines s) k \<noteq> None \<longrightarrow>
      dispatch_attention env k s = (s, Inl (RuntimeError ''stage dispatched twice without combine''))) \<and>
   (dict_get (ds_pending_combines s) k = None \<longrightarrow> combine_attention env out k s = (s, Inl KeyError))"
  by (simp add: dispatch_attention_eq combine_attention_eq)

end
