(* ===== verification/Deepep_Startup.thy ===== *)
theory Deepep_Startup
  imports Deepep_Pairing
begin

text \<open>
  What initialisation leaves behind: the dispatch kernels compiled before serving, and, when it fails
  after the buffers are being created, nothing that a later attempt could trip over.
\<close>

section \<open>Kernels compiled at startup\<close>

definition compiled :: "int \<Rightarrow> int \<times> bool \<Rightarrow> deepep_state \<Rightarrow> bool" where
  "compiled lane p s \<longleftrightarrow> Dispatch Caller lane (fst p) (snd p) \<in> set (ds_log s)"

lemma precompile_pair_run:
  assumes "precompile_pair env lane p s = (t, Inr u)"
  shows "\<exists>h. t = s\<lparr>ds_log := ds_log s @ [Dispatch Caller lane (fst p) (snd p), Combine Caller lane h]\<rparr>"
  using assms
  by (auto simp: precompile_pair_def op_bind_Inr split: prod.splits)

lemma precompile_run:
  assumes "precompile_dispatch_kernels env s = (t, Inr u)"
  shows "\<exists>ops buckets. t = s\<lparr>ds_log := ds_log s @ ops\<rparr> \<and> startup_buckets s = Inr buckets \<and>
    (\<forall>lane \<in> {0..<int (length (ds_lanes s))}. \<forall>p \<in> set buckets. compiled lane p t)"
proof -
  let ?lanes = "py_range 0 (int (length (ds_lanes s)))"
  obtain buckets where b: "startup_buckets s = Inr buckets"
    using assms by (auto simp: precompile_dispatch_kernels_def op_bind_Inr)
  then obtain us where run: "op_mapM (\<lambda>lane. op_mapM (precompile_pair env lane) buckets) ?lanes s = (t, Inr us)"
    using assms by (auto simp: precompile_dispatch_kernels_def op_bind_Inr)
  have inner: "\<exists>ops. v = w\<lparr>ds_log := ds_log w @ ops\<rparr>" if "op_mapM (precompile_pair env lane) ps w = (v, Inr ys)" for lane ps w v ys
    using that
  proof (induction ps arbitrary: w ys)
    case (Cons p ps)
    then obtain w' y ys' where w': "precompile_pair env lane p w = (w', Inr y)"
        "op_mapM (precompile_pair env lane) ps w' = (v, Inr ys')"
      by (auto simp: op_bind_Inr)
    with Cons.IH [OF w'(2)] precompile_pair_run [OF w'(1)] show ?case by auto
  qed (auto intro: exI [of _ "[]"])
  have outer: "\<exists>ops. v = w\<lparr>ds_log := ds_log w @ ops\<rparr>"
    if "op_mapM (\<lambda>lane. op_mapM (precompile_pair env lane) buckets) ls w = (v, Inr ys)" for ls w v ys
    using that
  proof (induction ls arbitrary: w ys)
    case (Cons l ls)
    then obtain w' y ys' where w': "op_mapM (precompile_pair env l) buckets w = (w', Inr y)"
        "op_mapM (\<lambda>lane. op_mapM (precompile_pair env lane) buckets) ls w' = (v, Inr ys')"
      by (auto simp: op_bind_Inr)
    with Cons.IH [OF w'(2)] inner [OF w'(1)] show ?case by auto
  qed (auto intro: exI [of _ "[]"])
  have each: "\<forall>p \<in> set buckets. compiled lane p v" if "op_mapM (precompile_pair env lane) buckets w = (v, Inr ys)" for lane w v ys
    by (rule op_mapM_each [OF that]) (auto simp: compiled_def dest!: precompile_pair_run)
  have "\<forall>lane \<in> set ?lanes. \<forall>p \<in> set buckets. compiled lane p t"
  proof (rule op_mapM_each [OF run])
    show "\<forall>p \<in> set buckets. compiled lane p v" if "op_mapM (precompile_pair env lane) buckets w = (v, Inr ys)" for lane w v ys
      by (rule each [OF that])
    show "\<forall>p \<in> set buckets. compiled lane p v"
      if "op_mapM (precompile_pair env l) buckets w = (v, Inr ys)" "\<forall>p \<in> set buckets. compiled lane p w" for lane l w v ys
      using inner [OF that(1)] that(2) by (auto simp: compiled_def)
  qed
  then show ?thesis using outer [OF run] b by auto
qed

text \<open>The state the kernels are compiled in: the connector opened one buffer per lane.\<close>

lemma open_lane_run:
  "open_lane env k s = (t, Inr u) \<Longrightarrow>
   length (ds_lanes t) = Suc (length (ds_lanes s)) \<and> ds_config t = ds_config s \<and> ds_num_lanes t = ds_num_lanes s"
  by (auto simp: open_lane_def op_bind_Inr Let_def)

lemma open_lanes_run:
  assumes "open_lanes env s = (t, Inr u)"
  shows "int (length (ds_lanes t)) = int (length (ds_lanes s)) + max 0 (ds_num_lanes s) \<and> ds_config t = ds_config s \<and>
    ds_num_lanes t = ds_num_lanes s"
proof -
  have "length (ds_lanes v) = length (ds_lanes w) + length ks \<and> ds_config v = ds_config w \<and> ds_num_lanes v = ds_num_lanes w"
    if "op_mapM (open_lane env) ks w = (v, Inr ys)" for ks w v ys
    using that
  proof (induction ks arbitrary: w ys)
    case (Cons k ks)
    then obtain w' y ys' where w': "open_lane env k w = (w', Inr y)" "op_mapM (open_lane env) ks w' = (v, Inr ys')"
      by (auto simp: op_bind_Inr)
    with Cons.IH [OF w'(2)] open_lane_run [OF w'(1)] show ?case by auto
  qed simp
  then show ?thesis using assms by (auto simp: open_lanes_def op_bind_Inr)
qed

lemma adopt_handshake_fields:
  "ds_lanes (adopt_handshake r s) = ds_lanes s" "ds_config (adopt_handshake r s) = ds_config s"
  "ds_num_lanes (adopt_handshake r s) = ds_num_lanes s" "ds_registry (adopt_handshake r s) = ds_registry s"
  "ds_initialized (adopt_handshake r s) = ds_initialized s" "ds_op_id (adopt_handshake r s) = ds_op_id s"
  "ds_lane_streams (adopt_handshake r s) = ds_lane_streams s" "ds_group (adopt_handshake r s) = ds_group s"
  "ds_destroyed (adopt_handshake r s) = ds_destroyed s" "ds_aborted (adopt_handshake r s) = ds_aborted s"
  by (simp_all add: adopt_handshake_def Let_def)

lemma handshake_run:
  "handshake env s = (t, r) \<Longrightarrow>
   ds_lanes t = ds_lanes s \<and> ds_config t = ds_config s \<and> ds_num_lanes t = ds_num_lanes s \<and>
   ds_registry t = ds_registry s \<and> ds_initialized t = ds_initialized s \<and> ds_op_id t = ds_op_id s \<and>
   ds_lane_streams t = ds_lane_streams s \<and> ds_group t = ds_group s \<and> ds_destroyed t = ds_destroyed s \<and>
   ds_aborted t = ds_aborted s"
  by (auto simp: handshake_def op_bind_def adopt_handshake_fields split: sum.splits)

lemma deepep_init_run:
  assumes "deepep_init env layers experts s = (t, Inr u)" "\<not> ds_initialized s" "ds_lanes s = []"
  shows "\<exists>v w. precompile_dispatch_kernels env v = (w, Inr ()) \<and>
    t = w\<lparr>ds_registry := ds_op_id w # ds_registry w, ds_initialized := True\<rparr> \<and>
    int (length (ds_lanes v)) = max 0 (ds_num_lanes v)"
proof -
  from assms(1,2) obtain a g where a: "handshake env s = (a, Inr ())"
      and rest: "op_bind (or_close (create_resources env))
        (\<lambda>_. op_modify (\<lambda>s. s\<lparr>ds_registry := ds_op_id s # ds_registry s, ds_initialized := True\<rparr>))
        (a\<lparr>ds_group := Some g\<rparr>) = (t, Inr u)"
    unfolding deepep_init_def by (auto simp: op_bind_Inr split: if_splits)
  let ?b = "a\<lparr>ds_group := Some g\<rparr>"
  from rest obtain w where w: "create_resources env ?b = (w, Inr ())"
      "t = w\<lparr>ds_registry := ds_op_id w # ds_registry w, ds_initialized := True\<rparr>"
    by (auto simp: op_bind_Inr or_close_def split: prod.splits sum.splits)
  from w(1) obtain c where c: "open_lanes env ?b = (c, Inr ())"
      and p: "precompile_dispatch_kernels env
        (if is_ffn c then c\<lparr>ds_experts := True\<rparr> else c\<lparr>ds_combine_zeros := Some (0, ds_hidden_size c)\<rparr>) = (w, Inr ())"
    by (auto simp: create_resources_def op_bind_Inr)
  have "int (length (ds_lanes c)) = max 0 (ds_num_lanes c)"
    using open_lanes_run [OF c] handshake_run [OF a] assms(3) by simp
  with p w(2) show ?thesis
    by (intro exI [of _ "if is_ffn c then c\<lparr>ds_experts := True\<rparr> else c\<lparr>ds_combine_zeros := Some (0, ds_hidden_size c)\<rparr>"]
        exI [of _ w]) simp
qed

text \<open>Every stage of the payload is planned.\<close>

lemma plan_stages_keys:
  assumes "plan_stages p s = Inr plans"
  shows "map fst plans = map fst (dp_metadata_list p)"
proof -
  have "map fst ys = map fst xs" if "list_all2 (\<lambda>x y. (case x of (k, d) \<Rightarrow> bind_result (f d) (\<lambda>sp. Inr (k, sp))) = Inr y) xs ys"
    for f :: "dp_metadata \<Rightarrow> stage_plan result" and xs ys
    using that by (induction rule: list_all2_induct) (auto simp: result_simps)
  then show ?thesis
    using assms by (auto simp: plan_stages_def map_result_Inr split: option.splits)
qed

text \<open>The plan of a step is what the planner computes from the connector's fields.\<close>

lemma deepep_update_plan:
  assumes "deepep_update_state p s = (t, Inr u)" "dict_get (ds_stage_plans t) k = Some sp"
    and "ds_capacity s = Some capacity" "ds_bucket_ladder s = Some L"
  shows "\<exists>d tp. (k, d) \<in> set (dp_metadata_list p) \<and>
    plan_stage d (lay_attn_size (ds_layout s)) tp capacity (bucket_granularity (ds_config s)) (graph_payload p) L
      (cpu_sync_min_tokens (ds_config s)) = Inr sp"
proof -
  from assms obtain plans where plans: "plan_stages p s = Inr plans" "ds_stage_plans t = plans"
    by (auto simp: deepep_update_state_def op_bind_Inr)
  then have "(k, sp) \<in> set plans" using assms(2) dict_get_mem by metis
  then obtain i where i: "i < length plans" "plans ! i = (k, sp)" by (auto simp: in_set_conv_nth)
  let ?plan = "\<lambda>tp (stage, d). bind_result (plan_stage d (lay_attn_size (ds_layout s)) tp capacity
      (bucket_granularity (ds_config s)) (graph_payload p) L (cpu_sync_min_tokens (ds_config s))) (\<lambda>sp. Inr (stage, sp))"
  obtain tp where "list_all2 (\<lambda>x y. ?plan tp x = Inr y) (dp_metadata_list p) plans"
    using plans(1) assms(3,4) by (auto simp: plan_stages_def map_result_Inr split: option.splits)
  then have "i < length (dp_metadata_list p)" "?plan tp (dp_metadata_list p ! i) = Inr (k, sp)"
    using i by (auto simp: list_all2_conv_all_nth)
  then show ?thesis
    by (cases "dp_metadata_list p ! i") (auto simp: result_simps in_set_conv_nth intro!: exI [of _ i])
qed

text \<open>C4: once a connector is initialised, every dispatch an eager step can plan - on any lane, with the
  bucket and the host-sync mode its plan names - was compiled and run during initialisation.\<close>
theorem eager_step_kernels_were_compiled:
  assumes "deepep_init env layers experts s = (t, Inr ())" "\<not> ds_initialized s" "ds_lanes s = []"
    and "ds_capacity t = Some capacity" "ds_bucket_ladder t = Some L"
    and "0 < bucket_granularity (ds_config t)" "0 \<le> cpu_sync_min_tokens (ds_config t)"
    and "bucket_ladder capacity sizes tp (bucket_granularity (ds_config t)) (cpu_sync_min_tokens (ds_config t)) = Inr L"
    and "deepep_update_state p t = (t', Inr ())" "\<not> graph_payload p"
    and "dict_get (ds_stage_plans t') k = Some sp" "0 \<le> lane" "lane < ds_num_lanes t"
  shows "Dispatch Caller lane (plan_bucket sp) (plan_sync sp) \<in> set (ds_log t)"
proof -
  obtain v w where p: "precompile_dispatch_kernels env v = (w, Inr ())"
      and t: "t = w\<lparr>ds_registry := ds_op_id w # ds_registry w, ds_initialized := True\<rparr>"
      and n: "int (length (ds_lanes v)) = max 0 (ds_num_lanes v)"
    using deepep_init_run [OF assms(1-3)] by blast
  obtain ops buckets where w: "w = v\<lparr>ds_log := ds_log v @ ops\<rparr>" and b: "startup_buckets v = Inr buckets"
      and all: "\<forall>lane \<in> {0..<int (length (ds_lanes v))}. \<forall>p \<in> set buckets. compiled lane p w"
    using precompile_run [OF p] by blast
  obtain d tp' where "plan_stage d (lay_attn_size (ds_layout t)) tp' capacity (bucket_granularity (ds_config t)) False L
      (cpu_sync_min_tokens (ds_config t)) = Inr sp"
    using deepep_update_plan [OF assms(9,11,4,5)] assms(10) by auto
  from eager_plan_precompiled [OF assms(6,7,8) this]
  have "(plan_bucket sp, plan_sync sp) \<in> set (precompile_buckets L capacity (cpu_sync_min_tokens (ds_config t)))" .
  moreover have "buckets = precompile_buckets L capacity (cpu_sync_min_tokens (ds_config t))"
    using b assms(4,5) by (auto simp: startup_buckets_def t w)
  moreover have "lane \<in> {0..<int (length (ds_lanes v))}" using assms(12,13) n by (simp add: t w)
  ultimately have "compiled lane (plan_bucket sp, plan_sync sp) w" using all by blast
  then show ?thesis by (simp add: compiled_def t)
qed

section \<open>A failed initialisation\<close>

lemma or_close_fails:
  "or_close m s = (t, Inl e) \<Longrightarrow> \<exists>u. m s = (u, Inl e) \<and> t = deepep_close u"
  by (auto simp: or_close_def split: prod.splits sum.splits)

lemma deepep_close_fields:
  "\<not> ds_initialized (deepep_close s) \<and> ds_lanes (deepep_close s) = [] \<and> ds_lane_streams (deepep_close s) = [] \<and>
   ds_op_id (deepep_close s) \<notin> set (ds_registry (deepep_close s)) \<and> ds_group (deepep_close s) = None \<and>
   ds_closed (deepep_close s) \<and> ds_pending_combines (deepep_close s) = [] \<and>
   ds_destroyed (deepep_close s) = ds_destroyed s @ ds_lanes s"
  by (simp add: deepep_close_def close_plane_def reset_step_fork_def Let_def split: option.split)

text \<open>C39: an initialisation that fails, at whatever step, leaves the connector uninitialised, without lanes or
  lane streams, unknown to the custom ops, and without a control group.\<close>
theorem failed_init_leaves_nothing:
  assumes "deepep_init env layers experts s = (t, Inl e)" "\<not> ds_initialized s" "ds_lanes s = []" "ds_lane_streams s = []"
    and "ds_op_id s \<notin> set (ds_registry s)" "ds_group s = None"
  shows "\<not> ds_initialized t \<and> ds_lanes t = [] \<and> ds_lane_streams t = [] \<and> ds_op_id t \<notin> set (ds_registry t) \<and>
    ds_group t = None"
proof (cases "experts \<noteq> None \<and> \<not> is_ffn s")
  case True
  then show ?thesis using assms by (auto simp: deepep_init_def)
next
  case False
  obtain a r where a: "handshake env s = (a, r)" by fastforce
  note clean = handshake_run [OF a]
  let ?b = "\<lambda>g. a\<lparr>ds_group := Some g\<rparr>"
  consider "t = a" | u where "t = deepep_close u"
    using assms(1,2) False a
    by (auto simp: deepep_init_def op_bind_def or_close_def split: sum.splits prod.splits if_splits)
  then show ?thesis
  proof cases
    case 1
    then show ?thesis using clean assms(2-6) by simp
  next
    case (2 u)
    show ?thesis unfolding 2 using deepep_close_fields [of u] by simp
  qed
qed

text \<open>Closing releases every lane, the registration and the control group, a second close changes nothing,
  and afterwards Attention sends and control receives are refused, the latter as a close.\<close>
theorem deepep_close_is_final:
  "deepep_close (deepep_close s) = deepep_close s \<and>
   ds_destroyed (deepep_close s) = ds_destroyed s @ ds_lanes s \<and> ds_group (deepep_close s) = None \<and>
   snd (deepep_send_attn_output env shape meta routed ubatch (deepep_close s)) =
     Inl (RuntimeError ''DeepEPM2NAFDConnector is not initialized'') \<and>
   deepep_recv_dp_metadata traffic closing closed_after (deepep_close s) = Inl ControlPlaneClosed"
proof -
  note f = deepep_close_fields [of s]
  have "filter (\<lambda>i. i \<noteq> ds_op_id s) (filter (\<lambda>i. i \<noteq> ds_op_id s) xs) = filter (\<lambda>i. i \<noteq> ds_op_id s) xs" for xs
    by simp
  then have "deepep_close (deepep_close s) = deepep_close s"
    by (simp add: deepep_close_def close_plane_def reset_step_fork_def Let_def split: option.split)
  then show ?thesis
    using f by (simp add: deepep_send_attn_output_def op_bind_def deepep_recv_dp_metadata_def guard_def)
qed

section \<open>The control payload\<close>

definition deployed :: "layout \<Rightarrow> string \<Rightarrow> int \<Rightarrow> deepep_state \<Rightarrow> bool" where
  "deployed l r k s \<longleftrightarrow> ds_layout s = l \<and> role (ds_afd s) = PStr r \<and> ds_role_rank s = k \<and> ds_group s \<noteq> None"

text \<open>C35: what Attention rank 0 transmits reaches every FFN rank, which decodes the same stages and flags;
  no other Attention rank and no FFN rank transmits anything.\<close>
theorem deepep_payload_reaches_every_ffn:
  assumes "valid_layout l" "wf_payload p" "deployed l ''attention'' 0 a" "deployed l ''ffn'' f s" "\<not> ds_closed s"
    and "0 \<le> f" "f < lay_ffn_size l" "deepep_send_dp_metadata p a = Inr msgs"
    and "fragments_for f msgs = [m1, m2]"
    and "traffic (lay_ffn_size l) = (Received (lay_ffn_size l) m1, \<lambda>_. Received (lay_ffn_size l) m2)"
  shows "deepep_recv_dp_metadata traffic (False, False, False, False) closed_after s = Inr (received_payload p) \<and>
    (\<forall>r k b. deployed l r k b \<and> (r = ''ffn'' \<or> k \<noteq> 0) \<longrightarrow> deepep_send_dp_metadata p b = Inr [])"
proof -
  have "msgs = send_control_payload p (py_range 0 (lay_ffn_size l))"
    using assms(3,8) by (auto simp: deepep_send_dp_metadata_def deployed_def is_ffn_def)
  then have m: "m1 = SizeMsg (int (length (encode_control_payload p)))" "m2 = BytesMsg (encode_control_payload p)"
    using assms(6,7,9) by (simp_all add: fragments_for_send)
  have "recv_control_payload (Some False, Some False, Some False, Some False)
      (Received (lay_ffn_size l) m1) (\<lambda>_. Received (lay_ffn_size l) m2) = Inr (received_payload p)"
    by (rule recv_sent_payload [where d = f]) (use assms(2) m in \<open>simp_all add: send_control_payload_def Let_def\<close>)
  moreover have "layout_world_rank l ''attention'' 0 = Inr (lay_ffn_size l)"
    using assms(1) by (simp add: layout_world_rank_def check_rank_def valid_layout_def guard_def)
  ultimately have "deepep_recv_dp_metadata traffic (False, False, False, False) closed_after s = Inr (received_payload p)"
    using assms(4,5,10) by (simp add: deepep_recv_dp_metadata_def deployed_def guard_def)
  then show ?thesis by (auto simp: deepep_send_dp_metadata_def deployed_def is_ffn_def)
qed

end
