(* ===== verification/Ffn_Routed.thy ===== *)
theory Ffn_Routed
  imports Deepep_Startup
begin

text \<open>
  The FFN model runner for connectors that deliver routed expert rows
  (\<open>v1/worker/ffn_routed_experts_model_runner.py\<close>): the expert weights it takes from vLLM, and
  the order in which one step receives, runs and sends back every layer and stage.  The runner
  knows its connector only as an \<open>AFDRoutedExpertsConnector\<close>: a record of operations here.
\<close>

section \<open>Expert weights\<close>

definition ROUTED_MOE_BACKEND :: string where
  "ROUTED_MOE_BACKEND = ''triton''"

text \<open>The new value of \<open>kernel_config.moe_backend\<close>.\<close>

definition select_routed_moe_backend :: "string \<Rightarrow> string result" where
  "select_routed_moe_backend backend =
     (if backend = ''auto'' then Inr ROUTED_MOE_BACKEND
      else if backend \<noteq> ROUTED_MOE_BACKEND
      then Inl (RuntimeError ''routed-experts AFD FFN needs --moe-backend triton (or auto)'')
      else Inr backend)"

text \<open>
  vLLM's loaded layer: the backends its quantisation method names (\<open>None\<close> when the attribute is
  missing or \<open>None\<close>; the inner option is the backend's own \<open>name\<close>), the parameters, and the ids.
\<close>

record routed_experts =
  re_fp8_backend :: "string option option"
  re_unquantized_backend :: "string option option"
  re_w13 :: tensor_info
  re_w2 :: tensor_info
  re_w13_scale_inv :: "tensor_info option"
  re_w2_scale_inv :: "tensor_info option"
  re_local_expert_ids :: "int list"

definition check_expert_layout :: "routed_experts \<Rightarrow> unit result" where
  "check_expert_layout e =
     (let backend = (case re_fp8_backend e of None \<Rightarrow> re_unquantized_backend e | Some b \<Rightarrow> Some b);
          name = (case backend of None \<Rightarrow> None | Some n \<Rightarrow> n)
      in guard (name \<noteq> Some ''TRITON'') (RuntimeError ''vLLM may have reordered the FFN experts''))"

definition local_experts_from_vllm :: "routed_experts \<Rightarrow> ffn_local_experts result" where
  "local_experts_from_vllm e =
     bind_result (check_expert_layout e) (\<lambda>_.
     bind_result
       (if ti_dtype (re_w13 e) = FP8_E4M3 then
          (case (re_w13_scale_inv e, re_w2_scale_inv e) of
             (Some a, Some b) \<Rightarrow> Inr (Some a, Some b)
           | _ \<Rightarrow> Inl AttributeError)
        else Inr (None, None)) (\<lambda>(s13, s2).
     bind_result (make_local_expert_weights (re_w13 e) (re_w2 e) s13 s2) (\<lambda>w.
     Inr \<lparr>expert_ids = re_local_expert_ids e, weights = w\<rparr>)))"

text \<open>\<open>load_model\<close> after the native loader: the layers in order and each one's experts.\<close>

definition load_routed_experts ::
  "int list \<Rightarrow> (int \<Rightarrow> routed_experts result) \<Rightarrow> (int list \<times> (int, ffn_local_experts) dict) result" where
  "load_routed_experts layers get_routed_experts =
     bind_result (map_result (\<lambda>layer.
         bind_result (get_routed_experts layer) (\<lambda>e.
         bind_result (local_experts_from_vllm e) (\<lambda>le. Inr (layer, le)))) layers) (\<lambda>items.
     Inr (layers, dict_of items))"

section \<open>The step\<close>

text \<open>The connector's contract; \<open>'t\<close> is a received payload with its transfer context.\<close>

record ('s, 't) routed_ops =
  ro_update :: "control_payload \<Rightarrow> ('s, unit) op"
  ro_recv :: "int \<Rightarrow> ('s, 't) op"
  ro_run :: "'t \<Rightarrow> local_expert_weights \<Rightarrow> ('s, 't) op"
  ro_send :: "'t \<Rightarrow> ('s, unit) op"
  ro_sync :: "('s, unit) op"

text \<open>\<open>if stage_idx in pending_outputs: send_ffn_output(pending_outputs.pop(stage_idx))\<close>.\<close>

definition send_pending :: "('s, 't) routed_ops \<Rightarrow> int \<Rightarrow> (int, 't) dict \<Rightarrow> ('s, (int, 't) dict) op" where
  "send_pending c stage pending =
     (case dict_get pending stage of
        None \<Rightarrow> op_return pending
      | Some t \<Rightarrow> op_bind (ro_send c t) (\<lambda>_. op_return (dict_pop stage pending)))"

definition routed_stage ::
  "('s, 't) routed_ops \<Rightarrow> local_expert_weights \<Rightarrow> int \<Rightarrow> (int, 't) dict \<Rightarrow> ('s, (int, 't) dict) op" where
  "routed_stage c w stage pending =
     op_bind (send_pending c stage pending) (\<lambda>pending.
     op_bind (ro_recv c stage) (\<lambda>p.
     op_bind (ro_run c p w) (\<lambda>t. op_return (dict_put stage t pending))))"

definition routed_layer ::
  "('s, 't) routed_ops \<Rightarrow> (int, ffn_local_experts) dict \<Rightarrow> int list \<Rightarrow> int \<Rightarrow> (int, 't) dict \<Rightarrow>
   ('s, (int, 't) dict) op" where
  "routed_layer c experts stages layer pending =
     op_bind (op_lift (\<lambda>_. dict_lookup experts layer)) (\<lambda>e.
     op_fold (routed_stage c (weights e)) stages pending)"

text \<open>\<open>sorted(int(stage_idx) for stage_idx in dp_metadata_list) or [0]\<close>.\<close>

definition stage_ids :: "control_payload \<Rightarrow> int list" where
  "stage_ids p = (if dp_metadata_list p = [] then [0] else sort (map fst (dp_metadata_list p)))"

lemma stage_ids_nonempty: "stage_ids p \<noteq> []"
proof -
  have "sort xs = [] \<Longrightarrow> xs = []" for xs :: "int list" by (metis set_empty set_sort)
  then show ?thesis by (auto simp: stage_ids_def)
qed

definition routed_forward ::
  "('s, 't) routed_ops \<Rightarrow> int list \<Rightarrow> (int, ffn_local_experts) dict \<Rightarrow> bool \<Rightarrow> control_payload \<Rightarrow> ('s, unit) op" where
  "routed_forward c layers experts update p =
     op_bind (if update then ro_update c p else op_return ()) (\<lambda>_.
     op_bind (op_fold (routed_layer c experts (stage_ids p)) layers []) (\<lambda>pending.
     op_bind (op_fold (send_pending c) (stage_ids p) pending) (\<lambda>_.
     ro_sync c)))"

section \<open>The order of a step\<close>

text \<open>What a step asks of the lanes.\<close>

datatype lane_call = Recv int | Send int

text \<open>
  Attention's order with two micro-batches is
  \<open>D0(0) D1(0) C0(0) D0(1) C1(0) D1(1) ... C0(n) C1(n)\<close>: each stage's combine just before its next dispatch.
\<close>

fun attention_order :: "nat \<Rightarrow> int list \<Rightarrow> lane_call list" where
  "attention_order 0 stages = []"
| "attention_order (Suc 0) stages = map Recv stages @ map Send stages"
| "attention_order (Suc n) stages = map Recv stages @ concat (replicate n (concat (map (\<lambda>k. [Send k, Recv k]) stages)))
     @ map Send stages"

text \<open>The contract: on its lanes a ready connector serves every call, and nothing else touches the lanes.\<close>

locale routed_connector =
  fixes c :: "('s, 't) routed_ops"
    and ready :: "'s \<Rightarrow> bool" and lanes :: "int set" and lane :: "'t \<Rightarrow> int" and calls :: "'s \<Rightarrow> lane_call list"
  assumes recv_ok: "ready s \<Longrightarrow> k \<in> lanes \<Longrightarrow>
      \<exists>s' t. ro_recv c k s = (s', Inr t) \<and> ready s' \<and> calls s' = calls s @ [Recv k] \<and> lane t = k"
    and run_ok: "ready s \<Longrightarrow> lane t \<in> lanes \<Longrightarrow>
      \<exists>s' t'. ro_run c t w s = (s', Inr t') \<and> ready s' \<and> calls s' = calls s \<and> lane t' = lane t"
    and send_ok: "ready s \<Longrightarrow> lane t \<in> lanes \<Longrightarrow>
      \<exists>s'. ro_send c t s = (s', Inr ()) \<and> ready s' \<and> calls s' = calls s @ [Send (lane t)]"
    and sync_ok: "ready s \<Longrightarrow> \<exists>s'. ro_sync c s = (s', Inr ()) \<and> calls s' = calls s"
begin

text \<open>The pending outputs of the stages in \<open>ks\<close>, each on its own lane.\<close>

definition holds :: "(int, 't) dict \<Rightarrow> int set \<Rightarrow> bool" where
  "holds pending ks \<longleftrightarrow> (\<forall>k. (k \<in> ks \<longleftrightarrow> dict_get pending k \<noteq> None)) \<and>
     (\<forall>k t. dict_get pending k = Some t \<longrightarrow> lane t = k)"

lemma holds_empty: "holds [] {}"
  by (simp add: holds_def)

lemma send_pending_run:
  assumes "ready s" "holds pending ks" "k \<in> ks" "k \<in> lanes"
  shows "\<exists>s' pending'. send_pending c k pending s = (s', Inr pending') \<and> ready s' \<and> holds pending' (ks - {k}) \<and>
    calls s' = calls s @ [Send k]"
proof -
  from assms(2,3) obtain t where t: "dict_get pending k = Some t" "lane t = k" by (auto simp: holds_def)
  obtain s' where "ro_send c t s = (s', Inr ())" "ready s'" "calls s' = calls s @ [Send k]"
    using send_ok [of s t] assms(1,4) t(2) by auto
  moreover have "holds (dict_pop k pending) (ks - {k})" using assms(2) by (auto simp: holds_def)
  ultimately show ?thesis using t by (auto simp: send_pending_def op_bind_def)
qed

lemma routed_stage_run:
  assumes "ready s" "holds pending ks" "k \<in> lanes"
  shows "\<exists>s' pending'. routed_stage c w k pending s = (s', Inr pending') \<and> ready s' \<and> holds pending' (insert k ks) \<and>
    calls s' = calls s @ (if k \<in> ks then [Send k, Recv k] else [Recv k])"
proof -
  have "\<exists>u q. send_pending c k pending s = (u, Inr q) \<and> ready u \<and> holds q (ks - {k}) \<and>
      calls u = calls s @ (if k \<in> ks then [Send k] else [])"
  proof (cases "k \<in> ks")
    case True
    then show ?thesis using send_pending_run [OF assms(1,2) True assms(3)] by auto
  next
    case False
    then show ?thesis using assms(1,2) by (auto simp: send_pending_def holds_def split: option.split)
  qed
  then obtain u q where u: "send_pending c k pending s = (u, Inr q)" "ready u" "holds q (ks - {k})"
      "calls u = calls s @ (if k \<in> ks then [Send k] else [])" by blast
  obtain v p where v: "ro_recv c k u = (v, Inr p)" "ready v" "calls v = calls u @ [Recv k]" "lane p = k"
    using recv_ok [OF u(2) assms(3)] by blast
  obtain x t where x: "ro_run c p w v = (x, Inr t)" "ready x" "calls x = calls v" "lane t = k"
    using run_ok [OF v(2), of p w] v(4) assms(3) by auto
  have "holds (dict_put k t q) (insert k ks)" using u(3) x(4) by (auto simp: holds_def)
  with u v x show ?thesis by (auto simp: routed_stage_def op_bind_def)
qed

lemma routed_stages_run:
  assumes "ready s" "holds pending ks" "set stages \<subseteq> lanes" "distinct stages"
  shows "\<exists>s' pending'. op_fold (routed_stage c w) stages pending s = (s', Inr pending') \<and> ready s' \<and>
    holds pending' (set stages \<union> ks) \<and>
    calls s' = calls s @ concat (map (\<lambda>k. if k \<in> ks then [Send k, Recv k] else [Recv k]) stages)"
  using assms
proof (induction stages arbitrary: s pending ks)
  case (Cons k stages)
  obtain u q where u: "routed_stage c w k pending s = (u, Inr q)" "ready u" "holds q (insert k ks)"
      "calls u = calls s @ (if k \<in> ks then [Send k, Recv k] else [Recv k])"
    using routed_stage_run [OF Cons.prems(1,2), of k w] Cons.prems(3) by auto
  obtain s' q' where s': "op_fold (routed_stage c w) stages q u = (s', Inr q')" "ready s'"
      "holds q' (set stages \<union> insert k ks)"
      "calls s' = calls u @ concat (map (\<lambda>j. if j \<in> insert k ks then [Send j, Recv j] else [Recv j]) stages)"
    using Cons.IH [OF u(2,3)] Cons.prems(3,4) by auto
  have "map (\<lambda>j. if j \<in> insert k ks then [Send j, Recv j] else [Recv j]) stages =
      map (\<lambda>j. if j \<in> ks then [Send j, Recv j] else [Recv j]) stages"
    using Cons.prems(4) by (intro map_cong) auto
  note calls = s'(4) [unfolded this u(4)]
  show ?case
    by (rule exI [of _ s'], rule exI [of _ q']) (use u(1) s'(1-3) in \<open>simp add: calls\<close>)
qed auto

lemma routed_layers_run:
  assumes "ready s" "holds pending ks" "ks = {} \<or> ks = set stages" "set stages \<subseteq> lanes" "distinct stages"
    and "\<forall>layer \<in> set layers. dict_get experts layer \<noteq> None"
  shows "\<exists>s' pending'. op_fold (routed_layer c experts stages) layers pending s = (s', Inr pending') \<and> ready s' \<and>
    holds pending' (if layers = [] then ks else set stages) \<and>
    calls s' = calls s @ (if layers = [] then [] else
      concat (map (\<lambda>k. if k \<in> ks then [Send k, Recv k] else [Recv k]) stages) @
      concat (replicate (length layers - 1) (concat (map (\<lambda>k. [Send k, Recv k]) stages))))"
  using assms
proof (induction layers arbitrary: s pending ks)
  case (Cons l layers)
  from Cons.prems(6) obtain e where e: "dict_get experts l = Some e" by auto
  obtain u q where u: "op_fold (routed_stage c (weights e)) stages pending s = (u, Inr q)" "ready u"
      "holds q (set stages \<union> ks)"
      "calls u = calls s @ concat (map (\<lambda>k. if k \<in> ks then [Send k, Recv k] else [Recv k]) stages)"
    using routed_stages_run [OF Cons.prems(1,2,4,5)] by blast
  have ks: "set stages \<union> ks = set stages" using Cons.prems(3) by auto
  obtain s' q' where s': "op_fold (routed_layer c experts stages) layers q u = (s', Inr q')" "ready s'"
      "holds q' (if layers = [] then set stages else set stages)"
      "calls s' = calls u @ (if layers = [] then [] else
        concat (map (\<lambda>k. if k \<in> set stages then [Send k, Recv k] else [Recv k]) stages) @
        concat (replicate (length layers - 1) (concat (map (\<lambda>k. [Send k, Recv k]) stages))))"
    using Cons.IH [OF u(2) u(3) [unfolded ks] _ Cons.prems(4,5)] Cons.prems(6) by auto
  have layer: "routed_layer c experts stages l pending s = (u, Inr q)"
    using e u(1) by (simp add: routed_layer_def dict_lookup_def)
  have "concat (map (\<lambda>k. if k \<in> set stages then [Send k, Recv k] else [Recv k]) stages) =
      concat (map (\<lambda>k. [Send k, Recv k]) stages)"
    by (intro arg_cong [where f = concat] map_cong) auto
  note calls = s'(4) [unfolded this u(4)]
  show ?case
    by (rule exI [of _ s'], rule exI [of _ q'])
      (use layer s'(1-3) in \<open>cases layers; simp add: calls\<close>)
qed auto

lemma send_pendings_run:
  assumes "ready s" "holds pending ks" "set stages \<subseteq> lanes" "distinct stages" "ks = {} \<or> ks = set stages"
  shows "\<exists>s' pending'. op_fold (send_pending c) stages pending s = (s', Inr pending') \<and> ready s' \<and>
    calls s' = calls s @ (if ks = {} then [] else map Send stages)"
proof -
  have "\<exists>s' pending'. op_fold (send_pending c) stages pending s = (s', Inr pending') \<and> ready s' \<and>
      calls s' = calls s @ map Send stages" if "ready s" "holds pending ks" "set stages \<subseteq> lanes" "distinct stages" "set stages \<subseteq> ks"
    for s pending ks
    using that
  proof (induction stages arbitrary: s pending ks)
    case (Cons k stages)
    obtain u q where "send_pending c k pending s = (u, Inr q)" "ready u" "holds q (ks - {k})" "calls u = calls s @ [Send k]"
      using send_pending_run [OF Cons.prems(1,2), of k] Cons.prems(3,5) by auto
    moreover obtain s' q' where "op_fold (send_pending c) stages q u = (s', Inr q')" "ready s'"
        "calls s' = calls u @ map Send stages"
      using Cons.IH [OF calculation(2,3)] Cons.prems(3-5) by auto
    ultimately show ?case by auto
  qed auto
  moreover have "op_fold (send_pending c) stages pending s = (s, Inr pending)" if "holds pending {}"
    using that by (induction stages) (auto simp: send_pending_def holds_def)
  ultimately show ?thesis using assms by (cases "ks = {}") auto
qed

text \<open>A step serves its lanes in Attention's order, and returns.\<close>

lemma routed_forward_run:
  assumes "ready s" "set (stage_ids p) \<subseteq> lanes" "distinct (stage_ids p)"
    and "\<forall>layer \<in> set layers. dict_get experts layer \<noteq> None"
  shows "\<exists>s'. routed_forward c layers experts False p s = (s', Inr ()) \<and>
    calls s' = calls s @ attention_order (length layers) (stage_ids p)"
proof -
  let ?ks = "stage_ids p"
  have ne: "set ?ks \<noteq> {}" by (simp add: stage_ids_nonempty)
  obtain u q where u: "op_fold (routed_layer c experts ?ks) layers [] s = (u, Inr q)" "ready u"
      "holds q (if layers = [] then {} else set ?ks)"
      "calls u = calls s @ (if layers = [] then [] else concat (map (\<lambda>k. [Recv k]) ?ks) @
        concat (replicate (length layers - 1) (concat (map (\<lambda>k. [Send k, Recv k]) ?ks))))"
    using routed_layers_run [OF assms(1) holds_empty _ assms(2-4)] by auto
  obtain v q' where v: "op_fold (send_pending c) ?ks q u = (v, Inr q')" "ready v"
      "calls v = calls u @ (if layers = [] then [] else map Send ?ks)"
    using send_pendings_run [OF u(2,3) assms(2,3)] ne by (cases "layers = []") auto
  obtain s' where s': "ro_sync c v = (s', Inr ())" "calls s' = calls v" using sync_ok [OF v(2)] by blast
  have "concat (map (\<lambda>k. [Recv k]) ?ks) = map Recv ?ks" by (induction ?ks) auto
  then have "attention_order (length layers) ?ks = (if layers = [] then [] else concat (map (\<lambda>k. [Recv k]) ?ks) @
        concat (replicate (length layers - 1) (concat (map (\<lambda>k. [Send k, Recv k]) ?ks)))) @
      (if layers = [] then [] else map Send ?ks)"
    by (cases "(length layers, ?ks)" rule: attention_order.cases) auto
  then have "calls s' = calls s @ attention_order (length layers) ?ks" using s'(2) v(3) u(4) by simp
  moreover have "routed_forward c layers experts False p s = (s', Inr ())"
    using u(1) v(1) s'(1) by (simp add: routed_forward_def)
  ultimately show ?thesis by blast
qed

end

section \<open>On the DeepEP connector\<close>

definition deepep_ops :: "deepep_env \<Rightarrow> bool \<Rightarrow> (deepep_state, transfer_state) routed_ops" where
  "deepep_ops env capturing =
     \<lparr>ro_update = deepep_update_state,
      ro_recv = (\<lambda>k. op_bind (deepep_recv_attn_output env capturing k) (\<lambda>(_, t). op_return t)),
      ro_run = (\<lambda>t _. run_experts (Some t)),
      ro_send = (\<lambda>t. deepep_send_ffn_output env (Some t)),
      ro_sync = op_modify synchronize_lanes\<rparr>"

fun lane_calls :: "stream_op list \<Rightarrow> lane_call list" where
  "lane_calls [] = []"
| "lane_calls (Dispatch _ k _ _ # log) = Recv k # lane_calls log"
| "lane_calls (Combine _ k _ # log) = Send k # lane_calls log"
| "lane_calls (_ # log) = lane_calls log"

lemma lane_calls_append [simp]: "lane_calls (xs @ ys) = lane_calls xs @ lane_calls ys"
  by (induction xs rule: lane_calls.induct) auto

text \<open>A transport that fails no call, as after a healthy start.\<close>

definition serving :: "deepep_env \<Rightarrow> bool" where
  "serving env \<longleftrightarrow> (\<forall>k b sync log. \<exists>h. env_dispatch env k b sync log = Inr h \<and> 0 \<le> h_rows h) \<and>
     (\<forall>k h log. is_ok (env_combine env k h log))"

text \<open>An FFN connector whose stages \<open>ks\<close> are planned.\<close>

definition lanes_ready :: "deepep_env \<Rightarrow> int set \<Rightarrow> deepep_state \<Rightarrow> bool" where
  "lanes_ready env ks s \<longleftrightarrow> serving env \<and> ds_initialized s \<and> ds_experts s \<and>
     (\<forall>k \<in> ks. has_lane s k \<and> dict_get (ds_stage_plans s) k \<noteq> None)"

lemma lanes_ready_same:
  "lanes_ready env ks s \<Longrightarrow> ds_initialized t = ds_initialized s \<Longrightarrow> ds_experts t = ds_experts s \<Longrightarrow>
   ds_lanes t = ds_lanes s \<Longrightarrow> ds_stage_plans t = ds_stage_plans s \<Longrightarrow> lanes_ready env ks t"
  by (simp add: lanes_ready_def has_lane_def)

lemma lane_calls_events: "\<forall>x \<in> set ops. \<exists>e s. x = RecordEvent s e \<or> x = WaitEvent s e \<Longrightarrow> lane_calls ops = []"
  by (induction ops rule: lane_calls.induct) auto

lemma recv_ready:
  assumes "lanes_ready env ks s" "k \<in> ks"
  shows "\<exists>s' meta t. deepep_recv_attn_output env capturing k s = (s', Inr (meta, t)) \<and> lanes_ready env ks s' \<and>
    lane_calls (ds_log s') = lane_calls (ds_log s) @ [Recv k] \<and> ts_lane t = k"
proof -
  let ?st = "lane_stream_of s k"
  have ok: "ds_initialized s" "has_lane s k" "dict_get (ds_stage_plans s) k \<noteq> None"
    using assms by (auto simp: lanes_ready_def)
  then obtain p where p: "dict_get (ds_stage_plans s) k = Some p" by auto
  obtain u ops where u: "join_step capturing k ?st s = (u, Inr ())" "ds_log u = ds_log s @ ops"
      "ds_stage_plans u = ds_stage_plans s" "ds_lanes u = ds_lanes s" "ds_initialized u = ds_initialized s"
      "ds_experts u = ds_experts s" "\<forall>x \<in> set ops. \<exists>e s. x = RecordEvent s e \<or> x = WaitEvent s e"
    using join_step_ok [of capturing k ?st s] by blast
  obtain h where h: "env_dispatch env k (plan_bucket p) (plan_sync p) (ds_log u) = Inr h" "0 \<le> h_rows h"
    using assms(1) unfolding lanes_ready_def serving_def by blast
  let ?v = "u\<lparr>ds_log := ds_log u @ [Dispatch ?st k (plan_bucket p) (plan_sync p)]\<rparr>"
  let ?w = "?v\<lparr>ds_log := ds_log ?v @ [RecordEvent ?st (ds_next_event u)], ds_next_event := ds_next_event u + 1\<rparr>"
  let ?t = "\<lparr>ts_handle = h, ts_lane = k, ts_ready_event = ds_next_event u, ts_experts_done = None\<rparr>"
  have "has_lane u k" using ok(2) u(4) by (simp add: has_lane_def)
  then have d: "dispatch env ?st k u = (?v, Inr h)" using p u(3) h(1) by (simp add: dispatch_eq)
  have m: "create_ffn_metadata 0 k [h_rows h] = Inr \<lparr>layer_idx = 0, stage_idx = k, seq_lens = [h_rows h]\<rparr>"
    using h(2) by (simp add: create_ffn_metadata_def make_transfer_metadata_def)
  have "deepep_recv_attn_output env capturing k s =
      (?w, Inr (\<lparr>layer_idx = 0, stage_idx = k, seq_lens = [h_rows h]\<rparr>, ?t))"
    by (simp add: deepep_recv_attn_output_def ok u(1) d m)
  moreover have "lanes_ready env ks ?w"
    by (rule lanes_ready_same [OF assms(1)]) (simp_all add: u)
  moreover have "lane_calls (ds_log ?w) = lane_calls (ds_log s) @ [Recv k]"
    using lane_calls_events [OF u(7)] by (simp add: u(2))
  ultimately show ?thesis by (intro exI conjI) (assumption | simp)+
qed

lemma run_ready:
  assumes "lanes_ready env ks s" "ts_lane t \<in> ks"
  shows "\<exists>s' t'. run_experts (Some t) s = (s', Inr t') \<and> lanes_ready env ks s' \<and>
    lane_calls (ds_log s') = lane_calls (ds_log s) \<and> ts_lane t' = ts_lane t"
proof -
  have ok: "ds_initialized s" "ds_experts s" "has_lane s (ts_lane t)" using assms by (auto simp: lanes_ready_def)
  have "has_lane (s\<lparr>ds_log := x\<rparr>) (ts_lane t)" for x using ok(3) by (simp add: has_lane_def)
  then show ?thesis
    by (cases "ds_lane_streams s = []")
      (auto simp: run_experts_def op_bind_def ok transfer_state_of_def guard_def intro: lanes_ready_same [OF assms(1)])
qed

lemma send_ready:
  assumes "lanes_ready env ks s" "ts_lane t \<in> ks"
  shows "\<exists>s'. deepep_send_ffn_output env (Some t) s = (s', Inr ()) \<and> lanes_ready env ks s' \<and>
    lane_calls (ds_log s') = lane_calls (ds_log s) @ [Send (ts_lane t)]"
proof -
  let ?st = "lane_stream_of s (ts_lane t)"
  have ok: "ds_initialized s" "has_lane s (ts_lane t)" using assms by (auto simp: lanes_ready_def)
  let ?join = "case ts_experts_done t of
          Some e \<Rightarrow>
            if ?st \<noteq> Caller then
              op_bind (emit [WaitEvent ?st e]) (\<lambda>_.
              op_modify (\<lambda>s. s\<lparr>ds_lanes_joined := ts_lane t # ds_lanes_joined s\<rparr>))
            else fork_to ?st
        | None \<Rightarrow> fork_to ?st"
  obtain u ops where u: "?join s = (u, Inr ())" "ds_log u = ds_log s @ ops" "lane_calls ops = []"
      "ds_lanes u = ds_lanes s" "ds_initialized u = ds_initialized s" "ds_experts u = ds_experts s"
      "ds_stage_plans u = ds_stage_plans s"
    by (cases "ts_experts_done t"; cases "?st = Caller") (auto simp: fork_to_def)
  have "is_ok (env_combine env (ts_lane t) (ts_handle t) (ds_log u))"
    using assms(1) unfolding lanes_ready_def serving_def by blast
  then obtain shape where shape: "env_combine env (ts_lane t) (ts_handle t) (ds_log u) = Inr shape"
    by (auto simp: is_ok_def split: sum.splits)
  let ?v = "u\<lparr>ds_log := ds_log u @ [Combine ?st (ts_lane t) (ts_handle t)]\<rparr>"
  have c: "combine env ?st (ts_lane t) (ts_handle t) u = (?v, Inr shape)"
    using ok(2) u(4) shape by (simp add: combine_eq has_lane_def)
  let ?w = "?v\<lparr>ds_log := ds_log ?v @ [RecordEvent ?st (ds_next_event u)], ds_next_event := ds_next_event u + 1,
      ds_lane_done := dict_put (ts_lane t) (ds_next_event u) (ds_lane_done u)\<rparr>"
  have "deepep_send_ffn_output env (Some t) s = (?w, Inr ())"
    unfolding deepep_send_ffn_output_def
    using ok u(1) c by (simp add: transfer_state_of_def)
  moreover have "lanes_ready env ks ?w" by (rule lanes_ready_same [OF assms(1)]) (simp_all add: u)
  moreover have "lane_calls (ds_log ?w) = lane_calls (ds_log s) @ [Send (ts_lane t)]" by (simp add: u)
  ultimately show ?thesis by blast
qed

lemma lane_calls_waits: "lane_calls (map (\<lambda>(_, e). WaitEvent Caller e) xs) = []"
  by (induction xs) auto

interpretation deepep: routed_connector "deepep_ops env capturing" "lanes_ready env ks" ks ts_lane "\<lambda>s. lane_calls (ds_log s)"
  for env capturing ks
proof
  show "\<exists>s' t. ro_recv (deepep_ops env capturing) k s = (s', Inr t) \<and> lanes_ready env ks s' \<and>
      lane_calls (ds_log s') = lane_calls (ds_log s) @ [Recv k] \<and> ts_lane t = k"
    if "lanes_ready env ks s" "k \<in> ks" for s k
    using recv_ready [OF that, of capturing] by (auto simp: deepep_ops_def)
  show "\<exists>s' t'. ro_run (deepep_ops env capturing) t w s = (s', Inr t') \<and> lanes_ready env ks s' \<and>
      lane_calls (ds_log s') = lane_calls (ds_log s) \<and> ts_lane t' = ts_lane t"
    if "lanes_ready env ks s" "ts_lane t \<in> ks" for s t w
    using run_ready [OF that] by (simp add: deepep_ops_def)
  show "\<exists>s'. ro_send (deepep_ops env capturing) t s = (s', Inr ()) \<and> lanes_ready env ks s' \<and>
      lane_calls (ds_log s') = lane_calls (ds_log s) @ [Send (ts_lane t)]"
    if "lanes_ready env ks s" "ts_lane t \<in> ks" for s t
    using send_ready [OF that] by (simp add: deepep_ops_def)
  show "\<exists>s'. ro_sync (deepep_ops env capturing) s = (s', Inr ()) \<and> lane_calls (ds_log s') = lane_calls (ds_log s)"
    if "lanes_ready env ks s" for s
    by (simp add: deepep_ops_def synchronize_lanes_def reset_step_fork_def lane_calls_waits)
qed

section \<open>Properties\<close>

lemma dict_get_fold_put:
  "\<forall>(l, v) \<in> set kvs. v = f l \<Longrightarrow> (l \<in> fst ` set kvs \<or> dict_get d l = Some (f l)) \<Longrightarrow>
   dict_get (fold (\<lambda>(k, v) d. dict_put k v d) kvs d) l = Some (f l)"
proof (induction kvs arbitrary: d)
  case (Cons kv kvs)
  obtain k v where kv: "kv = (k, v)" by fastforce
  show ?case using Cons by (auto simp: kv)
qed simp

lemma load_routed_experts_layers:
  assumes "load_routed_experts layers get = Inr (ls, d)" "l \<in> set layers"
  shows "\<exists>e le. get l = Inr e \<and> local_experts_from_vllm e = Inr le \<and> dict_get d l = Some le"
proof -
  let ?f = "\<lambda>layer. bind_result (get layer) (\<lambda>e. bind_result (local_experts_from_vllm e) (\<lambda>le. Inr (layer, le)))"
  from assms(1) obtain items where items: "list_all2 (\<lambda>x y. ?f x = Inr y) layers items" "d = dict_of items"
    by (auto simp: load_routed_experts_def map_result_Inr result_simps)
  let ?v = "\<lambda>l. snd (projr (?f l))"
  have all: "\<forall>(l, v) \<in> set items. v = ?v l \<and> ?f l = Inr (l, v)"
  proof (intro ballI)
    fix x assume "x \<in> set items"
    then obtain i where "i < length items" "x = items ! i" by (auto simp: in_set_conv_nth)
    then have "?f (layers ! i) = Inr x" using items(1) by (simp add: list_all2_conv_all_nth)
    then show "case x of (l, v) \<Rightarrow> v = ?v l \<and> ?f l = Inr (l, v)" by (auto simp: result_simps)
  qed
  from assms(2) obtain i where "i < length layers" "l = layers ! i" by (auto simp: in_set_conv_nth)
  then have "?f l = Inr (items ! i)" "items ! i \<in> set items" using items(1) by (auto simp: list_all2_conv_all_nth)
  then obtain e le where e: "get l = Inr e" "local_experts_from_vllm e = Inr le" "(l, le) \<in> set items"
    by (auto simp: result_simps)
  have "dict_get (dict_of items) l = Some (?v l)"
    unfolding dict_of_def by (rule dict_get_fold_put) (use all e(3) in force)+
  then show ?thesis using e(1,2) items(2) by simp
qed

text \<open>C32: on a serving DeepEP deployment, one step of the FFN runner over the layers it loaded returns, and it
  receives and sends its lanes in exactly the order in which Attention's micro-batches dispatch and combine.\<close>
theorem routed_step_follows_attention:
  assumes "serving env" "ds_initialized s" "ds_experts s"
    and "dp_metadata_list p \<noteq> []" "wf_dict (dp_metadata_list p)"
    and "\<forall>(k, d) \<in> set (dp_metadata_list p). has_lane s k"
    and "deepep_update_state p s = (u, Inr ())"
    and "load_routed_experts layers get = Inr (layers, experts)"
  shows "\<exists>s'. routed_forward (deepep_ops env capturing) layers experts True p s = (s', Inr ()) \<and>
    lane_calls (ds_log s') = lane_calls (ds_log s) @ attention_order (length layers) (stage_ids p)"
proof -
  from assms(7) obtain plans where plans: "plan_stages p s = Inr plans" "u = s\<lparr>ds_stage_plans := plans\<rparr>"
    by (auto simp: deepep_update_state_def op_bind_Inr)
  have planned: "dict_get plans k \<noteq> None" if "(k, d) \<in> set (dp_metadata_list p)" for k d
    unfolding dict_get_None plan_stages_keys [OF plans(1)] using that by force
  have ids: "set (stage_ids p) = fst ` set (dp_metadata_list p)" "distinct (stage_ids p)"
    using assms(4,5) by (simp_all add: stage_ids_def wf_dict_def)
  have "lanes_ready env (set (stage_ids p)) u"
    using assms(1-3,6) planned by (fastforce simp: lanes_ready_def plans(2) ids has_lane_def)
  from deepep.routed_forward_run [OF this _ ids(2)] load_routed_experts_layers [OF assms(8)]
  obtain s' where "routed_forward (deepep_ops env capturing) layers experts False p u = (s', Inr ())"
      "lane_calls (ds_log s') = lane_calls (ds_log u) @ attention_order (length layers) (stage_ids p)"
    by fastforce
  then show ?thesis
    using assms(7) by (auto simp: routed_forward_def deepep_ops_def plans(2))
qed

end
