(* ===== verification/Worker_Planes.thy ===== *)
theory Worker_Planes
  imports Ffn_Worker Ffn_Runner Ffn_Routed
begin

text \<open>
  The FFN worker on the model's own connectors: the P2P connector with the FFN model runner, and
  the DeepEP connector with the routed-experts runner.  Both control planes meet the contract
  \<open>closing_plane\<close>, so closing one never looks like a failure of the loop.
\<close>

section \<open>P2P\<close>

text \<open>
  What \<open>torch.distributed.recv\<close> does once its group was aborted: the pending receive returns
  whatever bytes are in the buffer, or the rank lookup finds the group gone.
\<close>

definition nccl_recv :: "int \<Rightarrow> bool \<Rightarrow> bool \<Rightarrow> recv_outcome \<Rightarrow> bool" where
  "nccl_recv src gone first out \<longleftrightarrow> \<not> gone \<or>
     (case out of
        Received rank m \<Rightarrow> rank = src \<and> (case m of SizeMsg _ \<Rightarrow> first | BytesMsg _ \<Rightarrow> \<not> first)
      | RecvValueError msg \<Rightarrow> starts_with msg ''Group '' \<and> ends_with msg not_registered_suffix
      | RecvError _ \<Rightarrow> False)"

definition p2p_source :: "'r p2p_state \<Rightarrow> int" where
  "p2p_source s = p2p_rank (p_mapping s) mod min_size (p_mapping s) + ffn_size (p_mapping s)"

definition p2p_loop_ops ::
  "p2p_env \<Rightarrow> (wire_shape list \<Rightarrow> 'r wire_op list) \<Rightarrow> (bool \<Rightarrow> control_payload \<Rightarrow> ('r p2p_state, unit) op) \<Rightarrow> int \<Rightarrow>
   'r ffn_runner loop_ops" where
  "p2p_loop_ops env device fwd src =
     \<lparr>pl_group = (\<lambda>r. p2p_pg (fr_conn r)), pl_closed = (\<lambda>r. plane_closed (fr_conn r)),
      pl_aborted = (\<lambda>r. aborted (fr_conn r)),
      pl_set_closed = (\<lambda>r. r\<lparr>fr_conn := (fr_conn r)\<lparr>plane_closed := True\<rparr>\<rparr>),
      pl_abort = (\<lambda>g r. r\<lparr>fr_conn := (fr_conn r)\<lparr>aborted := aborted (fr_conn r) @ [g]\<rparr>\<rparr>),
      pl_clear = (\<lambda>r. r\<lparr>fr_conn := (fr_conn r)\<lparr>p2p_pg := None\<rparr>\<rparr>),
      pl_close = (\<lambda>r. r\<lparr>fr_conn := close_control_plane (fr_conn r)\<rparr>),
      pl_wrap = (\<lambda>closed e. e), pl_no_group = RuntimeError ''P2P DP metadata process group is not initialized'',
      pl_net = nccl_recv src,
      rn_has_plane = True, rn_use_cuda_graph = fr_use_cuda_graph, rn_initialized = (\<lambda>r. p_initialized (fr_conn r)),
      rn_initialize = on_conn (init_afd_connector env),
      rn_capture = (\<lambda>l warmup capturing. capture_model fwd (Some l) warmup capturing),
      rn_execute = (\<lambda>l capturing warmup replaying. execute_model device fwd (Some l) capturing warmup replaying)\<rparr>"

text \<open>A step does not touch the control plane.\<close>

definition plane_is :: "bool \<Rightarrow> int option \<Rightarrow> int list \<Rightarrow> 'r p2p_state \<Rightarrow> bool" where
  "plane_is cl g ab s \<longleftrightarrow> plane_closed s = cl \<and> p2p_pg s = g \<and> aborted s = ab"

lemma plane_is_buffers: "keeps (plane_is cl g ab) (recv_buffer m ref)"
  by (auto simp: keeps_def recv_buffer_def plane_is_def Let_def split: option.split)

lemma plane_is_issue: "keeps (plane_is cl g ab) (issue w)" "keeps (plane_is cl g ab) (use_comm i)"
  by (auto simp: keeps_def issue_def use_comm_def plane_is_def)

lemma plane_is_recv: "keeps (plane_is cl g ab) (recv_attn_output deliver k spec ids)"
proof -
  have alloc: "keeps (plane_is cl g ab) (allocate_peer k spec ids src)" for src
    unfolding allocate_peer_def by (intro keeps_intros plane_is_buffers)
  have recv: "keeps (plane_is cl g ab) (recv_tensors items grp cid)" for items grp cid
    unfolding recv_tensors_def by (intro keeps_intros plane_is_issue)
  show ?thesis
    unfolding keeps_def recv_attn_output_def Let_def
    by (intro allI impI, erule keepsD [rotated], intro keeps_intros alloc recv)
qed

lemma plane_is_send: "keeps (plane_is cl g ab) (send_ffn_output compiling out meta)"
proof -
  have send: "keeps (plane_is cl g ab) (send_tensors items grp cid)" for items grp cid
    unfolding send_tensors_def by (intro keeps_intros plane_is_issue)
  show ?thesis
    unfolding keeps_def send_ffn_output_def
    by (intro allI impI, erule keepsD [rotated], intro keeps_intros send)
qed

lemma keeps_fold: "(\<And>x b. keeps P (f x b)) \<Longrightarrow> keeps P (op_fold f xs b)"
  by (induction xs arbitrary: b) (auto intro!: keeps_intros)

lemma plane_is_update: "plane_is cl g ab (update_state_from_dp_metadata p s) = plane_is cl g ab s"
proof -
  have stage: "plane_is cl g ab (apply_stage x s) = plane_is cl g ab s" for x and s :: "'a p2p_state"
    by (cases x) (simp add: apply_stage_def plane_is_def Let_def)
  have pre: "plane_is cl g ab (preallocate x s) = plane_is cl g ab s" for x and s :: "'a p2p_state"
    by (cases "fst x"; cases x) (simp add: preallocate_def plane_is_def Let_def split: if_split)
  have stages: "plane_is cl g ab (fold apply_stage xs s) = plane_is cl g ab s" for xs and s :: "'a p2p_state"
    by (induction xs arbitrary: s) (simp_all add: stage)
  have pres: "plane_is cl g ab (fold preallocate xs s) = plane_is cl g ab s" for xs and s :: "'a p2p_state"
    by (induction xs arbitrary: s) (simp_all add: pre)
  show ?thesis
    by (simp add: update_state_from_dp_metadata_def Let_def stages pres) (simp add: plane_is_def begin_update_def)
qed

lemma plane_is_forward: "keeps (plane_is cl g ab) (ffn_forward rc m net moe0 update p)"
proof -
  have stage: "keeps (plane_is cl g ab) (ffn_stage rc m net ffn_dp layer k moe)" for ffn_dp layer k moe
    unfolding ffn_stage_def Let_def by (intro keeps_intros plane_is_recv plane_is_send)
  have layer: "keeps (plane_is cl g ab) (ffn_layer rc m net ffn_dp ks l moe)" for ffn_dp ks l moe
    unfolding ffn_layer_def by (intro keeps_fold stage)
  show ?thesis
    unfolding ffn_forward_def Let_def
    by (intro keeps_intros keeps_fold layer) (simp add: plane_is_update)
qed


lemma plane_is_runner:
  assumes "\<And>update p. keeps (plane_is cl g ab) (fwd update p)"
  shows "keeps (\<lambda>r. plane_is cl g ab (fr_conn r)) (capture_model fwd dp warmup capturing)"
    "keeps (\<lambda>r. plane_is cl g ab (fr_conn r)) (execute_model device fwd dp capturing warmup replaying)"
proof -
  let ?P = "\<lambda>r :: 'a ffn_runner. plane_is cl g ab (fr_conn r)"
  have conn: "keeps ?P (on_conn m)" if "keeps (plane_is cl g ab) m" for m :: "('a p2p_state, 'c) op"
    unfolding keeps_def on_conn_def
  proof (intro allI impI)
    fix r :: "'a ffn_runner" assume "plane_is cl g ab (fr_conn r)"
    with that have "plane_is cl g ab (fst (m (fr_conn r)))" by (rule keepsD)
    then show "plane_is cl g ab (fr_conn (fst (case m (fr_conn r) of (s, x) \<Rightarrow> (r\<lparr>fr_conn := s\<rparr>, x))))"
      by (simp add: split_def)
  qed
  have upd: "keeps (plane_is cl g ab) (op_modify (update_state_from_dp_metadata p))" for p
    by (intro keeps_intros) (simp add: plane_is_update)
  have cap: "keeps (plane_is cl g ab) (captured (fwd update p))" for update p
    using keepsD [OF assms, of _ update p]
    by (simp add: keeps_def captured_def plane_is_def split_def split: sum.split)
  have dummy: "keeps ?P (dummy_run fwd mode l capturing)" for mode l capturing
    unfolding dummy_run_def Let_def by (intro keeps_intros conn upd cap assms) simp_all
  have fin: "keeps ?P (op_finally m f)" if "keeps ?P m" "\<And>r. fr_conn (f r) = fr_conn r" for m :: "('a ffn_runner, unit) op" and f
    using that(1) unfolding keeps_def op_finally_def by (simp add: split_def that(2))
  have body: "keeps ?P (if warmup then let p = make_dp_metadata_payload l False True False in
       op_bind (on_conn (op_modify (update_state_from_dp_metadata p))) (\<lambda>_. on_conn (fwd False p))
     else dummy_run fwd ''FULL'' l capturing)" for l
    unfolding Let_def by (intro keeps_intros conn upd assms dummy)
  show "keeps ?P (capture_model fwd dp warmup capturing)"
    unfolding keeps_def
  proof (intro allI impI)
    fix r assume r: "?P r"
    show "?P (fst (capture_model fwd dp warmup capturing r))"
    proof (cases dp)
      case None
      then show ?thesis using r by (simp add: capture_model_def)
    next
      case (Some l)
      have "?P (fst (op_finally
          (if warmup then let p = make_dp_metadata_payload l False True False in
             op_bind (on_conn (op_modify (update_state_from_dp_metadata p))) (\<lambda>_. on_conn (fwd False p))
           else dummy_run fwd ''FULL'' l capturing)
          (\<lambda>r. r\<lparr>fr_graph_capturing := False\<rparr>) (r\<lparr>fr_graph_pool := True, fr_graph_capturing := True\<rparr>)))"
        by (rule keepsD [OF fin [OF body]]) (use r in simp_all)
      then show ?thesis using r unfolding capture_model_def Some by simp
    qed
  qed
  have replay: "keeps (plane_is cl g ab) (replay_graph device gr)" for gr
    unfolding replay_graph_def by (intro keeps_intros) (simp add: plane_is_def)
  show "keeps ?P (execute_model device fwd dp capturing warmup replaying)"
    unfolding execute_model_def Let_def
    by (auto intro!: keeps_intros conn assms replay split: option.split graph_run_mode.split)
qed


lemma p2p_recv_aborted:
  assumes "nccl_recv src True first out"
  shows "first \<Longrightarrow> size_received g (recv_tensor (Some True) out) = Failing e \<Longrightarrow> e = ControlPlaneClosed"
    "\<not> first \<Longrightarrow> object_received src (recv_tensor (Some True) out) = Failing e \<Longrightarrow> e = ControlPlaneClosed"
  using assms
  by (auto simp: nccl_recv_def recv_tensor_def size_received_def object_received_def
      split: recv_outcome.splits wire_msg.splits if_splits)

lemma p2p_serve_keeps:
  assumes "\<And>cl g ab update p. keeps (plane_is cl g ab) (fwd update p)"
  shows "plane_is (plane_closed (fr_conn r)) (p2p_pg (fr_conn r)) (aborted (fr_conn r))
    (fr_conn (fst (serve_payload (p2p_loop_ops env device fwd src) p r)))"
  using keepsD [OF plane_is_runner(1) [OF assms], of _ _ _ r] keepsD [OF plane_is_runner(2) [OF assms], of _ _ _ r]
  by (simp add: serve_payload_def p2p_loop_ops_def plane_is_def)

interpretation p2p_plane: closing_plane "p2p_loop_ops env device (ffn_forward rc m net moe0) src" src
  for env device rc m net moe0 src
proof
  let ?c = "p2p_loop_ops env device (ffn_forward rc m net moe0) src"
  show "pl_close ?c r = (let r = pl_set_closed ?c r in
      case pl_group ?c r of None \<Rightarrow> r | Some g \<Rightarrow> pl_clear ?c (pl_abort ?c g r))" for r
    by (simp add: p2p_loop_ops_def close_control_plane_def Let_def split: option.split)
  show "pl_wrap ?c True e = ControlPlaneClosed"
    if "pl_net ?c True True out" "size_received g (recv_tensor (Some True) out) = Failing e" for out g e
    using p2p_recv_aborted(1) [of src True out] that by (simp add: p2p_loop_ops_def)
  show "pl_wrap ?c True e = ControlPlaneClosed"
    if "pl_net ?c True False out" "object_received src (recv_tensor (Some True) out) = Failing e" for out e
    using p2p_recv_aborted(2) [of src False out] that by (simp add: p2p_loop_ops_def)
  note keep = p2p_serve_keeps [where fwd = "ffn_forward rc m net moe0" and env = env and device = device and src = src,
      OF plane_is_forward, unfolded plane_is_def]
  show "pl_closed ?c (fst (serve_payload ?c p r)) = pl_closed ?c r"
    "pl_group ?c (fst (serve_payload ?c p r)) = pl_group ?c r"
    "pl_aborted ?c (fst (serve_payload ?c p r)) = pl_aborted ?c r" for p r
    using keep [where r = r and p = p] by (simp_all add: p2p_loop_ops_def)
qed (simp_all add: p2p_loop_ops_def)

section \<open>DeepEP\<close>

text \<open>
  The routed-experts runner of an eager deployment.  Its control plane re-raises whatever a receive
  raised as closed once the plane is closed, so nothing is assumed of a receive on an aborted group.
  Without CUDA graphs \<open>rn_capture\<close> is never called.
\<close>

definition deepep_loop_ops ::
  "deepep_env \<Rightarrow> int list \<Rightarrow> (int, ffn_local_experts) dict \<Rightarrow> (bool \<Rightarrow> bool \<Rightarrow> recv_outcome \<Rightarrow> bool) \<Rightarrow> deepep_state loop_ops" where
  "deepep_loop_ops env layers experts net =
     \<lparr>pl_group = ds_group, pl_closed = ds_closed, pl_aborted = ds_aborted,
      pl_set_closed = (\<lambda>s. s\<lparr>ds_closed := True\<rparr>), pl_abort = (\<lambda>g s. s\<lparr>ds_aborted := ds_aborted s @ [g]\<rparr>),
      pl_clear = (\<lambda>s. s\<lparr>ds_group := None\<rparr>), pl_close = close_plane,
      pl_wrap = (\<lambda>closed e. if e = ControlPlaneClosed \<or> closed then ControlPlaneClosed else e),
      pl_no_group = RuntimeError ''DeepEPM2N control plane is not initialized'', pl_net = net,
      rn_has_plane = True, rn_use_cuda_graph = (\<lambda>_. False), rn_initialized = ds_initialized,
      rn_initialize = deepep_init env (Some layers) (Some experts),
      rn_capture = (\<lambda>_ _ _. op_return ()),
      rn_execute = (\<lambda>l capturing warmup replaying. routed_forward (deepep_ops env False) layers experts True
        (make_dp_metadata_payload l capturing warmup replaying))\<rparr>"

definition ds_plane_is :: "bool \<Rightarrow> int option \<Rightarrow> int list \<Rightarrow> deepep_state \<Rightarrow> bool" where
  "ds_plane_is cl g ab s \<longleftrightarrow> ds_closed s = cl \<and> ds_group s = g \<and> ds_aborted s = ab"

lemma ds_plane_is_steps:
  "keeps (ds_plane_is cl g ab) (emit ops)" "keeps (ds_plane_is cl g ab) (record_event st)"
  "keeps (ds_plane_is cl g ab) check_initialized" "keeps (ds_plane_is cl g ab) (check_lane k)"
  "keeps (ds_plane_is cl g ab) (lane_stream k)" "keeps (ds_plane_is cl g ab) (fork_to st)"
proof -
  show emit: "keeps (ds_plane_is cl g ab) (emit ops)" for ops
    unfolding emit_def by (intro keeps_intros) (simp add: ds_plane_is_def)
  show "keeps (ds_plane_is cl g ab) (record_event st)"
    by (simp add: record_event_def keeps_def ds_plane_is_def)
  show check: "keeps (ds_plane_is cl g ab) check_initialized" "keeps (ds_plane_is cl g ab) (check_lane k)" for k
    unfolding check_initialized_def check_lane_def by (intro keeps_intros)+
  show "keeps (ds_plane_is cl g ab) (lane_stream k)" "keeps (ds_plane_is cl g ab) (fork_to st)"
    unfolding lane_stream_def fork_to_def by (intro keeps_intros check emit)+
qed

lemma ds_plane_is_join: "keeps (ds_plane_is cl g ab) (join_step capturing k st)"
  unfolding join_step_def by (intro keeps_intros ds_plane_is_steps) (simp_all add: ds_plane_is_def reset_step_fork_def)

lemma ds_plane_is_ops:
  "keeps (ds_plane_is cl g ab) (ro_update (deepep_ops env capturing) p)"
  "keeps (ds_plane_is cl g ab) (ro_recv (deepep_ops env capturing) k)"
  "keeps (ds_plane_is cl g ab) (ro_run (deepep_ops env capturing) t w)"
  "keeps (ds_plane_is cl g ab) (ro_send (deepep_ops env capturing) t)"
  "keeps (ds_plane_is cl g ab) (ro_sync (deepep_ops env capturing))"
proof -
  note steps = keeps_intros ds_plane_is_steps ds_plane_is_join
  show "keeps (ds_plane_is cl g ab) (ro_update (deepep_ops env capturing) p)"
    unfolding deepep_ops_def deepep_update_state_def routed_ops.simps by (intro steps) (simp add: ds_plane_is_def)
  show "keeps (ds_plane_is cl g ab) (ro_recv (deepep_ops env capturing) k)"
    unfolding deepep_ops_def deepep_recv_attn_output_def dispatch_def routed_ops.simps by (intro steps)
  show "keeps (ds_plane_is cl g ab) (ro_run (deepep_ops env capturing) t w)"
    unfolding deepep_ops_def run_experts_def routed_ops.simps by (intro steps)
  show "keeps (ds_plane_is cl g ab) (ro_send (deepep_ops env capturing) t)"
    unfolding deepep_ops_def deepep_send_ffn_output_def combine_def routed_ops.simps
    by (intro steps) (simp_all add: ds_plane_is_def)
  show "keeps (ds_plane_is cl g ab) (ro_sync (deepep_ops env capturing))"
    unfolding deepep_ops_def synchronize_lanes_def reset_step_fork_def routed_ops.simps
    by (intro steps) (simp add: ds_plane_is_def)
qed

lemma ds_plane_is_forward: "keeps (ds_plane_is cl g ab) (routed_forward (deepep_ops env capturing) layers experts update p)"
  unfolding routed_forward_def routed_layer_def routed_stage_def send_pending_def
  by (intro keeps_intros keeps_fold ds_plane_is_ops)

interpretation deepep_plane: closing_plane "deepep_loop_ops env layers experts net" src
  for env layers experts net src
proof
  let ?c = "deepep_loop_ops env layers experts net"
  show "pl_close ?c r = (let r = pl_set_closed ?c r in
      case pl_group ?c r of None \<Rightarrow> r | Some g \<Rightarrow> pl_clear ?c (pl_abort ?c g r))" for r
    by (simp add: deepep_loop_ops_def close_plane_def Let_def split: option.split)
  show "pl_closed ?c (fst (serve_payload ?c p r)) = pl_closed ?c r"
    "pl_group ?c (fst (serve_payload ?c p r)) = pl_group ?c r"
    "pl_aborted ?c (fst (serve_payload ?c p r)) = pl_aborted ?c r" for p r
    using keepsD [OF ds_plane_is_forward [of "ds_closed r" "ds_group r" "ds_aborted r"], of r]
    by (simp_all add: serve_payload_def deepep_loop_ops_def ds_plane_is_def)
qed (simp_all add: deepep_loop_ops_def)


section \<open>Properties\<close>


text \<open>C16: the same of an eager DeepEP rank, whatever a receive on its aborted group comes to.\<close>
theorem deepep_stop_is_clean:
  assumes "ds_initialized s" "\<not> ds_closed s" "ds_group s \<noteq> None" "ds_aborted s = []"
    and "c = deepep_loop_ops env layers experts net"
    and "worker_step c (new_worker s) (Call Start) w" "sound_run c src w ms w'" "Call Start \<notin> set ms"
  shows "fw_error w' = None \<and> list_all clean_call (fw_calls w')"
proof (rule deepep_plane.stop_is_clean [OF _ _ _ _ assms(6,7,8) [unfolded assms(5)], folded assms(5)])
qed (use assms(1-5) in \<open>simp_all add: deepep_loop_ops_def\<close>)

text \<open>The loop's receive, undisturbed: its steps from \<open>ReadGroup\<close>, given the outcomes of its two receives.\<close>

primrec receive_steps ::
  "('r, 'z) loop_ops_scheme \<Rightarrow> recv_outcome \<Rightarrow> recv_outcome \<Rightarrow> nat \<Rightarrow> loop_phase \<Rightarrow> 'r \<Rightarrow> loop_phase" where
  "receive_steps c first second 0 ph r = ph"
| "receive_steps c first second (Suc n) ph r =
     (case ph of
        Serving p \<Rightarrow> ph
      | Raised e \<Rightarrow> ph
      | _ \<Rightarrow> receive_steps c first second n
               (fst (phase_step c False (case ph of RecvObject g rank \<Rightarrow> second | _ \<Rightarrow> first) ph r)) r)"

definition received :: "control_payload result \<Rightarrow> loop_phase" where
  "received x = (case x of Inl e \<Rightarrow> Raised e | Inr p \<Rightarrow> Serving p)"


end
