(* ===== verification/Deepep_Samples.thy ===== *)
theory Deepep_Samples
  imports Deepep_Startup Validation
begin

text \<open>
  A concrete DeepEP deployment - two FFN ranks with two experts each, two Attention ranks of one TP
  group, two lanes - on which the properties of the connector are applied.
\<close>

section \<open>The deployment\<close>

definition demo_vllm :: vllm_config where
  "demo_vllm = sample_vllm\<lparr>data_parallel_size := 1, cudagraph_capture_sizes := [2, 8],
     max_cudagraph_capture_size := 8, max_num_batched_tokens := 32, enable_dbo := True, use_ubatching := True,
     num_ubatches := 2\<rparr>"

definition demo_afd :: "string \<Rightarrow> afd_config" where
  "demo_afd r = default_config\<lparr>role := PStr r, connector := PStr DEEPEP_M2N_CONNECTOR, num_attention_ranks := 2,
     num_ffn_ranks := 2, compute_gate_on_attention := True\<rparr>"

definition demo_connector :: "string \<Rightarrow> deepep_state" where
  "demo_connector r =
     projr (make_deepep_connector demo_vllm (demo_afd r) 0 demo_deepep_config 64 2 BF16 4 7 [] [])"

definition demo_deepep_env :: "int \<Rightarrow> deepep_env" where
  "demo_deepep_env rows =
     \<lparr>env_join = (\<lambda>_. Inr 11), env_gather_infos = (\<lambda>_. Inr demo_infos),
      env_gather_models = (\<lambda>_. Inr [demo_loaded 0, demo_loaded 1, None, None]), env_open_lane = Inr,
      env_dispatch = (\<lambda>_ _ _ log. Inr \<lparr>h_id = int (length log), h_rows = rows, h_cols = 64\<rparr>),
      env_combine = (\<lambda>_ _ _. Inr (3, 64)), env_alignment = 128, env_sm = (9, 0), env_topology = hd demo_topologies\<rparr>"

definition demo_ready :: "string \<Rightarrow> deepep_state" where
  "demo_ready r = fst (deepep_init (demo_deepep_env (if r = ''ffn'' then 6 else 0)) None None (demo_connector r))"

lemma demo_init:
  "deepep_init (demo_deepep_env 0) None None (demo_connector ''attention'') = (demo_ready ''attention'', Inr ())"
  "deepep_init (demo_deepep_env 6) None None (demo_connector ''ffn'') = (demo_ready ''ffn'', Inr ())"
proof -
  have "snd (deepep_init (demo_deepep_env 0) None None (demo_connector ''attention'')) = Inr ()"
    "snd (deepep_init (demo_deepep_env 6) None None (demo_connector ''ffn'')) = Inr ()"
    by code_simp+
  then show "deepep_init (demo_deepep_env 0) None None (demo_connector ''attention'') = (demo_ready ''attention'', Inr ())"
    "deepep_init (demo_deepep_env 6) None None (demo_connector ''ffn'') = (demo_ready ''ffn'', Inr ())"
    by (simp_all add: demo_ready_def prod_eq_iff)
qed

section \<open>A step\<close>

definition demo_counts_of :: "int \<Rightarrow> dp_metadata" where
  "demo_counts_of n = \<lparr>num_tokens_across_dp_cpu = [n], max_tokens_across_dp_cpu = n, local_sizes = None\<rparr>"

definition demo_step_payload :: control_payload where
  "demo_step_payload =
     \<lparr>dp_metadata_list = [(0, demo_counts_of 5), (1, demo_counts_of 3)], is_graph_capturing = False,
      is_warmup = False, is_graph_replaying = False, is_profile = False\<rparr>"

definition demo_planned :: "string \<Rightarrow> deepep_state" where
  "demo_planned r = fst (deepep_update_state demo_step_payload (demo_ready r))"

lemma demo_planned_run:
  "deepep_update_state demo_step_payload (demo_ready ''attention'') = (demo_planned ''attention'', Inr ())"
  "deepep_update_state demo_step_payload (demo_ready ''ffn'') = (demo_planned ''ffn'', Inr ())"
proof -
  have "snd (deepep_update_state demo_step_payload (demo_ready ''attention'')) = Inr ()"
    "snd (deepep_update_state demo_step_payload (demo_ready ''ffn'')) = Inr ()"
    by code_simp+
  then show "deepep_update_state demo_step_payload (demo_ready ''attention'') = (demo_planned ''attention'', Inr ())"
    "deepep_update_state demo_step_payload (demo_ready ''ffn'') = (demo_planned ''ffn'', Inr ())"
    by (simp_all add: demo_planned_def prod_eq_iff)
qed

section \<open>Attention\<close>

definition demo_dispatched :: deepep_state where
  "demo_dispatched = fst (dispatch_attention (demo_deepep_env 0) 0 (demo_planned ''attention''))"

definition demo_sent :: deepep_state where
  "demo_sent = fst (deepep_send_attn_output (demo_deepep_env 0) [3, 64] (projr (create_attention_metadata 0 0 3)) True None
     (demo_planned ''attention''))"

definition demo_combined :: deepep_state where
  "demo_combined = fst (deepep_recv_ffn_output (demo_deepep_env 0) (3, 64) 0 None demo_sent)"

lemma demo_life: "attention_life (demo_deepep_env 0) (demo_connector ''attention'') demo_combined"
proof -
  have a: "attention_step (demo_deepep_env 0) (demo_connector ''attention'') (demo_ready ''attention'')"
    using attention_step.init [of "demo_deepep_env 0" "demo_connector ''attention''" None None] by (simp add: demo_ready_def)
  have b: "attention_step (demo_deepep_env 0) (demo_ready ''attention'') (demo_planned ''attention'')"
    unfolding demo_planned_def by (rule attention_step.update)
  have c: "attention_step (demo_deepep_env 0) (demo_planned ''attention'') demo_sent"
    unfolding demo_sent_def by (rule attention_step.send)
  have d: "attention_step (demo_deepep_env 0) demo_sent demo_combined"
    unfolding demo_combined_def by (rule attention_step.recv)
  note more = attention_life.more
  show ?thesis by (rule more [OF more [OF more [OF more [OF attention_life.start a] b] c] d])
qed

lemma demo_fresh: "fresh_attention (demo_connector ''attention'')"
  by code_simp

lemma demo_combined_log: "length (ds_log demo_combined) = 21"
  "ds_log demo_combined ! 18 = Combine (LaneStream 0) 0 \<lparr>h_id = 17, h_rows = 0, h_cols = 64\<rparr>"
  by code_simp+

theorem combine_takes_the_last_dispatch_witness:
  "dispatched (demo_deepep_env 0) (take 18 (ds_log demo_combined)) 0 \<lparr>h_id = 17, h_rows = 0, h_cols = 64\<rparr>"
  by (rule combine_takes_the_last_dispatch [OF demo_fresh demo_life _ demo_combined_log(2)])
    (simp add: demo_combined_log)

lemma demo_dispatched_pending: "ds_initialized demo_dispatched" "dict_get (ds_pending_combines demo_dispatched) 0 \<noteq> None"
  by code_simp+

section \<open>Startup\<close>

lemma demo_ready_fields: "ds_capacity (demo_ready ''attention'') = Some 16"
  "ds_bucket_ladder (demo_ready ''attention'') = Some [2, 4, 5]" "ds_num_lanes (demo_ready ''attention'') = 2"
  "bucket_granularity (ds_config (demo_ready ''attention'')) = 2" "cpu_sync_min_tokens (ds_config (demo_ready ''attention'')) = 6"
  by code_simp+

lemma demo_connector_fields: "\<not> ds_initialized (demo_connector r)" "ds_lanes (demo_connector r) = []"
  if "r \<in> {''attention'', ''ffn''}"
proof -
  have "\<not> ds_initialized (demo_connector ''attention'')" "ds_lanes (demo_connector ''attention'') = []"
    "\<not> ds_initialized (demo_connector ''ffn'')" "ds_lanes (demo_connector ''ffn'') = []" by code_simp+
  then show "\<not> ds_initialized (demo_connector r)" "ds_lanes (demo_connector r) = []" using that by auto
qed

lemma demo_plan_1: "dict_get (ds_stage_plans (demo_planned ''attention'')) 1 =
    Some \<lparr>plan_tokens = [2, 2], plan_bucket = 2, plan_sync = False, plan_graph = False\<rparr>"
  by code_simp

theorem eager_step_kernels_were_compiled_witness:
  "Dispatch Caller 1 2 False \<in> set (ds_log (demo_ready ''attention''))"
  using eager_step_kernels_were_compiled [OF demo_init(1) demo_connector_fields demo_ready_fields(1,2), of "[2, 8]" 2
      demo_step_payload "demo_planned ''attention''" 1 _ 1] demo_planned_run(1) demo_plan_1
  by (simp add: demo_ready_fields demo_ladder graph_payload_def demo_step_payload_def)

definition demo_broken_env :: deepep_env where
  "demo_broken_env = (demo_deepep_env 0)\<lparr>env_open_lane := (\<lambda>k. if k = 0 then Inr 5 else Inl (RuntimeError ''no buffer''))\<rparr>"

theorem failed_init_leaves_nothing_witness:
  "ds_lanes (fst (deepep_init demo_broken_env None None (demo_connector ''attention''))) = [] \<and>
   ds_group (fst (deepep_init demo_broken_env None None (demo_connector ''attention''))) = None"
proof -
  have "snd (deepep_init demo_broken_env None None (demo_connector ''attention'')) = Inl (RuntimeError ''no buffer'')"
    "ds_lane_streams (demo_connector ''attention'') = []" "ds_op_id (demo_connector ''attention'') \<notin> set (ds_registry (demo_connector ''attention''))"
    "ds_group (demo_connector ''attention'') = None"
    by code_simp+
  with failed_init_leaves_nothing [of demo_broken_env None None "demo_connector ''attention''"] demo_connector_fields
  show ?thesis by (simp add: prod_eq_iff)
qed

theorem deepep_payload_reaches_every_ffn_witness:
  "deepep_recv_dp_metadata
     (\<lambda>_. (Received 2 (SizeMsg (int (length (encode_control_payload demo_step_payload)))),
           \<lambda>_. Received 2 (BytesMsg (encode_control_payload demo_step_payload))))
     (False, False, False, False) False (demo_ready ''ffn'') = Inr (received_payload demo_step_payload)"
proof -
  have dep: "deployed demo_layout ''attention'' 0 (demo_ready ''attention'')" "deployed demo_layout ''ffn'' 0 (demo_ready ''ffn'')"
    "\<not> ds_closed (demo_ready ''ffn'')" "is_ffn (demo_ready ''attention'') = False"
    by code_simp+
  have wf: "wf_payload demo_step_payload"
    by (simp add: wf_payload_def demo_step_payload_def wf_dict_def demo_counts_of_def fits32_def)
  have "deepep_send_dp_metadata demo_step_payload (demo_ready ''attention'') =
      Inr (send_control_payload demo_step_payload (py_range 0 (lay_ffn_size demo_layout)))"
    using dep(1,4) by (auto simp: deepep_send_dp_metadata_def deployed_def)
  from deepep_payload_reaches_every_ffn [OF demo_layout_valid wf dep(1,2,3) _ _ this, of _ _ _ False]
  show ?thesis by (simp add: demo_layout_def fragments_for_send)
qed

section \<open>An FFN step\<close>

text \<open>Both lanes are received; the experts of lane 0 run, then those of lane 1, then lane 0 is sent.\<close>

definition demo_transfer :: "int \<Rightarrow> int \<Rightarrow> int \<Rightarrow> transfer_state" where
  "demo_transfer lane handle_id event =
     \<lparr>ts_handle = \<lparr>h_id = handle_id, h_rows = 6, h_cols = 64\<rparr>, ts_lane = lane, ts_ready_event = event, ts_experts_done = None\<rparr>"

definition demo_recv0 :: deepep_state where
  "demo_recv0 = fst (deepep_recv_attn_output (demo_deepep_env 6) False 0 (demo_planned ''ffn''))"

definition demo_recv1 :: deepep_state where
  "demo_recv1 = fst (deepep_recv_attn_output (demo_deepep_env 6) False 1 demo_recv0)"

definition demo_experts0 :: deepep_state where
  "demo_experts0 = fst (run_experts (Some (demo_transfer 0 18 1)) demo_recv1)"

definition demo_experts1 :: deepep_state where
  "demo_experts1 = fst (run_experts (Some (demo_transfer 1 21 2)) demo_experts0)"

definition demo_sent0 :: deepep_state where
  "demo_sent0 = fst (deepep_send_ffn_output (demo_deepep_env 6) (Some (demo_transfer 0 18 1\<lparr>ts_experts_done := Some 3\<rparr>)) demo_experts1)"

lemma demo_ffn_runs:
  "deepep_recv_attn_output (demo_deepep_env 6) False 0 (demo_planned ''ffn'') =
     (demo_recv0, Inr (\<lparr>layer_idx = 0, stage_idx = 0, seq_lens = [6]\<rparr>, demo_transfer 0 18 1))"
  "run_experts (Some (demo_transfer 0 18 1)) demo_recv1 =
     (demo_experts0, Inr (demo_transfer 0 18 1\<lparr>ts_experts_done := Some 3\<rparr>))"
  "deepep_send_ffn_output (demo_deepep_env 6) (Some (demo_transfer 0 18 1\<lparr>ts_experts_done := Some 3\<rparr>)) demo_experts1 =
     (demo_sent0, Inr ())"
proof -
  have "snd (deepep_recv_attn_output (demo_deepep_env 6) False 0 (demo_planned ''ffn'')) =
      Inr (\<lparr>layer_idx = 0, stage_idx = 0, seq_lens = [6]\<rparr>, demo_transfer 0 18 1)"
    "snd (run_experts (Some (demo_transfer 0 18 1)) demo_recv1) = Inr (demo_transfer 0 18 1\<lparr>ts_experts_done := Some 3\<rparr>)"
    "snd (deepep_send_ffn_output (demo_deepep_env 6) (Some (demo_transfer 0 18 1\<lparr>ts_experts_done := Some 3\<rparr>)) demo_experts1) =
      Inr ()"
    by code_simp+
  then show "deepep_recv_attn_output (demo_deepep_env 6) False 0 (demo_planned ''ffn'') =
      (demo_recv0, Inr (\<lparr>layer_idx = 0, stage_idx = 0, seq_lens = [6]\<rparr>, demo_transfer 0 18 1))"
    "run_experts (Some (demo_transfer 0 18 1)) demo_recv1 =
      (demo_experts0, Inr (demo_transfer 0 18 1\<lparr>ts_experts_done := Some 3\<rparr>))"
    "deepep_send_ffn_output (demo_deepep_env 6) (Some (demo_transfer 0 18 1\<lparr>ts_experts_done := Some 3\<rparr>)) demo_experts1 =
      (demo_sent0, Inr ())"
    by (simp_all add: demo_recv0_def demo_experts0_def demo_sent0_def prod_eq_iff)
qed

lemma demo_ffn_logs:
  "ds_log demo_recv1 = ds_log demo_recv0 @ drop 20 (ds_log demo_recv1)"
  "ds_log demo_experts1 = ds_log demo_experts0 @ drop 26 (ds_log demo_experts1)"
  "ds_lane_streams demo_recv1 = ds_lane_streams (demo_planned ''ffn'')"
  "ds_lane_streams demo_experts1 = ds_lane_streams (demo_planned ''ffn'')"
  by code_simp+

theorem ffn_lane_order_witness:
  "\<exists>i j n b sync. ds_log demo_sent0 ! i = Dispatch (lane_stream_of (demo_planned ''ffn'') 0) 0 b sync \<and>
    ds_log demo_sent0 ! j = Experts Caller 0 \<and>
    ds_log demo_sent0 ! n = Combine (lane_stream_of (demo_planned ''ffn'') 0) 0 (ts_handle (demo_transfer 0 18 1)) \<and>
    ordered (ds_log demo_sent0) i j \<and> ordered (ds_log demo_sent0) j n"
  by (rule ffn_lane_order [OF demo_ffn_runs(1) demo_ffn_logs(1,3) demo_ffn_runs(2) demo_ffn_logs(2,4) demo_ffn_runs(3)])

end
