(* ===== verification/P2P_Lifecycle.thy ===== *)
theory P2P_Lifecycle
  imports P2P_Exchange
begin

text \<open>
  Initialisation, closing, and the routing of the DP metadata between the connectors of a P2P
  deployment.
\<close>

section \<open>Initialisation and close\<close>

lemma open_subgroup_ok:
  assumes "open_subgroup env s = (s', Inr ())"
  shows "p2p_ready s' \<and> p_mapping s' = p_mapping s \<and> p_config s' = p_config s \<and> plane_closed s' = plane_closed s"
proof -
  let ?m = "p_mapping s"
  let ?n = "int (length (subgroup_ranks ?m))"
  obtain x where x: "open_communicator env 0 (subgroup_index ?m) (rank_in_subgroup ?m) ?n = Inr x"
    using assms by (cases "open_communicator env 0 (subgroup_index ?m) (rank_in_subgroup ?m) ?n")
      (auto simp: open_subgroup_def Let_def op_bind_def)
  obtain y where y: "open_communicator env 1 (subgroup_index ?m) (rank_in_subgroup ?m) ?n = Inr y"
    using assms x by (cases "open_communicator env 1 (subgroup_index ?m) (rank_in_subgroup ?m) ?n")
      (auto simp: open_subgroup_def Let_def op_bind_def register_comm_def)
  show ?thesis
    using assms x y
    by (auto simp: open_subgroup_def Let_def op_bind_def register_comm_def p2p_ready_def group_size_def)
qed

text \<open>Initialising a fresh connector leaves it able to exchange: both groups span the subgroup and
  both communicators are registered under its ids.\<close>
theorem init_makes_ready:
  assumes "\<not> p_initialized s" "init_afd_connector env s = (s', Inr ())"
  shows "p_initialized s' \<and> p2p_ready s' \<and> p_mapping s' = p_mapping s"
proof -
  obtain s1 where s1: "open_subgroup env s = (s1, Inr ())"
    using assms
    by (cases "open_subgroup env s"; cases "join_group env ''afd'' (ffn_size (p_mapping s) + attention_size (p_mapping s)) (world_rank (p_mapping s))"; cases "snd (open_subgroup env s)")
      (auto simp: init_afd_connector_def Let_def op_bind_def)
  note ready = open_subgroup_ok [OF s1]
  have "p2p_ready (s1\<lparr>p_initialized := True\<rparr>)" "p2p_ready (s1\<lparr>p2p_pg := g, p_initialized := True\<rparr>)" for g
    using ready by (simp_all add: p2p_ready_def group_size_def)
  then show ?thesis
    using assms s1 ready
    by (auto simp: init_afd_connector_def Let_def op_bind_def split: sum.splits if_splits)
qed

text \<open>The communicators this connector holds, and its entries of the registry.\<close>

definition fresh_connector :: "'r p2p_state \<Rightarrow> bool" where
  "fresh_connector s \<longleftrightarrow>
     \<not> p_initialized s \<and> a2e_comm_id s = None \<and> e2a_comm_id s = None \<and>
     a2e_pynccl s = None \<and> e2a_pynccl s = None \<and> p2p_pg s = None \<and>
     (\<forall>k \<ge> comm_id_counter s. dict_get (communicators s) k = None)"

lemma dict_pop_id: "dict_get d k = None \<Longrightarrow> dict_pop k d = d"
  by (force simp: dict_get_def dict_pop_def map_of_eq_None_iff filter_id_conv)

lemma dict_pop_put: "dict_get d k = None \<Longrightarrow> dict_pop k (dict_put k v d) = d"
  by (induction k v d rule: dict_put.induct) (auto simp: dict_get_Cons dict_pop_def split: if_splits)

lemma dict_pop_put_other: "k \<noteq> k' \<Longrightarrow> dict_pop k (dict_put k' v d) = dict_put k' v (dict_pop k d)"
  by (induction k' v d rule: dict_put.induct) (auto simp: dict_pop_def)

definition opened :: "'r p2p_state \<Rightarrow> int list" where
  "opened s = map the (filter (\<lambda>c. c \<noteq> None) [a2e_pynccl s, e2a_pynccl s])"

text \<open>The registry after any prefix of the initialisation, before and after the pops of \<open>close\<close>.\<close>

definition registry_clean :: "(int, int) dict \<Rightarrow> 'r p2p_state \<Rightarrow> bool" where
  "registry_clean reg s \<longleftrightarrow>
     pop_comm (e2a_comm_id s) (pop_comm (a2e_comm_id s) (communicators s)) = reg"

lemma open_subgroup_clean:
  assumes "fresh_connector s"
  shows "registry_clean (communicators s) (fst (open_subgroup env s)) \<and>
    p2p_pg (fst (open_subgroup env s)) = None \<and> destroyed (fst (open_subgroup env s)) = destroyed s"
  using assms
  by (auto simp: open_subgroup_def Let_def op_bind_def register_comm_def registry_clean_def pop_comm_def
      fresh_connector_def dict_pop_put dict_pop_id dict_pop_put_other split: sum.split)

lemma init_clean:
  assumes "fresh_connector s"
  shows "registry_clean (communicators s) (fst (init_afd_connector env s))"
proof -
  let ?t = "fst (open_subgroup env s)"
  have "registry_clean (communicators s) ?t" using open_subgroup_clean [OF assms] by blast
  moreover have "registry_clean (communicators s) s"
    using assms by (simp add: registry_clean_def pop_comm_def fresh_connector_def)
  ultimately show ?thesis
    using assms
    by (cases "open_subgroup env s")
      (auto simp: init_afd_connector_def Let_def op_bind_def registry_clean_def fresh_connector_def split: sum.split)
qed

lemma close_fields:
  "communicators (close s) = pop_comm (e2a_comm_id s) (pop_comm (a2e_comm_id s) (communicators s))"
  "a2e_comm_id (close s) = None" "e2a_comm_id (close s) = None" "a2e_pynccl (close s) = None"
  "e2a_pynccl (close s) = None" "p2p_pg (close s) = None" "p_initialized (close s) = False"
  "plane_closed (close s) = True" "destroyed (close s) = destroyed s @ opened s"
  "a2e_group (close s) = a2e_group s" "e2a_group (close s) = e2a_group s"
  by (auto simp: close_def close_control_plane_def Let_def opened_def split: option.split)

text \<open>Closing after an initialisation that succeeded or failed at any collective leaves the
  module's communicator registry as it was before, destroys every communicator the connector
  opened, closes its control plane, and closing again changes nothing.\<close>
theorem close_releases_everything:
  assumes "fresh_connector s" "u = fst (init_afd_connector env s)"
  shows "communicators (close u) = communicators s \<and> destroyed (close u) = destroyed u @ opened u \<and>
    opened (close u) = [] \<and> plane_closed (close u) \<and> p2p_pg (close u) = None \<and> close (close u) = close u"
proof -
  have "communicators (close u) = communicators s"
    using init_clean [OF assms(1), of env] by (simp add: assms(2) close_fields registry_clean_def)
  moreover have "close (close u) = close u"
    by (simp add: close_def [of "close u"] close_control_plane_def [of "close u"] close_fields pop_comm_def Let_def)
  ultimately show ?thesis by (simp add: close_fields opened_def)
qed

text \<open>On a closed connector every transfer raises before touching the wire, and the control plane
  reports its closure instead of a payload, whatever the group would still deliver.\<close>
theorem closed_connector_refuses:
  shows "recv_dp_metadata_list traffic closing (close s) = Inl ControlPlaneClosed \<and>
    send_dp_metadata_list p (close s) = [] \<and>
    send_hidden_states t dst (a2e_group (close s)) (a2e_comm_id (close s)) (close s) =
      (close s, Inl (RuntimeError ''P2P connector is not initialized'')) \<and>
    wire (fst (send_attn_output compiling h meta router ids (close s))) = wire (close s) \<and>
    \<not> is_ok (snd (send_attn_output compiling h meta router ids (close s)))"
  by (simp add: recv_dp_metadata_list_def send_dp_metadata_list_def close_fields Let_def
      send_hidden_states_def require_initialized_def op_bind_def send_attn_output_def is_ok_def
      split: option.split)

section \<open>DP metadata\<close>

lemma send_dp_attention:
  assumes "attention_connector A F a t" "0 < F" "F \<le> A" "0 \<le> a" "a < A" "a < F \<Longrightarrow> p2p_pg t \<noteq> None"
  shows "send_dp_metadata_list p t = (if a < F then send_control_payload p [a] else [])"
  using assms
  by (auto simp: send_dp_metadata_list_def attention_connector_def attention_mapping_def Let_def
      dest_loop_single)

text \<open>C34: with all Attention ranks of the deployment transmitting the same payload, FFN rank \<open>f\<close>
  receives from exactly one of them, the one whose group rank it listens to, and obtains the payload
  (stages reordered by their decimal keys).\<close>
theorem dp_metadata_reaches_every_ffn:
  assumes "0 < F" "F \<le> A" "0 \<le> f" "f < F"
    and "ffn_connector A F f s" "p2p_pg s \<noteq> None" "\<not> plane_closed s" "wf_payload p"
    and att: "\<forall>a. 0 \<le> a \<and> a < A \<longrightarrow> attention_connector A F a (t a) \<and> (a < F \<longrightarrow> p2p_pg (t a) \<noteq> None)"
    and transport: "\<forall>a m1 m2. 0 \<le> a \<and> a < A \<and> fragments_for f (send_dp_metadata_list p (t a)) = [m1, m2] \<longrightarrow>
      traffic (p2p_rank (p_mapping (t a))) =
        (Received (p2p_rank (p_mapping (t a))) m1, \<lambda>_. Received (p2p_rank (p_mapping (t a))) m2)"
  shows "recv_dp_metadata_list traffic (False, False, False, False) s = Inr (received_payload p) \<and>
    (\<forall>a. 0 \<le> a \<and> a < A \<and> a \<noteq> f \<longrightarrow> fragments_for f (send_dp_metadata_list p (t a)) = [])"
proof
  let ?bytes = "encode_control_payload p"
  let ?m1 = "SizeMsg (int (length ?bytes))" and ?m2 = "BytesMsg ?bytes"
  have send: "send_dp_metadata_list p (t a) = (if a < F then send_control_payload p [a] else [])"
    if "0 \<le> a" "a < A" for a
    using send_dp_attention [of A F a "t a" p] att that assms(1,2) by blast
  have f: "f < A" using assms(2,4) by simp
  have frag: "fragments_for f (send_dp_metadata_list p (t f)) = [?m1, ?m2]"
    by (simp add: send assms(3,4) f fragments_for_def send_control_payload_def Let_def)
  have rank: "p2p_rank (p_mapping (t f)) = F + f"
    using att assms(3) f by (auto simp: attention_connector_def attention_mapping_def Let_def)
  have tr: "traffic (F + f) = (Received (F + f) ?m1, \<lambda>_. Received (F + f) ?m2)"
    using transport [rule_format, of f ?m1 ?m2] frag assms(3) f by (simp add: rank)
  have src: "p2p_rank (p_mapping s) mod min_size (p_mapping s) + ffn_size (p_mapping s) = F + f" "min_size (p_mapping s) \<noteq> 0"
    using assms(1,3-5) by (simp_all add: ffn_connector_def ffn_mapping_def)
  have "recv_control_payload (Some False, Some False, Some False, Some False)
      (Received (F + f) ?m1) (\<lambda>_. Received (F + f) ?m2) = Inr (received_payload p)"
    by (rule recv_sent_payload [where d = f])
       (use assms(8) in \<open>simp_all add: send_control_payload_def Let_def\<close>)
  then show "recv_dp_metadata_list traffic (False, False, False, False) s = Inr (received_payload p)"
    by (simp add: recv_dp_metadata_list_def assms(6,7) src tr Let_def)
  show "\<forall>a. 0 \<le> a \<and> a < A \<and> a \<noteq> f \<longrightarrow> fragments_for f (send_dp_metadata_list p (t a)) = []"
    by (auto simp: send fragments_for_def send_control_payload_def Let_def)
qed

end
