(* ===== verification/P2P_Samples.thy ===== *)
theory P2P_Samples
  imports P2P_Lifecycle
begin

text \<open>
  A concrete P2P deployment, three Attention ranks and two FFN ranks, on which the properties of
  the connector are applied.
\<close>

section \<open>The deployment\<close>

definition demo_config :: "string \<Rightarrow> afd_config" where
  "demo_config r = default_config\<lparr>role := PStr r, num_attention_ranks := 3, num_ffn_ranks := 2\<rparr>"

definition demo_env :: p2p_env where
  "demo_env = \<lparr>join_group = (\<lambda>_ _ _. Inr 7), open_communicator = (\<lambda>k _ _ _. Inr (int k + 40))\<rparr>"

definition demo_ffn0 :: "int p2p_state" where
  "demo_ffn0 = projr (make_connector (demo_config ''ffn'') 0 0 False 8 BF16 [(0, 9)] 1 100)"

definition demo_ffn :: "int p2p_state" where
  "demo_ffn = fst (init_afd_connector demo_env demo_ffn0)"

definition demo_att :: "int \<Rightarrow> int p2p_state" where
  "demo_att a = fst (init_afd_connector demo_env
     (projr (make_connector (demo_config ''attention'') a 0 False 8 BF16 [] 0 100)))"

definition demo_dp :: dp_metadata where
  "demo_dp = \<lparr>num_tokens_across_dp_cpu = [2, 0, 3], max_tokens_across_dp_cpu = 3, local_sizes = None\<rparr>"

definition demo_payload :: "bool \<Rightarrow> control_payload" where
  "demo_payload capturing =
     \<lparr>dp_metadata_list = [(0, demo_dp), (1, demo_dp)], is_graph_capturing = capturing, is_warmup = False,
      is_graph_replaying = False, is_profile = False\<rparr>"

lemma demo_stages: "dp_metadata_list (demo_payload c) = [(0, demo_dp), (1, demo_dp)]"
  by (simp add: demo_payload_def)

lemma demo_wf: "wf_dict (dp_metadata_list (demo_payload c))" "dict_get (dp_metadata_list (demo_payload c)) 0 = Some demo_dp"
  by (simp_all add: demo_stages wf_dict_def dict_get_def)

lemma demo_wf_payload: "wf_payload (demo_payload c)"
  by (simp add: wf_payload_def demo_stages wf_dict_def demo_dp_def fits32_def)

lemma demo_ffn_mapping: "p_mapping demo_ffn = ffn_mapping 3 2 0" "role (p_config demo_ffn) = PStr ''ffn''"
  by code_simp+

lemma demo_ffn_connector: "ffn_connector 3 2 0 demo_ffn"
  by (simp add: ffn_connector_def demo_ffn_mapping)

lemma demo_ffn_ready: "p2p_ready demo_ffn"
proof -
  have "a2e_group demo_ffn = Some (group_size demo_ffn)" "e2a_group demo_ffn = Some (group_size demo_ffn)"
    "a2e_comm_id demo_ffn = Some 1" "dict_get (communicators demo_ffn) 1 \<noteq> None"
    "e2a_comm_id demo_ffn = Some 2" "dict_get (communicators demo_ffn) 2 \<noteq> None"
    by code_simp+
  then show ?thesis unfolding p2p_ready_def by blast
qed

lemma demo_ffn_buffers: "buffers_ok demo_ffn"
proof -
  have "recv_attn_buffers demo_ffn = []" "recv_attn_input_ids_buffers demo_ffn = []" by code_simp+
  then show ?thesis by (simp add: buffers_ok_def)
qed

lemma demo_ffn_fields: "p_enforce_eager demo_ffn = False" "group_size demo_ffn = 3" "p_hidden_size demo_ffn = 8"
  "p_dtype demo_ffn = BF16" "p2p_pg demo_ffn \<noteq> None" "\<not> plane_closed demo_ffn"
  by code_simp+

lemma demo_att_all:
  "a \<in> {0, 1, 2} \<Longrightarrow> attention_connector 3 2 a (demo_att a) \<and> p_hidden_size (demo_att a) = 8 \<and>
     p_dtype (demo_att a) = BF16"
proof -
  have "p_mapping (demo_att 0) = attention_mapping 3 2 0 \<and> role (p_config (demo_att 0)) = PStr ''attention'' \<and>
      p_hidden_size (demo_att 0) = 8 \<and> p_dtype (demo_att 0) = BF16"
    "p_mapping (demo_att 1) = attention_mapping 3 2 1 \<and> role (p_config (demo_att 1)) = PStr ''attention'' \<and>
      p_hidden_size (demo_att 1) = 8 \<and> p_dtype (demo_att 1) = BF16"
    "p_mapping (demo_att 2) = attention_mapping 3 2 2 \<and> role (p_config (demo_att 2)) = PStr ''attention'' \<and>
      p_hidden_size (demo_att 2) = 8 \<and> p_dtype (demo_att 2) = BF16"
    by code_simp+
  then show "a \<in> {0, 1, 2} \<Longrightarrow> ?thesis" by (auto simp: attention_connector_def)
qed

text \<open>Rank 2 is the third Attention rank, outside the first \<open>min_size\<close>: it has no metadata group.\<close>

lemma demo_att_groups: "p2p_pg (demo_att 0) \<noteq> None" "p2p_pg (demo_att 1) \<noteq> None" "p2p_pg (demo_att 2) = None"
  by code_simp+

section \<open>Applications\<close>

theorem p2p_shapes_agree_witness:
  "\<exists>m m'.
    dict_get (recv_attn_tensor_metadata_list (update_state_from_dp_metadata (demo_payload False) demo_ffn))
      (0, rank_in_subgroup (p_mapping (demo_att 1))) = Some m \<and>
    dict_get (tensor_metadata_list (update_state_from_dp_metadata (demo_payload False) (demo_att 1))) 0 = Some m' \<and>
    size_key m = size_key m' \<and> tm_dtype m = tm_dtype m' \<and> 1 \<le> tm_rows m"
proof (rule p2p_shapes_agree [of 2 3 1 demo_ffn "demo_att 1" "demo_payload False" 0 demo_dp])
  show "ffn_connector 3 2 (subgroup_of_attention 1 3 2) demo_ffn"
    using demo_ffn_connector by (simp add: subgroup_of_attention_def)
qed (use demo_att_all [of 1] demo_wf in \<open>simp_all add: demo_ffn_fields\<close>)

definition demo_rows :: "int \<Rightarrow> int list" where
  "demo_rows src = (if src = 1 then [10, 11] else [20])"



text \<open>The second communicator fails to open: the first is still released.\<close>

definition failing_env :: p2p_env where
  "failing_env = demo_env\<lparr>open_communicator := (\<lambda>k _ _ _. if k = 0 then Inr 40 else Inl (RuntimeError ''NCCL''))\<rparr>"


definition demo_traffic :: "int \<Rightarrow> recv_outcome \<times> (int \<Rightarrow> recv_outcome)" where
  "demo_traffic src =
     (case fragments_for 0 (send_dp_metadata_list (demo_payload True) (demo_att (src - 2))) of
        [m1, m2] \<Rightarrow> (Received src m1, \<lambda>_. Received src m2)
      | _ \<Rightarrow> (RecvError (RuntimeError ''timeout''), \<lambda>_. RecvError (RuntimeError ''timeout'')))"

theorem dp_metadata_reaches_every_ffn_witness:
  "recv_dp_metadata_list demo_traffic (False, False, False, False) demo_ffn = Inr (received_payload (demo_payload True))"
proof -
  have A: "a \<in> {0, 1, 2}" if "0 \<le> a \<and> a < (3::int)" for a using that by auto
  have att: "\<forall>a. 0 \<le> a \<and> a < 3 \<longrightarrow> attention_connector 3 2 a (demo_att a) \<and> (a < 2 \<longrightarrow> p2p_pg (demo_att a) \<noteq> None)"
  proof (intro allI impI conjI)
    fix a :: int assume a: "0 \<le> a \<and> a < 3"
    then show "attention_connector 3 2 a (demo_att a)" using demo_att_all A by blast
    show "p2p_pg (demo_att a) \<noteq> None" if "a < 2"
      using A [OF a] that demo_att_groups by auto
  qed
  have "p2p_rank (p_mapping (demo_att a)) = a + 2" if "0 \<le> a \<and> a < 3" for a
    using att that by (auto simp: attention_connector_def attention_mapping_def Let_def)
  then have tr: "\<forall>a m1 m2. 0 \<le> a \<and> a < 3 \<and> fragments_for 0 (send_dp_metadata_list (demo_payload True) (demo_att a)) = [m1, m2] \<longrightarrow>
      demo_traffic (p2p_rank (p_mapping (demo_att a))) =
        (Received (p2p_rank (p_mapping (demo_att a))) m1, \<lambda>_. Received (p2p_rank (p_mapping (demo_att a))) m2)"
    by (simp add: demo_traffic_def)
  show ?thesis
    using dp_metadata_reaches_every_ffn [OF _ _ _ _ demo_ffn_connector _ _ demo_wf_payload att tr]
      demo_ffn_fields by simp
qed

end
