(* ===== verification/Runner_Samples.thy ===== *)
theory Runner_Samples
  imports Deepep_Samples Ffn_Routed P2P_Samples Ffn_Runner
begin

text \<open>
  Steps of the FFN runners on the two demonstration deployments.
\<close>

section \<open>A routed-experts step\<close>

definition demo_experts_of :: "int \<Rightarrow> routed_experts result" where
  "demo_experts_of layer =
     Inr \<lparr>re_fp8_backend = None, re_unquantized_backend = Some (Some ''TRITON''),
       re_w13 = \<lparr>ti_dtype = BF16, ti_shape = [2, 128, 64]\<rparr>, re_w2 = \<lparr>ti_dtype = BF16, ti_shape = [2, 64, 64]\<rparr>,
       re_w13_scale_inv = None, re_w2_scale_inv = None, re_local_expert_ids = [2 * layer, 2 * layer + 1]\<rparr>"

lemma demo_load: "load_routed_experts [1, 2] demo_experts_of = Inr ([1, 2], snd (projr (load_routed_experts [1, 2] demo_experts_of)))"
  by code_simp

lemma demo_serving: "serving (demo_deepep_env 6)"
  by (simp add: serving_def demo_deepep_env_def)

theorem routed_step_follows_attention_witness:
  "\<exists>s'. routed_forward (deepep_ops (demo_deepep_env 6) False) [1, 2] (snd (projr (load_routed_experts [1, 2] demo_experts_of)))
      True demo_step_payload (demo_ready ''ffn'') = (s', Inr ()) \<and>
    lane_calls (ds_log s') = lane_calls (ds_log (demo_ready ''ffn'')) @
      [Recv 0, Recv 1, Send 0, Recv 0, Send 1, Recv 1, Send 0, Send 1]"
proof -
  have r: "ds_initialized (demo_ready ''ffn'')" "ds_experts (demo_ready ''ffn'')" "has_lane (demo_ready ''ffn'') 0"
    "has_lane (demo_ready ''ffn'') 1"
    by code_simp+
  have d: "dp_metadata_list demo_step_payload = [(0, demo_counts_of 5), (1, demo_counts_of 3)]"
    by (simp add: demo_step_payload_def)
  have "attention_order (length [1, 2 :: int]) (stage_ids demo_step_payload) =
      [Recv 0, Recv 1, Send 0, Recv 0, Send 1, Recv 1, Send 0, Send 1]"
    by code_simp
  with routed_step_follows_attention [OF demo_serving r(1,2) _ _ _ demo_planned_run(2) demo_load, of False] r(3,4)
  show ?thesis by (simp add: d wf_dict_def)
qed

section \<open>A step of the P2P runner\<close>

definition demo_model :: "int ffn_model" where
  "demo_model =
     \<lparr>fm_experts_layers = [1], fm_routing_spec = (\<lambda>_. \<lparr>router_logits_dtype = BF16, router_logits_width = 4\<rparr>), fm_requires_input_ids = False,
      fm_compute_experts = (\<lambda>_ rows layer router.
        Inr \<lparr>t_rows = map2 (\<lambda>h r. layer * h + r) rows router, t_tail = [8], t_dtype = BF16, t_is_cpu = False\<rparr>),
      fm_compute_ffn = (\<lambda>_ rows layer ids.
        Inr \<lparr>t_rows = (case ids of None \<Rightarrow> map (\<lambda>h. h + layer) rows | Some is \<Rightarrow> map2 (\<lambda>h i. h + i) rows is), t_tail = [8],
          t_dtype = BF16, t_is_cpu = False\<rparr>),
      fm_all_moe_layers = [''model.layers.1.mlp'']\<rparr>"

definition demo_rc :: runner_config where
  "demo_rc = \<lparr>rc_num_layers = 2, rc_compute_gate = False, rc_data_parallel_size = 2\<rparr>"

lemma demo_row_wise:
  "row_wise demo_model (\<lambda>layer h r. layer * h + r) (\<lambda>_ h i. h + i) (\<lambda>layer h. h + layer)"
  by (simp add: row_wise_def demo_model_def)

text \<open>What the two peers send, and how it arrives.\<close>

definition demo_rows_of :: "int traffic_of" where
  "demo_rows_of = \<lparr>tr_hidden = (\<lambda>_ _. demo_rows), tr_router = (\<lambda>_ _. demo_rows), tr_ids = (\<lambda>_ _. demo_rows)\<rparr>"

definition demo_net :: "int \<Rightarrow> int \<Rightarrow> int delivery" where
  "demo_net layer k = match_posts (peer_stream None False demo_rows demo_rows demo_rows)"

lemma demo_step_order: "step_order demo_rc demo_model (demo_payload c) = [(0, 0), (0, 1), (1, 0), (1, 1)]"
proof -
  have "dp_metadata_list (demo_payload c) = dp_metadata_list (demo_payload True)" by (simp add: demo_stages)
  moreover have "step_order demo_rc demo_model (demo_payload True) = [(0, 0), (0, 1), (1, 0), (1, 1)]" by code_simp
  ultimately show ?thesis by (simp add: step_order_def)
qed

lemma demo_dp_metadata: "is_ok (make_ffn_dp_metadata demo_rc demo_ffn demo_dp)"
  by code_simp

lemma demo_arrives:
  assumes "(layer, k) \<in> {(0, 0), (0, 1), (1, 0), (1, 1)}"
  shows "arrives demo_rc demo_model demo_rows_of (planned (demo_payload c) demo_ffn) (peer_ranks demo_ffn) layer k (demo_net layer k)"
proof -
  have ranks: "peer_ranks demo_ffn = [1, 2]"
    and rows: "peer_tokens demo_ffn demo_dp 1 = 2" "peer_tokens demo_ffn demo_dp 2 = 1" by code_simp+
  have "dict_get (dp_metadata_list (demo_payload c)) k = Some demo_dp" using assms by (auto simp: demo_stages dict_get_def)
  then have "tm_rows (planned (demo_payload c) demo_ffn k 1) = 2" "tm_rows (planned (demo_payload c) demo_ffn k 2) = 1"
    by (simp_all add: planned_def hidden_meta_def rows)
  then show ?thesis
    by (simp add: arrives_def nccl_matching_def demo_net_def demo_rows_of_def ranks demo_rows_def routed_here_def demo_rc_def demo_model_def)
qed

lemma demo_step_shapes: "step_shapes demo_rc demo_model demo_ffn (demo_payload True) =
    concat (replicate 4 [RecvGroupShape 1 [1, 2], SendGroupShape 2 [(1, 2), (2, 1)]])"
  by code_simp

theorem ffn_step_answers_every_peer_witness:
  "\<exists>t ops. ffn_forward demo_rc demo_model demo_net None True (demo_payload True) demo_ffn = (t, Inr ()) \<and>
    wire t = wire demo_ffn @ ops \<and>
    step_exchanges demo_rc demo_model (\<lambda>layer h r. layer * h + r) (\<lambda>_ h i. h + i) (\<lambda>layer h. h + layer) demo_rows_of
      demo_ffn (demo_payload True) ops \<and>
    map shape_of ops = concat (replicate 4 [RecvGroupShape 1 [1, 2], SendGroupShape 2 [(1, 2), (2, 1)]])"
  using ffn_step_answers_every_peer [OF _ _ _ _ demo_ffn_connector demo_ffn_ready demo_ffn_buffers
      demo_wf(1) [of True] _ demo_row_wise, of demo_rc demo_rows_of demo_net None]
    demo_dp_metadata demo_arrives [of _ _ True]
  by (simp add: demo_step_order demo_stages demo_step_shapes)

fun demo_launch :: "wire_shape \<Rightarrow> int wire_op" where
  "demo_launch (SendShape c dst n) = Sent c dst \<lparr>t_rows = replicate n 0, t_tail = [8], t_dtype = BF16, t_is_cpu = False\<rparr>"
| "demo_launch (RecvShape c src) = Recvd c src \<lparr>buf_addr = 0, buf_meta = hidden_meta demo_ffn 1\<rparr>"
| "demo_launch (SendGroupShape c xs) = SentGroup c (map (\<lambda>(dst, n). (dst, replicate n 0)) xs)"
| "demo_launch (RecvGroupShape c xs) = RecvdGroup c (map (\<lambda>src. (src, \<lparr>buf_addr = 0, buf_meta = hidden_meta demo_ffn 1\<rparr>)) xs)"

lemma demo_launch_shape: "map shape_of (map demo_launch g) = g"
proof -
  have "shape_of (demo_launch x) = x" for x by (cases x) (auto simp: comp_def split_def)
  then show ?thesis by (simp add: comp_def)
qed

lemma demo_launch_dev: "\<forall>g. map shape_of (map demo_launch g) = g"
  by (intro allI demo_launch_shape)

definition demo_runner :: "int ffn_runner" where
  "demo_runner =
     \<lparr>fr_conn = demo_ffn, fr_graphs = [], fr_graph_pool = False, fr_use_cuda_graph = True, fr_graph_capturing = False,
      fr_model_loaded = True, fr_connector_closed = False\<rparr>"

theorem replayed_step_is_the_captured_step_witness:
  "\<exists>r1 r3 ops. capture_model (ffn_forward demo_rc demo_model demo_net None) (Some [(0, demo_dp), (1, demo_dp)]) False True
      demo_runner = (r1, Inr ()) \<and>
    execute_model (map demo_launch) (ffn_forward demo_rc demo_model demo_net None) (Some [(1, demo_dp), (0, demo_dp)])
      False False True r1 = (r3, Inr ()) \<and>
    wire (fr_conn r3) = wire (fr_conn r1) @ ops \<and>
    map shape_of ops = concat (replicate 4 [RecvGroupShape 1 [1, 2], SendGroupShape 2 [(1, 2), (2, 1)]])"
proof -
  let ?l = "[(0 :: int, demo_dp), (1, demo_dp)]" and ?l' = "[(1 :: int, demo_dp), (0, demo_dp)]"
  have p: "demo_payload True = make_dp_metadata_payload ?l True False False"
    by (simp add: demo_payload_def make_dp_metadata_payload_def)
  have shapes: "step_shapes demo_rc demo_model demo_ffn (make_dp_metadata_payload ?l' False False True) =
      concat (replicate 4 [RecvGroupShape 1 [1, 2], SendGroupShape 2 [(1, 2), (2, 1)]])"
    and key: "step_key (make_dp_metadata_payload ?l' False False True) = step_key (demo_payload True)"
    by code_simp+
  have conn: "fr_conn demo_runner = demo_ffn" "fr_use_cuda_graph demo_runner" by (simp_all add: demo_runner_def)
  have wf: "wf_dict ?l" "wf_dict ?l'" by (simp_all add: wf_dict_def)
  have ok: "\<forall>(k, d) \<in> set ?l. is_ok (make_ffn_dp_metadata demo_rc (fr_conn demo_runner) d)"
    by (simp add: conn demo_dp_metadata)
  have arr: "\<forall>(layer, k) \<in> set (step_order demo_rc demo_model (demo_payload True)).
      arrives demo_rc demo_model demo_rows_of (planned (demo_payload True) (fr_conn demo_runner)) (peer_ranks (fr_conn demo_runner))
        layer k (demo_net layer k)"
    using demo_arrives [of _ _ True] by (simp add: demo_step_order conn)
  have sz: "0 < (2::int)" "(2::int) \<le> 3" "0 \<le> (0::int)" "(0::int) < 2" by simp_all
  obtain r1 where r1: "capture_model (ffn_forward demo_rc demo_model demo_net None) (Some ?l) False True demo_runner = (r1, Inr ())"
    and enabled: "fr_use_cuda_graph r1"
    and rep: "\<forall>r2 fwd. fr_graphs r2 = fr_graphs r1 \<and> fr_use_cuda_graph r2 \<longrightarrow>
       (\<exists>r3 ops. execute_model (map demo_launch) fwd (Some ?l') False False True r2 = (r3, Inr ()) \<and>
          wire (fr_conn r3) = wire (fr_conn r2) @ ops \<and>
          map shape_of ops = step_shapes demo_rc demo_model (fr_conn demo_runner) (make_dp_metadata_payload ?l' False False True))"
    using replayed_step_is_the_captured_step [OF sz, where r = demo_runner, unfolded conn(1), OF demo_ffn_connector demo_ffn_ready
        demo_ffn_buffers conn(2) demo_row_wise p wf(1) _ ok [unfolded conn(1)] arr [unfolded conn(1)] wf(2) key demo_launch_dev]
    unfolding conn(1) by blast
  obtain r3 ops where "execute_model (map demo_launch) (ffn_forward demo_rc demo_model demo_net None) (Some ?l') False False True r1 =
        (r3, Inr ())" "wire (fr_conn r3) = wire (fr_conn r1) @ ops"
      "map shape_of ops = step_shapes demo_rc demo_model (fr_conn demo_runner) (make_dp_metadata_payload ?l' False False True)"
    using rep enabled by blast
  then show ?thesis using r1 unfolding conn shapes by blast
qed

end
