(* ===== verification/Worker_Samples.thy ===== *)
theory Worker_Samples
  imports Worker_Planes Runner_Samples
begin

text \<open>
  Histories of the FFN worker on the two demonstration deployments: a loop that fails, and loops
  that are shut down in the middle of a receive.
\<close>

definition demo_ops :: "int ffn_runner loop_ops" where
  "demo_ops = p2p_loop_ops demo_env (map demo_launch) (ffn_forward demo_rc demo_model demo_net None) 2"

definition demo_gone :: recv_outcome where
  "demo_gone = RecvValueError (''Group 0x7f '' @ not_registered_suffix)"

text \<open>The shutdown begins while the loop waits for a payload; the abort makes the wait fail.\<close>

definition demo_startup :: "move list" where
  "demo_startup = [Call Start, Loop 0 demo_gone, Loop 0 demo_gone, Loop 0 demo_gone, Loop 0 demo_gone]"

definition demo_shutdown :: "move list" where
  "demo_shutdown = [Call Shutdown, Main, Main, Loop 0 demo_gone, Loop 0 demo_gone, Main, Loop 0 demo_gone, Main]"

text \<open>A receive times out; the worker is then shut down.\<close>

definition demo_timeout :: "move list" where
  "demo_timeout = demo_startup @ [Loop 0 (RecvError (RuntimeError ''timeout'')), Loop 0 demo_gone, Loop 0 demo_gone]"

abbreviation demo_after :: "move list \<Rightarrow> int ffn_runner ffn_worker" where
  "demo_after ms \<equiv> fold (perform demo_ops) ms (new_worker demo_runner)"

lemma demo_possible:
  "possible demo_ops (\<lambda>m w. \<not> faulty_move demo_ops 2 m w) (demo_startup @ demo_shutdown) (new_worker demo_runner)"
  "possible demo_ops (\<lambda>_ _. True) (demo_timeout @ [Loop 0 demo_gone, Call Shutdown, Main, Main, Main, Main]) (new_worker demo_runner)"
  by code_simp+

lemma demo_results:
  "fw_calls (demo_after (demo_startup @ demo_shutdown)) = [(Start, Inr ()), (Shutdown, Inr ())]"
  "fw_released (demo_after (demo_startup @ demo_shutdown)) = 1"
  by code_simp+

lemma demo_split: "demo_shutdown = [Call Shutdown, Main, Main, Loop 0 demo_gone, Loop 0 demo_gone, Main, Loop 0 demo_gone] @ [Main]"
  by (simp add: demo_shutdown_def)

theorem native_release_after_loop_witness:
  "length (filter live (fw_threads (demo_after (demo_startup @ demo_shutdown)))) \<le> 1 \<and>
   filter live (fw_threads (demo_after (demo_startup @ demo_shutdown))) = []"
proof -
  let ?ms = "demo_startup @ [Call Shutdown, Main, Main, Loop 0 demo_gone, Loop 0 demo_gone, Main, Loop 0 demo_gone]"
  have ms: "demo_startup @ demo_shutdown = ?ms @ [Main]" by (simp add: demo_split)
  have p: "possible demo_ops (\<lambda>m w. \<not> faulty_move demo_ops 2 m w) (?ms @ [Main]) (new_worker demo_runner)"
    using demo_possible(1) by (simp only: ms)
  have r: "worker_run demo_ops (new_worker demo_runner) ?ms (demo_after ?ms)"
    by (rule possible_split(1) [OF p])
  have s: "worker_step demo_ops (demo_after ?ms) Main (demo_after (?ms @ [Main]))"
    unfolding worker_step_iff using p by (simp only: possible_append [where xs = ?ms] possible.simps) simp
  have "fw_released (demo_after ?ms) = 0" by code_simp
  with native_release_after_loop [OF r s] demo_results(2) show ?thesis unfolding ms by simp
qed

lemma demo_timeout_run: "worker_run demo_ops (new_worker demo_runner) demo_timeout (demo_after demo_timeout)"
  by (rule possible_split(1) [OF demo_possible(2)])

lemma demo_timeout_rest:
  "worker_run demo_ops (demo_after demo_timeout) [Loop 0 demo_gone, Call Shutdown, Main, Main, Main, Main]
     (demo_after (demo_timeout @ [Loop 0 demo_gone, Call Shutdown, Main, Main, Main, Main]))"
  by (rule possible_split(2) [OF demo_possible(2)])

theorem loop_error_is_retained_witness:
  "fw_error (demo_after (demo_timeout @ [Loop 0 demo_gone, Call Shutdown, Main, Main, Main, Main])) = Some (RuntimeError ''timeout'') \<and>
   (\<exists>new. fw_calls (demo_after (demo_timeout @ [Loop 0 demo_gone, Call Shutdown, Main, Main, Main, Main])) =
      fw_calls (demo_after demo_timeout) @ new \<and> list_all failed_call new)"
proof -
  have "fw_error (demo_after demo_timeout) = Some (RuntimeError ''timeout'')" by code_simp
  from loop_error_is_retained [OF demo_timeout_run this demo_timeout_rest] show ?thesis .
qed




section \<open>DeepEP\<close>

text \<open>Here the aborted receive raises an error of NCCL's own.\<close>

definition demo_deepep_ops :: "deepep_state loop_ops" where
  "demo_deepep_ops = deepep_loop_ops (demo_deepep_env 6) [1, 2] (snd (projr (load_routed_experts [1, 2] demo_experts_of)))
     (\<lambda>_ _ _. True)"

definition demo_nccl_error :: recv_outcome where
  "demo_nccl_error = RecvError (RuntimeError ''NCCL communicator was aborted'')"

definition demo_deepep_moves :: "move list" where
  "demo_deepep_moves = [Loop 0 demo_gone, Loop 0 demo_gone, Loop 0 demo_gone, Loop 0 demo_gone, Call Stop, Main, Main,
     Loop 0 demo_nccl_error, Main, Loop 0 demo_gone, Loop 0 demo_gone, Main]"

theorem deepep_stop_is_clean_witness:
  "fw_error (fold (perform demo_deepep_ops) (Call Start # demo_deepep_moves) (new_worker (demo_ready ''ffn''))) = None \<and>
   list_all clean_call (fw_calls (fold (perform demo_deepep_ops) (Call Start # demo_deepep_moves) (new_worker (demo_ready ''ffn''))))"
proof -
  let ?v = "new_worker (demo_ready ''ffn'')"
  let ?w = "perform demo_deepep_ops (Call Start) ?v"
  have p: "possible demo_deepep_ops (\<lambda>m w. \<not> faulty_move demo_deepep_ops 2 m w) demo_deepep_moves ?w" by code_simp
  have s: "worker_step demo_deepep_ops ?v (Call Start) ?w"
    by (rule iffD2 [OF worker_step_iff]) (simp add: new_worker_def)
  note r = possible_sound [OF p]
  have init: "ds_initialized (demo_ready ''ffn'')" "\<not> ds_closed (demo_ready ''ffn'')" "ds_group (demo_ready ''ffn'') \<noteq> None"
    "ds_aborted (demo_ready ''ffn'') = []" by code_simp+
  have nostart: "Call Start \<notin> set demo_deepep_moves" by (simp add: demo_deepep_moves_def)
  from deepep_stop_is_clean [OF init demo_deepep_ops_def s r nostart] show ?thesis by simp
qed

end
