(* ===== verification/Proxy_Scheduler.thy ===== *)
theory Proxy_Scheduler
  imports Py_Value "HOL-Library.List_Lexorder" "HOL-Library.Product_Lexorder" "HOL-Library.Char_ord"
begin

text \<open>
  The scheduler shared by the workers of \<open>tools/proxy_server.py\<close>: per role the live servers, a
  min-heap with lazily deleted entries and the servers isolated for removal.  Every public method
  holds one lock, so a method is one step.  The arithmetic on loads is a parameter, a record of
  the float operations the code uses on a linear order.
\<close>

section \<open>Servers\<close>

text \<open>\<open>f_weight x\<close> is \<open>x * 0.3\<close>, \<open>f_taint\<close> is \<open>TAINT_PRIORITY\<close>.\<close>

record 'f arith =
  f_zero :: 'f
  f_add :: "'f \<Rightarrow> 'f \<Rightarrow> 'f"
  f_sub :: "'f \<Rightarrow> 'f \<Rightarrow> 'f"
  f_weight :: "'f \<Rightarrow> 'f"
  f_taint :: 'f

datatype server_role = PREFILL | DECODE

definition role_value :: "server_role \<Rightarrow> string" where
  "role_value r = (case r of PREFILL \<Rightarrow> ''prefill'' | DECODE \<Rightarrow> ''decode'')"

record 'f backend_server =
  bs_host :: string
  bs_port :: int
  bs_ordinal :: nat
  bs_active_tokens :: 'f
  bs_active_kv_cache :: 'f
  bs_heap_seq :: nat

type_synonym 'f entry = "'f \<times> nat \<times> nat \<times> string"

record 'f role_pools =
  po_servers :: "(string, 'f backend_server) dict"
  po_heap :: "'f entry list"
  po_tainted :: "string set"

text \<open>\<open>s.replace(old, new)\<close> for a non-empty \<open>old\<close>; \<open>n\<close> characters of a match are still to be skipped.\<close>

fun replace_from :: "nat \<Rightarrow> string \<Rightarrow> string \<Rightarrow> string \<Rightarrow> string" where
  "replace_from n old new [] = []"
| "replace_from (Suc n) old new (c # s) = replace_from n old new s"
| "replace_from 0 old new (c # s) =
     (if old \<noteq> [] \<and> take (length old) (c # s) = old then new @ replace_from (length old - 1) old new s
      else c # replace_from 0 old new s)"

definition str_replace :: "string \<Rightarrow> string \<Rightarrow> string \<Rightarrow> string" where
  "str_replace old new s = replace_from 0 old new s"

definition normalize_host :: "string \<Rightarrow> string" where
  "normalize_host host = str_replace ''127.0.0.1'' ''0.0.0.0'' (str_replace ''localhost'' ''0.0.0.0'' host)"

definition server_key :: "string \<Rightarrow> int \<Rightarrow> string" where
  "server_key host port = normalize_host host @ '':'' @ py_str_int port"

section \<open>The heap of a pool\<close>

text \<open>
  \<open>heapq\<close> by its contract: a heap gives its entries back in order.  Entries are compared as the
  tuples they are, so the heap is kept as the ordered list of its entries.
\<close>

definition heappush :: "'a::linorder \<Rightarrow> 'a list \<Rightarrow> 'a list" where
  "heappush x h = insort x h"

definition heapify :: "'a::linorder list \<Rightarrow> 'a list" where
  "heapify xs = sort xs"

definition priority :: "'f arith \<Rightarrow> server_role \<Rightarrow> string set \<Rightarrow> 'f backend_server \<Rightarrow> string \<Rightarrow> 'f" where
  "priority ar r tainted e key =
     (if key \<in> tainted then f_taint ar
      else case r of PREFILL \<Rightarrow> f_add ar (bs_active_tokens e) (f_weight ar (bs_active_kv_cache e))
           | DECODE \<Rightarrow> bs_active_tokens e)"

definition heap_entry :: "'f arith \<Rightarrow> server_role \<Rightarrow> string set \<Rightarrow> string \<Rightarrow> 'f backend_server \<Rightarrow> 'f entry" where
  "heap_entry ar r tainted key e = (priority ar r tainted e key, bs_ordinal e, bs_heap_seq e, key)"

definition bump :: "'f backend_server \<Rightarrow> 'f backend_server" where
  "bump e = e\<lparr>bs_heap_seq := Suc (bs_heap_seq e)\<rparr>"

definition reset_heap :: "'f::linorder arith \<Rightarrow> server_role \<Rightarrow> bool \<Rightarrow> 'f role_pools \<Rightarrow> 'f role_pools" where
  "reset_heap ar r bump_seq p =
     (let servers = (if bump_seq then map (\<lambda>(k, e). (k, bump e)) (po_servers p) else po_servers p)
      in p\<lparr>po_servers := servers, po_heap := heapify (map (\<lambda>(k, e). heap_entry ar r (po_tainted p) k e) servers)\<rparr>)"

definition push_heap :: "'f::linorder arith \<Rightarrow> server_role \<Rightarrow> string \<Rightarrow> ('f role_pools, unit) op" where
  "push_heap ar r key = (\<lambda>p.
     case dict_get (po_servers p) key of
       None \<Rightarrow> (p, Inl KeyError)
     | Some e \<Rightarrow>
         (let p = p\<lparr>po_servers := dict_put key (bump e) (po_servers p),
                    po_heap := heappush (heap_entry ar r (po_tainted p) key (bump e)) (po_heap p)\<rparr>
          in (if length (po_heap p) > 2 * length (po_servers p) then reset_heap ar r False p else p, Inr ())))"

text \<open>The loop of \<open>_pop_valid\<close>; \<open>None\<close> when the heap runs out.\<close>

fun pop_valid :: "(string, 'f backend_server) dict \<Rightarrow> 'f entry list \<Rightarrow> 'f entry list \<times> string option" where
  "pop_valid servers [] = ([], None)"
| "pop_valid servers ((x, o', q, key) # h) =
     (case dict_get servers key of
        None \<Rightarrow> pop_valid servers h
      | Some e \<Rightarrow> if bs_heap_seq e = q then (h, Some key) else pop_valid servers h)"

definition pop_valid_server :: "server_role \<Rightarrow> ('f role_pools, string) op" where
  "pop_valid_server r = (\<lambda>p.
     case pop_valid (po_servers p) (po_heap p) of
       (h, None) \<Rightarrow> (p\<lparr>po_heap := h\<rparr>, Inl (RuntimeError (''No available '' @ role_value r @ '' servers'')))
     | (h, Some k) \<Rightarrow> (p\<lparr>po_heap := h\<rparr>, Inr k))"

text \<open>A picked server as the caller sees it: key, host and port.\<close>

type_synonym picked = "string \<times> string \<times> int"

definition add_load :: "'f::linorder arith \<Rightarrow> bool \<Rightarrow> bool \<Rightarrow> 'f \<Rightarrow> 'f backend_server \<Rightarrow> 'f backend_server" where
  "add_load ar active_tokens kv_cache load e =
     (let e = (if active_tokens then e\<lparr>bs_active_tokens := f_add ar (bs_active_tokens e) load\<rparr> else e)
      in if kv_cache then e\<lparr>bs_active_kv_cache := f_add ar (bs_active_kv_cache e) load\<rparr> else e)"

definition drop_load :: "'f::linorder arith \<Rightarrow> bool \<Rightarrow> bool \<Rightarrow> 'f \<Rightarrow> 'f backend_server \<Rightarrow> 'f backend_server" where
  "drop_load ar active_tokens kv_cache load e =
     (let e = (if active_tokens then e\<lparr>bs_active_tokens := f_sub ar (bs_active_tokens e) load\<rparr> else e)
      in if kv_cache then e\<lparr>bs_active_kv_cache := max (f_zero ar) (f_sub ar (bs_active_kv_cache e) load)\<rparr> else e)"

definition update_server :: "string \<Rightarrow> ('f backend_server \<Rightarrow> 'f backend_server) \<Rightarrow> ('f role_pools, 'f backend_server) op" where
  "update_server key f = (\<lambda>p.
     case dict_get (po_servers p) key of
       None \<Rightarrow> (p, Inl KeyError)
     | Some e \<Rightarrow> (p\<lparr>po_servers := dict_put key (f e) (po_servers p)\<rparr>, Inr (f e)))"

definition pick_server :: "'f::linorder arith \<Rightarrow> server_role \<Rightarrow> 'f \<Rightarrow> bool \<Rightarrow> bool \<Rightarrow> ('f role_pools, picked) op" where
  "pick_server ar r load active_tokens kv_cache =
     op_bind (pop_valid_server r) (\<lambda>key.
     op_bind (update_server key (add_load ar active_tokens kv_cache load)) (\<lambda>e.
     op_bind (push_heap ar r key) (\<lambda>_.
     op_return (key, bs_host e, bs_port e))))"

definition release_load ::
  "'f::linorder arith \<Rightarrow> server_role \<Rightarrow> string option \<Rightarrow> 'f \<Rightarrow> bool \<Rightarrow> bool \<Rightarrow> ('f role_pools, unit) op" where
  "release_load ar r key load active_tokens kv_cache =
     (case key of
        None \<Rightarrow> op_return ()
      | Some k \<Rightarrow>
          op_bind (op_get (\<lambda>p. k = [] \<or> dict_get (po_servers p) k = None)) (\<lambda>absent.
          if absent then op_return ()
          else op_bind (update_server k (drop_load ar active_tokens kv_cache load)) (\<lambda>_. push_heap ar r k)))"


section \<open>The scheduler\<close>

text \<open>A waiting node: its role as given, its address, and how often it was tried.\<close>

type_synonym waiting_node = "string \<times> (string \<times> int) \<times> int"

record 'f scheduler =
  sc_pools :: "server_role \<Rightarrow> 'f role_pools"
  sc_request_num :: int
  sc_waiting :: "(string, waiting_node) dict"
  sc_ordinal :: nat

definition on_pool :: "server_role \<Rightarrow> ('f role_pools, 'a) op \<Rightarrow> ('f scheduler, 'a) op" where
  "on_pool r m = (\<lambda>s. case m (sc_pools s r) of (p, x) \<Rightarrow> (s\<lparr>sc_pools := (sc_pools s)(r := p)\<rparr>, x))"

definition servers_of :: "server_role \<Rightarrow> 'f scheduler \<Rightarrow> (string, 'f backend_server) dict" where
  "servers_of r s = po_servers (sc_pools s r)"

definition new_server :: "'f arith \<Rightarrow> string \<Rightarrow> int \<Rightarrow> nat \<Rightarrow> 'f backend_server" where
  "new_server ar host port ordinal =
     \<lparr>bs_host = host, bs_port = port, bs_ordinal = ordinal, bs_active_tokens = f_zero ar,
      bs_active_kv_cache = f_zero ar, bs_heap_seq = 0\<rparr>"

definition store_server :: "string \<Rightarrow> 'f backend_server \<Rightarrow> 'f role_pools \<Rightarrow> 'f role_pools" where
  "store_server key e p = p\<lparr>po_servers := dict_put key e (po_servers p)\<rparr>"

definition add_server :: "'f::linorder arith \<Rightarrow> server_role \<Rightarrow> string \<Rightarrow> int \<Rightarrow> ('f scheduler, bool) op" where
  "add_server ar r host port =
     (let key = server_key host port in
      op_bind (op_get (\<lambda>s. (dict_get (servers_of r s) key, sc_ordinal s))) (\<lambda>(found, ordinal).
      if found \<noteq> None then op_return False
      else
        op_bind (op_modify (\<lambda>s. s\<lparr>sc_ordinal := Suc ordinal\<rparr>)) (\<lambda>_.
        op_bind (on_pool r (op_modify (store_server key (new_server ar host port ordinal)))) (\<lambda>_.
        op_bind (on_pool r (push_heap ar r key)) (\<lambda>_.
        op_return True)))))"

definition empty_pools :: "'f role_pools" where
  "empty_pools = \<lparr>po_servers = [], po_heap = [], po_tainted = {}\<rparr>"

definition make_scheduler :: "'f::linorder arith \<Rightarrow> (string \<times> int) list \<Rightarrow> (string \<times> int) list \<Rightarrow> 'f scheduler \<times> unit result" where
  "make_scheduler ar prefillers decoders =
     op_bind (op_mapM (\<lambda>(h, p). add_server ar PREFILL h p) prefillers) (\<lambda>_.
     op_bind (op_mapM (\<lambda>(h, p). add_server ar DECODE h p) decoders) (\<lambda>_.
     op_return ()))
       \<lparr>sc_pools = (\<lambda>_. empty_pools), sc_request_num = 0, sc_waiting = [], sc_ordinal = 0\<rparr>"

definition get_snapshot :: "'f scheduler \<Rightarrow> server_role \<Rightarrow> (string \<times> int) list" where
  "get_snapshot s r = map (\<lambda>(_, e). (bs_host e, bs_port e)) (sort_key (\<lambda>(_, e). bs_ordinal e) (servers_of r s))"

definition healthcheck :: "'f scheduler \<Rightarrow> int \<times> int \<times> int" where
  "healthcheck s = (int (length (servers_of PREFILL s)), int (length (servers_of DECODE s)), sc_request_num s)"

definition count_request :: "('f scheduler, unit) op" where
  "count_request = op_modify (\<lambda>s. s\<lparr>sc_request_num := sc_request_num s + 1\<rparr>)"

definition begin_request :: "'f::linorder arith \<Rightarrow> 'f \<Rightarrow> ('f scheduler, picked) op" where
  "begin_request ar load =
     op_bind (on_pool PREFILL (pick_server ar PREFILL load False True)) (\<lambda>picked.
     op_bind count_request (\<lambda>_. op_return picked))"

definition reserve_prefill_kv :: "'f::linorder arith \<Rightarrow> 'f \<Rightarrow> ('f scheduler, picked) op" where
  "reserve_prefill_kv ar load = on_pool PREFILL (pick_server ar PREFILL load False True)"

definition pick_decoder :: "'f::linorder arith \<Rightarrow> 'f \<Rightarrow> ('f scheduler, picked) op" where
  "pick_decoder ar load = on_pool DECODE (pick_server ar DECODE load True False)"

definition release_prefill_kv :: "'f::linorder arith \<Rightarrow> string option \<Rightarrow> 'f \<Rightarrow> ('f scheduler, unit) op" where
  "release_prefill_kv ar key load = on_pool PREFILL (release_load ar PREFILL key load False True)"

definition release_decoder :: "'f::linorder arith \<Rightarrow> string option \<Rightarrow> 'f \<Rightarrow> ('f scheduler, unit) op" where
  "release_decoder ar key load = on_pool DECODE (release_load ar DECODE key load True False)"

definition finish_request ::
  "'f::linorder arith \<Rightarrow> string option \<Rightarrow> 'f \<Rightarrow> string option \<Rightarrow> 'f \<Rightarrow> bool \<Rightarrow> ('f scheduler, unit) op" where
  "finish_request ar prefiller pload decoder dload release_prefill =
     op_bind (if release_prefill then release_prefill_kv ar prefiller pload else op_return ()) (\<lambda>_.
     op_bind (release_decoder ar decoder dload) (\<lambda>_.
     op_modify (\<lambda>s. s\<lparr>sc_request_num := max 0 (sc_request_num s - 1)\<rparr>)))"

section \<open>Instances come and go\<close>

definition add_waiting :: "server_role \<Rightarrow> string \<times> int \<Rightarrow> 'f scheduler \<Rightarrow> 'f scheduler \<times> string list" where
  "add_waiting r hp s =
     (let key = server_key (fst hp) (snd hp) in
      if dict_get (servers_of r s) key \<noteq> None \<or> dict_get (sc_waiting s) key \<noteq> None then (s, [])
      else (s\<lparr>sc_waiting := dict_put key (role_value r, hp, 0) (sc_waiting s)\<rparr>, [fst hp @ '':'' @ py_str_int (snd hp)]))"

fun add_waiting_all :: "server_role \<Rightarrow> (string \<times> int) list \<Rightarrow> 'f scheduler \<Rightarrow> 'f scheduler \<times> string list" where
  "add_waiting_all r [] s = (s, [])"
| "add_waiting_all r (hp # hps) s =
     (let (s, xs) = add_waiting r hp s; (s, ys) = add_waiting_all r hps s in (s, xs @ ys))"

definition add_instances :: "server_role \<Rightarrow> (string \<times> int) list \<Rightarrow> ('f scheduler, string list) op" where
  "add_instances r instances = (\<lambda>s. case add_waiting_all r instances s of (t, xs) \<Rightarrow> (t, Inr xs))"

definition mark_waiting_retry :: "string \<Rightarrow> int \<Rightarrow> ('f scheduler, unit) op" where
  "mark_waiting_retry key retries = op_modify (\<lambda>s.
     case dict_get (sc_waiting s) key of
       None \<Rightarrow> s
     | Some (typ, server, _) \<Rightarrow> s\<lparr>sc_waiting := dict_put key (typ, server, retries) (sc_waiting s)\<rparr>)"

definition drop_waiting_instance :: "string \<Rightarrow> ('f scheduler, unit) op" where
  "drop_waiting_instance key = op_modify (\<lambda>s. s\<lparr>sc_waiting := dict_pop key (sc_waiting s)\<rparr>)"

definition untaint :: "string \<Rightarrow> 'f role_pools \<Rightarrow> 'f role_pools" where
  "untaint key p = p\<lparr>po_tainted := po_tainted p - {key}\<rparr>"

definition activate_waiting_instance :: "'f::linorder arith \<Rightarrow> server_role \<Rightarrow> string \<Rightarrow> int \<Rightarrow> ('f scheduler, unit) op" where
  "activate_waiting_instance ar r host port =
     (let key = server_key host port in
      op_bind (drop_waiting_instance key) (\<lambda>_.
      op_bind (op_get (\<lambda>s. key \<in> po_tainted (sc_pools s r))) (\<lambda>tainted.
      if tainted then
        op_bind (on_pool r (op_modify (untaint key))) (\<lambda>_. on_pool r (push_heap ar r key))
      else op_bind (add_server ar r host port) (\<lambda>_. op_return ()))))"

definition taint :: "string set \<Rightarrow> 'f role_pools \<Rightarrow> 'f role_pools" where
  "taint keys p = p\<lparr>po_tainted := po_tainted p \<union> keys\<rparr>"

definition drop_servers :: "string set \<Rightarrow> 'f role_pools \<Rightarrow> 'f role_pools" where
  "drop_servers keys p = p\<lparr>po_servers := filter (\<lambda>(k, _). k \<notin> keys) (po_servers p), po_tainted := po_tainted p - keys\<rparr>"

definition remove_instances :: "'f::linorder arith \<Rightarrow> server_role \<Rightarrow> (string \<times> int) list \<Rightarrow> ('f scheduler, bool) op" where
  "remove_instances ar r instances =
     (if instances = [] then op_return False
      else
        (let keys = set (map (\<lambda>(h, p). server_key h p) instances) in
         op_bind (op_get sc_request_num) (\<lambda>n.
         if n > 0 then
           op_bind (on_pool r (op_modify (\<lambda>p. reset_heap ar r True (taint keys p)))) (\<lambda>_. op_return True)
         else
           op_bind (op_get (\<lambda>s. list_ex (\<lambda>(k, _). k \<in> keys) (servers_of r s))) (\<lambda>removed.
           op_bind (on_pool r (op_modify (\<lambda>p.
             if removed then reset_heap ar r True (drop_servers keys p) else drop_servers keys p))) (\<lambda>_.
           op_bind (op_modify (\<lambda>s. s\<lparr>sc_waiting := filter (\<lambda>(k, _). k \<notin> keys) (sc_waiting s)\<rparr>)) (\<lambda>_.
           op_return False))))))"

definition finalize_pool :: "'f::linorder arith \<Rightarrow> server_role \<Rightarrow> 'f role_pools \<Rightarrow> 'f role_pools" where
  "finalize_pool ar r p = (if po_tainted p = {} then p else reset_heap ar r True (drop_servers (po_tainted p) p))"

definition finalize_tainted_instances :: "'f::linorder arith \<Rightarrow> ('f scheduler, unit) op" where
  "finalize_tainted_instances ar =
     op_bind (op_get sc_request_num) (\<lambda>n.
     if n \<noteq> 0 then op_return ()
     else
       op_bind (on_pool PREFILL (op_modify (finalize_pool ar PREFILL))) (\<lambda>_.
       on_pool DECODE (op_modify (finalize_pool ar DECODE))))"

section \<open>Calls\<close>

text \<open>The methods that change the state, as the workers and the listener call them.\<close>

datatype 'f call =
    BeginRequest 'f
  | ReservePrefillKV 'f
  | PickDecoder 'f
  | ReleasePrefillKV "string option" 'f
  | ReleaseDecoder "string option" 'f
  | FinishRequest "string option" 'f "string option" 'f bool
  | AddInstances server_role "(string \<times> int) list"
  | MarkWaitingRetry string int
  | ActivateWaiting server_role string int
  | DropWaiting string
  | RemoveInstances server_role "(string \<times> int) list"
  | FinalizeTainted

definition drop_result :: "('s, 'a) op \<Rightarrow> ('s, unit) op" where
  "drop_result m = op_bind m (\<lambda>_. op_return ())"

fun run_call :: "'f::linorder arith \<Rightarrow> 'f call \<Rightarrow> ('f scheduler, unit) op" where
  "run_call ar (BeginRequest load) = drop_result (begin_request ar load)"
| "run_call ar (ReservePrefillKV load) = drop_result (reserve_prefill_kv ar load)"
| "run_call ar (PickDecoder load) = drop_result (pick_decoder ar load)"
| "run_call ar (ReleasePrefillKV key load) = release_prefill_kv ar key load"
| "run_call ar (ReleaseDecoder key load) = release_decoder ar key load"
| "run_call ar (FinishRequest pk pl dk dl rel) = finish_request ar pk pl dk dl rel"
| "run_call ar (AddInstances r xs) = drop_result (add_instances r xs)"
| "run_call ar (MarkWaitingRetry key n) = mark_waiting_retry key n"
| "run_call ar (ActivateWaiting r h p) = activate_waiting_instance ar r h p"
| "run_call ar (DropWaiting key) = drop_waiting_instance key"
| "run_call ar (RemoveInstances r xs) = drop_result (remove_instances ar r xs)"
| "run_call ar FinalizeTainted = finalize_tainted_instances ar"

inductive reachable :: "'f::linorder arith \<Rightarrow> 'f scheduler \<Rightarrow> bool" for ar where
  created: "make_scheduler ar ps ds = (s, x) \<Longrightarrow> reachable ar s"
| called: "reachable ar s \<Longrightarrow> reachable ar (fst (run_call ar c s))"

end
