(* ===== verification/Proxy_Invariant.thy ===== *)
theory Proxy_Invariant
  imports Proxy_Scheduler
begin

text \<open>
  The lazy heap of the proxy's scheduler: every live server has exactly one valid entry, carrying
  its current priority, and the stale entries never outnumber the servers.
\<close>

section \<open>Dictionaries and ordered lists\<close>

lemma length_dict_put: "length (dict_put k v d) = (if dict_get d k = None then Suc (length d) else length d)"
  by (induction d) (auto simp: dict_get_def)

lemma wf_dict_filter [simp]: "wf_dict d \<Longrightarrow> wf_dict (filter P d)"
  by (auto simp: wf_dict_def intro: distinct_map_filter)

lemma dict_get_filter: "wf_dict d \<Longrightarrow> dict_get (filter (\<lambda>(k, _). P k) d) k = (if P k then dict_get d k else None)"
proof (induction d)
  case (Cons kv d)
  obtain k' v where kv: "kv = (k', v)" by fastforce
  have "P k' \<Longrightarrow> dict_get d k' = None" "wf_dict d" using Cons.prems by (simp_all add: kv wf_dict_Cons)
  with Cons.IH show ?case by (auto simp: kv dict_get_Cons)
qed simp

lemma dict_get_map: "dict_get (map (\<lambda>(k, v). (k, f v)) d) k = map_option f (dict_get d k)"
  by (induction d) (auto simp: dict_get_Cons split: prod.splits)

lemma keys_map_values: "map fst (map (\<lambda>(k, v). (k, f v)) d) = map fst d"
  by (induction d) auto

section \<open>The invariant of a pool\<close>

definition valid_for :: "string \<Rightarrow> nat \<Rightarrow> 'f entry \<Rightarrow> bool" where
  "valid_for k q = (\<lambda>(_, _, q', k'). k' = k \<and> q' = q)"

text \<open>The servers in \<open>K\<close> are in the middle of an update.\<close>

definition pool_ok :: "'f::linorder arith \<Rightarrow> server_role \<Rightarrow> string set \<Rightarrow> 'f role_pools \<Rightarrow> bool" where
  "pool_ok ar r K p \<longleftrightarrow> wf_dict (po_servers p) \<and> sorted (po_heap p) \<and>
     (\<forall>(_, _, q, k) \<in> set (po_heap p). \<exists>e. dict_get (po_servers p) k = Some e \<and> q \<le> bs_heap_seq e) \<and>
     (\<forall>k e. k \<notin> K \<longrightarrow> dict_get (po_servers p) k = Some e \<longrightarrow>
        filter (valid_for k (bs_heap_seq e)) (po_heap p) = [heap_entry ar r (po_tainted p) k e]) \<and>
     length (po_heap p) \<le> 2 * length (po_servers p)"

lemma pool_okD:
  assumes "pool_ok ar r K p"
  shows "wf_dict (po_servers p)" "sorted (po_heap p)" "length (po_heap p) \<le> 2 * length (po_servers p)"
    "(x, o', q, k) \<in> set (po_heap p) \<Longrightarrow> \<exists>e. dict_get (po_servers p) k = Some e \<and> q \<le> bs_heap_seq e"
    "k \<notin> K \<Longrightarrow> dict_get (po_servers p) k = Some e \<Longrightarrow>
       filter (valid_for k (bs_heap_seq e)) (po_heap p) = [heap_entry ar r (po_tainted p) k e]"
  using assms unfolding pool_ok_def by fastforce+

lemma pool_okI:
  assumes "wf_dict (po_servers p)" "sorted (po_heap p)" "length (po_heap p) \<le> 2 * length (po_servers p)"
    and "\<And>x o' q k. (x, o', q, k) \<in> set (po_heap p) \<Longrightarrow> \<exists>e. dict_get (po_servers p) k = Some e \<and> q \<le> bs_heap_seq e"
    and "\<And>k e. k \<notin> K \<Longrightarrow> dict_get (po_servers p) k = Some e \<Longrightarrow>
       filter (valid_for k (bs_heap_seq e)) (po_heap p) = [heap_entry ar r (po_tainted p) k e]"
  shows "pool_ok ar r K p"
  unfolding pool_ok_def using assms by blast

lemma pool_ok_mono: "pool_ok ar r K p \<Longrightarrow> K \<subseteq> L \<Longrightarrow> pool_ok ar r L p"
  unfolding pool_ok_def by blast

lemma pool_ok_absent:
  assumes "pool_ok ar r {k} p" "dict_get (po_servers p) k = None"
  shows "pool_ok ar r {} p"
proof (rule pool_okI)
  note d = pool_okD [OF assms(1)]
  show "wf_dict (po_servers p)" "sorted (po_heap p)" "length (po_heap p) \<le> 2 * length (po_servers p)" by (fact d)+
  show "\<exists>e. dict_get (po_servers p) j = Some e \<and> q \<le> bs_heap_seq e" if "(x, o', q, j) \<in> set (po_heap p)" for x o' q j
    using d(4) that by blast
  show "filter (valid_for j (bs_heap_seq e)) (po_heap p) = [heap_entry ar r (po_tainted p) j e]"
    if "dict_get (po_servers p) j = Some e" for j e
    using that assms(2) by (intro d(5)) auto
qed

lemma pool_ok_empty [simp]: "pool_ok ar r K empty_pools"
  by (simp add: pool_ok_def empty_pools_def)

lemma valid_heap_entry [simp]: "valid_for k q (heap_entry ar r ts k' e) \<longleftrightarrow> k' = k \<and> bs_heap_seq e = q"
  by (simp add: valid_for_def heap_entry_def)

lemma filter_entries:
  "wf_dict d \<Longrightarrow> dict_get d k = Some e \<Longrightarrow>
   filter (valid_for k (bs_heap_seq e)) (map (\<lambda>(k, e). heap_entry ar r ts k e) d) = [heap_entry ar r ts k e]"
proof (induction d)
  case (Cons kv d)
  obtain k' e' where kv: "kv = (k', e')" by fastforce
  have none: "k \<notin> fst ` set d \<Longrightarrow> filter (valid_for k q) (map (\<lambda>(k, e). heap_entry ar r ts k e) d) = []" for q
    by (force simp: filter_empty_conv)
  show ?case
  proof (cases "k' = k")
    case True
    then have "e' = e" "k \<notin> fst ` set d"
      using Cons.prems by (auto simp: kv dict_get_Cons wf_dict_Cons dict_get_None)
    then show ?thesis using none True by (simp add: kv)
  next
    case False
    then show ?thesis using Cons by (simp add: kv dict_get_Cons wf_dict_Cons)
  qed
qed simp

lemma pool_ok_reset:
  assumes "wf_dict (po_servers p)"
  shows "pool_ok ar r {} (reset_heap ar r b p)"
proof -
  let ?d = "if b then map (\<lambda>(k, e). (k, bump e)) (po_servers p) else po_servers p"
  have wf: "wf_dict ?d" using assms unfolding wf_dict_def by (simp only: keys_map_values split: if_split) simp
  have "\<exists>e. dict_get ?d k = Some e \<and> q \<le> bs_heap_seq e"
    if "(x, o', q, k) \<in> set (map (\<lambda>(k, e). heap_entry ar r (po_tainted p) k e) ?d)" for x o' q k
    using that dict_get_in [OF wf] by (fastforce simp: heap_entry_def)
  note ents = this
  let ?h = "map (\<lambda>(k, e). heap_entry ar r (po_tainted p) k e) ?d"
  have q: "reset_heap ar r b p = p\<lparr>po_servers := ?d, po_heap := sort ?h\<rparr>"
    by (simp only: reset_heap_def Let_def heapify_def)
  have "pool_ok ar r {} (p\<lparr>po_servers := ?d, po_heap := sort ?h\<rparr>)"
  proof (rule pool_okI)
    show "wf_dict (po_servers (p\<lparr>po_servers := ?d, po_heap := sort ?h\<rparr>))" using wf by simp
    show "filter (valid_for k (bs_heap_seq e)) (po_heap (p\<lparr>po_servers := ?d, po_heap := sort ?h\<rparr>)) =
        [heap_entry ar r (po_tainted (p\<lparr>po_servers := ?d, po_heap := sort ?h\<rparr>)) k e]"
      if "dict_get (po_servers (p\<lparr>po_servers := ?d, po_heap := sort ?h\<rparr>)) k = Some e" for k e
      using filter_entries [OF wf, of k e ar r "po_tainted p"] that
        filter_sort [of "valid_for k (bs_heap_seq e)" "\<lambda>x. x" ?h] by (simp del: map_map)
  qed (use ents in \<open>simp_all del: map_map\<close>)
  then show ?thesis unfolding q .
qed

lemma reset_servers:
  "map fst (po_servers (reset_heap ar r b p)) = map fst (po_servers p)"
  "po_tainted (reset_heap ar r b p) = po_tainted p" "length (po_servers (reset_heap ar r b p)) = length (po_servers p)"
  by (auto simp: reset_heap_def Let_def keys_map_values)

lemma filter_insort_entry:
  "sorted h \<Longrightarrow> filter P (insort x h) = (if P x then insort x (filter P h) else filter P h)" for h :: "'a::linorder list"
  by (simp add: filter_insort [where f = "\<lambda>x. x"] filter_insort_triv)

lemma pool_ok_push:
  assumes ok: "pool_ok ar r {k} p" and e: "dict_get (po_servers p) k = Some e"
  shows "\<exists>p'. push_heap ar r k p = (p', Inr ()) \<and> pool_ok ar r {} p'"
proof -
  let ?x = "heap_entry ar r (po_tainted p) k (bump e)"
  let ?p = "p\<lparr>po_servers := dict_put k (bump e) (po_servers p), po_heap := insort ?x (po_heap p)\<rparr>"
  note d = pool_okD [OF ok]
  have wf: "wf_dict (po_servers ?p)" using d(1) by simp
  have seq: "bs_heap_seq (bump e) = Suc (bs_heap_seq e)" by (simp add: bump_def)
  have "pool_ok ar r {} ?p" if "length (po_heap ?p) \<le> 2 * length (po_servers ?p)"
  proof -
    have ents: "\<exists>e'. dict_get (po_servers ?p) k' = Some e' \<and> q \<le> bs_heap_seq e'"
      if "(x, o', q, k') \<in> set (po_heap ?p)" for x o' q k'
      using that d(4) [of x o' q k'] e by (auto simp: set_insort_key heap_entry_def seq)
    have self: "filter (valid_for k (Suc (bs_heap_seq e))) (po_heap p) = []"
      using d(4) e by (fastforce simp: filter_empty_conv valid_for_def)
    have one: "filter (valid_for k' (bs_heap_seq e')) (po_heap ?p) = [heap_entry ar r (po_tainted ?p) k' e']"
      if "dict_get (po_servers ?p) k' = Some e'" for k' e'
    proof (cases "k' = k")
      case True
      then have "e' = bump e" using that by simp
      then show ?thesis using True self d(2) by (simp add: filter_insort_entry seq)
    next
      case False
      then have "dict_get (po_servers p) k' = Some e'" using that by simp
      with d(5) [of k' e'] False d(2) show ?thesis by (simp add: filter_insort_entry)
    qed
    show ?thesis
      by (rule pool_okI) (use wf ents one d(2) that in \<open>simp_all add: sorted_insort\<close>)
  qed
  moreover have "pool_ok ar r {} (reset_heap ar r False ?p)" by (rule pool_ok_reset) (rule wf)
  ultimately show ?thesis
    using e by (simp add: push_heap_def heappush_def Let_def del: length_insort)
qed

lemma pop_valid_some:
  "pop_valid servers h = (h', Some k) \<Longrightarrow>
   \<exists>pre x e. h = pre @ x # h' \<and> dict_get servers k = Some e \<and> valid_for k (bs_heap_seq e) x \<and>
     (\<forall>y \<in> set pre. \<forall>j f. dict_get servers j = Some f \<longrightarrow> \<not> valid_for j (bs_heap_seq f) y)"
proof (induction servers h rule: pop_valid.induct)
  case (2 servers x o' q key h)
  show ?case
  proof (cases "\<exists>e. dict_get servers key = Some e \<and> bs_heap_seq e = q")
    case True
    then obtain e where e: "dict_get servers key = Some e" "bs_heap_seq e = q" by blast
    then have "h' = h" "k = key" using 2(3) by auto
    then show ?thesis using e by (intro exI [of _ "[]"]) (auto simp: valid_for_def)
  next
    case False
    then have "pop_valid servers h = (h', Some k)" using 2(3) by (auto split: option.splits if_splits)
    with False 2(1,2) obtain pre y e where "h = pre @ y # h'" "dict_get servers k = Some e" "valid_for k (bs_heap_seq e) y"
        "\<forall>y \<in> set pre. \<forall>j f. dict_get servers j = Some f \<longrightarrow> \<not> valid_for j (bs_heap_seq f) y"
      by (cases "dict_get servers key") (fastforce split: if_splits)+
    with False show ?thesis by (intro exI [of _ "(x, o', q, key) # pre"]) (auto simp: valid_for_def)
  qed
qed simp

lemma pop_valid_none:
  "pop_valid servers h = (h', None) \<Longrightarrow>
   h' = [] \<and> (\<forall>y \<in> set h. \<forall>j f. dict_get servers j = Some f \<longrightarrow> \<not> valid_for j (bs_heap_seq f) y)"
  by (induction servers h rule: pop_valid.induct) (auto simp: valid_for_def split: option.splits if_splits)


section \<open>The operations of a pool\<close>

lemma pop_valid_ok:
  assumes ok: "pool_ok ar r {} p" and pop: "pop_valid_server r p = (p', x)"
  shows "case x of
      Inl err \<Rightarrow> po_servers p = [] \<and> err = RuntimeError (''No available '' @ role_value r @ '' servers'') \<and> pool_ok ar r {} p'
    | Inr k \<Rightarrow> pool_ok ar r {k} p' \<and> (\<exists>e. dict_get (po_servers p) k = Some e \<and>
        (\<forall>k' e'. dict_get (po_servers p) k' = Some e' \<longrightarrow>
           heap_entry ar r (po_tainted p) k e \<le> heap_entry ar r (po_tainted p) k' e'))"
    and "po_servers p' = po_servers p" "po_tainted p' = po_tainted p"
proof -
  note d = pool_okD [OF ok]
  obtain h' y where y: "pop_valid (po_servers p) (po_heap p) = (h', y)" by fastforce
  have p': "p' = p\<lparr>po_heap := h'\<rparr>" using pop y by (auto simp: pop_valid_server_def split: option.splits)
  then show "po_servers p' = po_servers p" "po_tainted p' = po_tainted p" by simp_all
  show "case x of
      Inl err \<Rightarrow> po_servers p = [] \<and> err = RuntimeError (''No available '' @ role_value r @ '' servers'') \<and> pool_ok ar r {} p'
    | Inr k \<Rightarrow> pool_ok ar r {k} p' \<and> (\<exists>e. dict_get (po_servers p) k = Some e \<and>
        (\<forall>k' e'. dict_get (po_servers p) k' = Some e' \<longrightarrow>
           heap_entry ar r (po_tainted p) k e \<le> heap_entry ar r (po_tainted p) k' e'))"
  proof (cases y)
    case None
    from pop_valid_none [OF y [unfolded None]]
    have h: "h' = []" "\<And>z j f. z \<in> set (po_heap p) \<Longrightarrow> dict_get (po_servers p) j = Some f \<Longrightarrow> \<not> valid_for j (bs_heap_seq f) z"
      by auto
    have "dict_get (po_servers p) j = None" for j
    proof (rule ccontr)
      assume "dict_get (po_servers p) j \<noteq> None"
      then obtain f where f: "dict_get (po_servers p) j = Some f" by blast
      with d(5) [of j f] have "heap_entry ar r (po_tainted p) j f \<in> set (filter (valid_for j (bs_heap_seq f)) (po_heap p))" by simp
      with h(2) f show False by auto
    qed
    then have "po_servers p = []" by (metis dict_get_Cons list.exhaust option.distinct(1) surj_pair)
    moreover have "x = Inl (RuntimeError (''No available '' @ role_value r @ '' servers''))"
      using pop y None by (simp add: pop_valid_server_def)
    ultimately show ?thesis by (simp add: p' h(1) pool_ok_def)
  next
    case (Some k)
    have x: "x = Inr k" using pop y Some by (simp add: pop_valid_server_def)
    from pop_valid_some [OF y [unfolded Some]] obtain pre z e where
      h: "po_heap p = pre @ z # h'" "dict_get (po_servers p) k = Some e" "valid_for k (bs_heap_seq e) z"
      and pre: "\<And>w j f. w \<in> set pre \<Longrightarrow> dict_get (po_servers p) j = Some f \<Longrightarrow> \<not> valid_for j (bs_heap_seq f) w" by blast
    have z: "z = heap_entry ar r (po_tainted p) k e"
    proof -
      have "z \<in> set (filter (valid_for k (bs_heap_seq e)) (po_heap p))" using h by simp
      then show ?thesis using d(5) [OF _ h(2)] by simp
    qed
    have "heap_entry ar r (po_tainted p) k e \<le> heap_entry ar r (po_tainted p) k' e'"
      if k': "dict_get (po_servers p) k' = Some e'" for k' e'
    proof -
      let ?w = "heap_entry ar r (po_tainted p) k' e'"
      have "?w \<in> set (filter (valid_for k' (bs_heap_seq e')) (po_heap p))" using d(5) [OF _ k'] by simp
      then have "?w \<in> set (po_heap p)" by (simp only: set_filter mem_Collect_eq)
      then have "?w \<in> set (z # h')" using pre [OF _ k', of ?w] by (auto simp: h(1))
      moreover have "sorted (z # h')" using d(2) by (simp add: h(1) sorted_append)
      ultimately show ?thesis using z by auto
    qed
    moreover have "pool_ok ar r {k} p'"
    proof (rule pool_okI)
      show "wf_dict (po_servers p')" "sorted (po_heap p')" "length (po_heap p') \<le> 2 * length (po_servers p')"
        using d(1-3) by (simp_all add: p' h(1) sorted_append)
      show "\<exists>e. dict_get (po_servers p') j = Some e \<and> q \<le> bs_heap_seq e" if "(a, o', q, j) \<in> set (po_heap p')" for a o' q j
        using that d(4) [of a o' q j] by (simp add: p' h(1))
      show "filter (valid_for j (bs_heap_seq f)) (po_heap p') = [heap_entry ar r (po_tainted p') j f]"
        if "j \<notin> {k}" "dict_get (po_servers p') j = Some f" for j f
      proof -
        have f: "dict_get (po_servers p) j = Some f" using that by (simp add: p')
        have "\<not> valid_for j (bs_heap_seq f) z" using that(1) z by simp
        moreover have "filter (valid_for j (bs_heap_seq f)) pre = []" using pre [OF _ f] by (auto simp: filter_empty_conv)
        ultimately show ?thesis using d(5) [OF _ f] by (simp add: p' h(1))
      qed
    qed
    ultimately show ?thesis using h(2) by (auto simp: x)
  qed
qed

lemma pool_ok_update:
  assumes "pool_ok ar r {k} p" "dict_get (po_servers p) k = Some e" "bs_heap_seq e' = bs_heap_seq e"
  shows "pool_ok ar r {k} (p\<lparr>po_servers := dict_put k e' (po_servers p)\<rparr>)"
proof (rule pool_okI)
  note d = pool_okD [OF assms(1)]
  let ?p = "p\<lparr>po_servers := dict_put k e' (po_servers p)\<rparr>"
  show "\<exists>f. dict_get (po_servers ?p) j = Some f \<and> q \<le> bs_heap_seq f" if "(x, o', q, j) \<in> set (po_heap ?p)" for x o' q j
    using that d(4) [of x o' q j] assms(2,3) by auto
  show "length (po_heap ?p) \<le> 2 * length (po_servers ?p)" using d(3) assms(2) by (simp add: length_dict_put)
qed (use pool_okD [OF assms(1)] in \<open>auto split: if_splits\<close>)

lemma push_get:
  assumes "push_heap ar r k p = (p', x)"
  shows "dict_get (po_servers p') j = (if j = k then map_option bump (dict_get (po_servers p) k) else dict_get (po_servers p) j)"
    "po_tainted p' = po_tainted p"
  using assms by (auto simp: push_heap_def reset_heap_def Let_def split: option.splits if_splits)

text \<open>What a pick does: the server is least among the live ones, gets the load, and the pool is in order again.\<close>

lemma pick_server_ok:
  assumes ok: "pool_ok ar r {} p" and pick: "pick_server ar r load tok kv p = (p', x)"
  shows "pool_ok ar r {} p' \<and> po_tainted p' = po_tainted p \<and>
    (case x of
       Inl err \<Rightarrow> po_servers p = [] \<and> po_servers p' = po_servers p \<and> err = RuntimeError (''No available '' @ role_value r @ '' servers'')
     | Inr (k, host, port) \<Rightarrow>
         (\<exists>e. dict_get (po_servers p) k = Some e \<and> host = bs_host e \<and> port = bs_port e \<and>
            (\<forall>k' e'. dict_get (po_servers p) k' = Some e' \<longrightarrow>
               heap_entry ar r (po_tainted p) k e \<le> heap_entry ar r (po_tainted p) k' e') \<and>
            (\<forall>j. dict_get (po_servers p') j =
               (if j = k then Some (bump (add_load ar tok kv load e)) else dict_get (po_servers p) j))))"
proof -
  obtain q y where q: "pop_valid_server r p = (q, y)" by fastforce
  note pop = pop_valid_ok [OF ok q]
  show ?thesis
  proof (cases y)
    case (Inl err)
    then show ?thesis using pop pick q by (auto simp: pick_server_def op_bind_def)
  next
    case (Inr k)
    from pop(1) obtain e where e: "pool_ok ar r {k} q" "dict_get (po_servers p) k = Some e"
        "\<And>k' e'. dict_get (po_servers p) k' = Some e' \<Longrightarrow>
           heap_entry ar r (po_tainted p) k e \<le> heap_entry ar r (po_tainted p) k' e'" by (auto simp: Inr)
    let ?f = "add_load ar tok kv load"
    let ?u = "q\<lparr>po_servers := dict_put k (?f e) (po_servers q)\<rparr>"
    have eq: "dict_get (po_servers q) k = Some e" using e(2) pop(2) by simp
    have same: "bs_heap_seq (?f e) = bs_heap_seq e" "bs_host (?f e) = bs_host e" "bs_port (?f e) = bs_port e"
      by (simp_all add: add_load_def Let_def)
    have "pool_ok ar r {k} ?u" by (rule pool_ok_update [OF e(1) eq same(1)])
    moreover have "dict_get (po_servers ?u) k = Some (?f e)" by simp
    ultimately obtain v where v: "push_heap ar r k ?u = (v, Inr ())" "pool_ok ar r {} v"
      using pool_ok_push by blast
    have "p' = v" "x = Inr (k, bs_host e, bs_port e)"
      using pick q v(1) eq same by (auto simp: pick_server_def op_bind_def Inr update_server_def)
    then show ?thesis using v(2) push_get [OF v(1)] e(2,3) pop(2,3) by auto
  qed
qed

lemma release_load_ok:
  assumes ok: "pool_ok ar r {} p" and rel: "release_load ar r key load tok kv p = (p', x)"
  shows "pool_ok ar r {} p' \<and> po_tainted p' = po_tainted p \<and> x = Inr () \<and>
    (\<forall>j. dict_get (po_servers p') j =
       (if key = Some j \<and> j \<noteq> [] then map_option (bump \<circ> drop_load ar tok kv load) (dict_get (po_servers p) j)
        else dict_get (po_servers p) j))"
proof (cases "\<exists>k e. key = Some k \<and> k \<noteq> [] \<and> dict_get (po_servers p) k = Some e")
  case True
  then obtain k e where k: "key = Some k" "k \<noteq> []" "dict_get (po_servers p) k = Some e" by blast
  let ?f = "drop_load ar tok kv load"
  let ?u = "p\<lparr>po_servers := dict_put k (?f e) (po_servers p)\<rparr>"
  have seq: "bs_heap_seq (?f e) = bs_heap_seq e" by (simp add: drop_load_def Let_def)
  have "pool_ok ar r {k} ?u"
    by (rule pool_ok_update [OF pool_ok_mono [OF ok] k(3) seq]) simp
  moreover have "dict_get (po_servers ?u) k = Some (?f e)" by simp
  ultimately obtain v where v: "push_heap ar r k ?u = (v, Inr ())" "pool_ok ar r {} v"
    using pool_ok_push by blast
  have "p' = v" "x = Inr ()"
    using rel v(1) k by (auto simp: release_load_def op_bind_def update_server_def)
  then show ?thesis using v(2) push_get [OF v(1)] k by auto
next
  case False
  then have "p' = p" "x = Inr ()"
    using rel by (auto simp: release_load_def op_bind_def split: option.splits)
  then show ?thesis using ok False by auto
qed


section \<open>The invariant of the scheduler\<close>

definition ords_ok :: "nat \<Rightarrow> (string, 'f backend_server) dict \<Rightarrow> bool" where
  "ords_ok n d \<longleftrightarrow> (\<forall>k e. dict_get d k = Some e \<longrightarrow> bs_ordinal e < n \<and> k = server_key (bs_host e) (bs_port e)) \<and>
     (\<forall>k e k' e'. dict_get d k = Some e \<longrightarrow> dict_get d k' = Some e' \<longrightarrow> bs_ordinal e = bs_ordinal e' \<longrightarrow> k = k')"

text \<open>\<open>d'\<close> has servers of \<open>d\<close> only, under their ordinals and addresses.\<close>

definition evolves :: "(string, 'f backend_server) dict \<Rightarrow> (string, 'f backend_server) dict \<Rightarrow> bool" where
  "evolves d d' \<longleftrightarrow> (\<forall>j e'. dict_get d' j = Some e' \<longrightarrow> (\<exists>e. dict_get d j = Some e \<and>
     bs_ordinal e' = bs_ordinal e \<and> bs_host e' = bs_host e \<and> bs_port e' = bs_port e))"

lemma evolves_ords: "evolves d d' \<Longrightarrow> ords_ok n d \<Longrightarrow> ords_ok n d'"
proof -
  assume ev: "evolves d d'" and ok: "ords_ok n d"
  note old = ev [unfolded evolves_def, rule_format]
  note fine = ok [unfolded ords_ok_def, THEN conjunct1, rule_format] and one = ok [unfolded ords_ok_def, THEN conjunct2, rule_format]
  show ?thesis
    unfolding ords_ok_def
  proof (intro conjI allI impI)
    fix k e' k2 e2
    assume e': "dict_get d' k = Some e'"
    from old [OF e'] obtain e where e: "dict_get d k = Some e" "bs_ordinal e' = bs_ordinal e" "bs_host e' = bs_host e" "bs_port e' = bs_port e"
      by blast
    show "bs_ordinal e' < n" "k = server_key (bs_host e') (bs_port e')" using fine [OF e(1)] e by simp_all
    assume e2: "dict_get d' k2 = Some e2" "bs_ordinal e' = bs_ordinal e2"
    from old [OF e2(1)] obtain e3 where "dict_get d k2 = Some e3" "bs_ordinal e2 = bs_ordinal e3" by blast
    then show "k = k2" using one [OF e(1)] e e2 by simp
  qed
qed

lemma evolves_refl [simp]: "evolves d d"
  by (simp add: evolves_def)

lemma evolves_trans: "evolves d d' \<Longrightarrow> evolves d' d'' \<Longrightarrow> evolves d d''"
  unfolding evolves_def by fastforce

definition sched_ok :: "'f::linorder arith \<Rightarrow> 'f scheduler \<Rightarrow> bool" where
  "sched_ok ar s \<longleftrightarrow> (\<forall>r. pool_ok ar r {} (sc_pools s r) \<and> ords_ok (sc_ordinal s) (servers_of r s)) \<and> 0 \<le> sc_request_num s"

definition pool_sound :: "'f::linorder arith \<Rightarrow> server_role \<Rightarrow> ('f role_pools, 'a) op \<Rightarrow> bool" where
  "pool_sound ar r m \<longleftrightarrow> (\<forall>p. pool_ok ar r {} p \<longrightarrow>
     pool_ok ar r {} (fst (m p)) \<and> evolves (po_servers p) (po_servers (fst (m p))))"

lemma keeps_on_pool: "pool_sound ar r m \<Longrightarrow> keeps (sched_ok ar) (on_pool r m)"
  by (auto simp: keeps_def pool_sound_def sched_ok_def on_pool_def servers_of_def split_def intro: evolves_ords)

lemma on_pool_bind: "op_bind (on_pool r m) (\<lambda>x. on_pool r (f x)) = on_pool r (op_bind m f)"
proof
  fix s :: "'a scheduler"
  show "op_bind (on_pool r m) (\<lambda>x. on_pool r (f x)) s = on_pool r (op_bind m f) s"
    by (cases "m (sc_pools s r)"; cases "snd (m (sc_pools s r))") (simp_all add: on_pool_def op_bind_def)
qed

lemma evolves_reset: "evolves (po_servers p) (po_servers (reset_heap ar r b p))"
  by (auto simp: evolves_def reset_heap_def Let_def dict_get_map bump_def)

lemma evolves_push: "push_heap ar r k p = (p', x) \<Longrightarrow> evolves (po_servers p) (po_servers p')"
  by (auto simp: evolves_def push_get bump_def split: if_splits)

lemma evolves_update:
  "(\<And>j. dict_get d' j = (if j = k then Some e' else dict_get d j)) \<Longrightarrow> dict_get d k = Some e \<Longrightarrow>
   bs_ordinal e' = bs_ordinal e \<Longrightarrow> bs_host e' = bs_host e \<Longrightarrow> bs_port e' = bs_port e \<Longrightarrow> evolves d d'"
  by (simp add: evolves_def)

lemma sound_pick: "pool_sound ar r (pick_server ar r load tok kv)"
  unfolding pool_sound_def
proof (intro allI impI)
  fix p assume ok: "pool_ok ar r {} p"
  obtain p' x where p': "pick_server ar r load tok kv p = (p', x)" by fastforce
  note pk = pick_server_ok [OF ok p']
  have "evolves (po_servers p) (po_servers p')"
  proof (cases x)
    case (Inl err)
    then show ?thesis using pk by simp
  next
    case (Inr y)
    obtain k host port where y: "y = (k, host, port)" by (cases y)
    from pk obtain e where e: "dict_get (po_servers p) k = Some e"
        "\<And>j. dict_get (po_servers p') j = (if j = k then Some (bump (add_load ar tok kv load e)) else dict_get (po_servers p) j)"
      unfolding Inr y sum.case prod.case by blast
    have "bs_ordinal (bump (add_load ar tok kv load e)) = bs_ordinal e" "bs_host (bump (add_load ar tok kv load e)) = bs_host e"
      "bs_port (bump (add_load ar tok kv load e)) = bs_port e" by (simp_all add: bump_def add_load_def Let_def)
    with evolves_update [OF e(2,1)] show ?thesis by blast
  qed
  then show "pool_ok ar r {} (fst (pick_server ar r load tok kv p)) \<and>
      evolves (po_servers p) (po_servers (fst (pick_server ar r load tok kv p)))"
    using pk by (simp add: p')
qed

lemma sound_release: "pool_sound ar r (release_load ar r key load tok kv)"
  unfolding pool_sound_def
proof (intro allI impI)
  fix p assume ok: "pool_ok ar r {} p"
  obtain p' x where p': "release_load ar r key load tok kv p = (p', x)" by fastforce
  have "evolves (po_servers p) (po_servers p')"
  proof (cases "\<exists>k e. key = Some k \<and> k \<noteq> [] \<and> dict_get (po_servers p) k = Some e")
    case True
    then obtain k e where k: "key = Some k" "k \<noteq> []" "dict_get (po_servers p) k = Some e" by blast
    from release_load_ok [OF ok p'] k
    have "dict_get (po_servers p') j = (if j = k then Some (bump (drop_load ar tok kv load e)) else dict_get (po_servers p) j)" for j
      by auto
    then show ?thesis
      by (rule evolves_update [OF _ k(3)]) (simp_all add: bump_def drop_load_def Let_def)
  next
    case False
    then have "p' = p" using p' by (auto simp: release_load_def op_bind_def split: option.splits if_splits)
    then show ?thesis by simp
  qed
  then show "pool_ok ar r {} (fst (release_load ar r key load tok kv p)) \<and>
      evolves (po_servers p) (po_servers (fst (release_load ar r key load tok kv p)))"
    using release_load_ok [OF ok p'] by (simp add: p')
qed

lemma sound_reset:
  assumes "\<And>p. wf_dict (po_servers p) \<Longrightarrow> wf_dict (po_servers (f p)) \<and> evolves (po_servers p) (po_servers (f p))"
  shows "pool_sound ar r (op_modify (\<lambda>p. reset_heap ar r b (f p)))"
  unfolding pool_sound_def
proof (intro allI impI)
  fix p assume "pool_ok ar r {} p"
  then have "wf_dict (po_servers p)" by (rule pool_okD)
  note f = assms [OF this]
  show "pool_ok ar r {} (fst (op_modify (\<lambda>p. reset_heap ar r b (f p)) p)) \<and>
      evolves (po_servers p) (po_servers (fst (op_modify (\<lambda>p. reset_heap ar r b (f p)) p)))"
    using pool_ok_reset [OF conjunct1 [OF f], of ar r b] evolves_trans [OF conjunct2 [OF f] evolves_reset] by simp
qed

lemma drop_servers_wf:
  "wf_dict (po_servers p) \<Longrightarrow> wf_dict (po_servers (drop_servers ks p)) \<and> evolves (po_servers p) (po_servers (drop_servers ks p))"
  by (auto simp: drop_servers_def evolves_def dict_get_filter split: if_splits)

lemma taint_wf: "wf_dict (po_servers p) \<Longrightarrow> wf_dict (po_servers (taint ks p)) \<and> evolves (po_servers p) (po_servers (taint ks p))"
  by (simp add: taint_def)

lemma sound_untaint_push: "pool_sound ar r (op_bind (op_modify (untaint k)) (\<lambda>_. push_heap ar r k))"
  unfolding pool_sound_def
proof (intro allI impI)
  fix p assume ok: "pool_ok ar r {} p"
  note d = pool_okD [OF ok]
  let ?u = "untaint k p"
  have u: "pool_ok ar r {k} ?u"
  proof (rule pool_okI)
    show "filter (valid_for j (bs_heap_seq e)) (po_heap ?u) = [heap_entry ar r (po_tainted ?u) j e]"
      if "j \<notin> {k}" "dict_get (po_servers ?u) j = Some e" for j e
    proof -
      have "dict_get (po_servers p) j = Some e" using that by (simp add: untaint_def)
      from d(5) [OF _ this] that(1) show ?thesis by (simp add: untaint_def heap_entry_def priority_def)
    qed
  qed (use d in \<open>simp_all add: untaint_def\<close>)
  obtain p' x where p': "push_heap ar r k ?u = (p', x)" by fastforce
  have "pool_ok ar r {} p'"
  proof (cases "dict_get (po_servers ?u) k")
    case None
    then have "p' = ?u" using p' by (simp add: push_heap_def)
    then show ?thesis using pool_ok_absent [OF u None] by simp
  next
    case (Some e)
    from pool_ok_push [OF u this] p' show ?thesis by auto
  qed
  moreover have "evolves (po_servers p) (po_servers p')" using evolves_push [OF p'] by (simp add: untaint_def)
  ultimately show "pool_ok ar r {} (fst (op_bind (op_modify (untaint k)) (\<lambda>_. push_heap ar r k) p)) \<and>
      evolves (po_servers p) (po_servers (fst (op_bind (op_modify (untaint k)) (\<lambda>_. push_heap ar r k) p)))"
    using p' by (simp add: op_bind_def)
qed

lemma sound_drop_none:
  assumes "pool_ok ar r {} p" "\<not> list_ex (\<lambda>(k, _). k \<in> ks) (po_servers p)"
  shows "pool_ok ar r {} (drop_servers ks p)" "po_servers (drop_servers ks p) = po_servers p"
proof -
  note d = pool_okD [OF assms(1)]
  show same: "po_servers (drop_servers ks p) = po_servers p"
    using assms(2) by (auto simp: drop_servers_def list_ex_iff filter_id_conv)
  have notin: "j \<notin> ks" if "dict_get (po_servers p) j = Some e" for j e
    using assms(2) dict_get_mem [OF that] by (auto simp: list_ex_iff)
  show "pool_ok ar r {} (drop_servers ks p)"
  proof (rule pool_okI)
    show "filter (valid_for j (bs_heap_seq e)) (po_heap (drop_servers ks p)) = [heap_entry ar r (po_tainted (drop_servers ks p)) j e]"
      if "dict_get (po_servers (drop_servers ks p)) j = Some e" for j e
      using d(5) [of j e] notin [of j e] that unfolding same
      by (simp add: drop_servers_def heap_entry_def priority_def)
  qed (use d in \<open>simp_all add: same\<close>, simp_all add: drop_servers_def)
qed

lemma sound_finalize: "pool_sound ar r (op_modify (finalize_pool ar r))"
proof -
  have "pool_sound ar r (op_modify (\<lambda>p. reset_heap ar r True (drop_servers (po_tainted p) p)))"
    by (rule sound_reset) (rule drop_servers_wf)
  then show ?thesis by (auto simp: pool_sound_def finalize_pool_def)
qed


lemma add_server_ok: "keeps (sched_ok ar) (add_server ar r host port)"
  unfolding keeps_def
proof (intro allI impI)
  fix s assume ok: "sched_ok ar s"
  let ?k = "server_key host port" and ?n = "sc_ordinal s" and ?p = "sc_pools s r"
  show "sched_ok ar (fst (add_server ar r host port s))"
  proof (cases "dict_get (servers_of r s) ?k")
    case (Some e)
    then show ?thesis using ok by (simp add: add_server_def Let_def op_bind_def)
  next
    case None
    let ?e = "new_server ar host port ?n"
    let ?q = "store_server ?k ?e ?p"
    have p: "pool_ok ar r {} ?p" "ords_ok ?n (servers_of r s)" using ok by (simp_all add: sched_ok_def)
    note d = pool_okD [OF p(1)]
    have new: "dict_get (po_servers ?p) ?k = None" using None by (simp add: servers_of_def)
    have q: "pool_ok ar r {?k} ?q"
    proof (rule pool_okI)
      show "\<exists>e. dict_get (po_servers ?q) j = Some e \<and> q \<le> bs_heap_seq e" if "(x, o', q, j) \<in> set (po_heap ?q)" for x o' q j
        using d(4) [of x o' q j] that new by (auto simp: store_server_def)
      show "length (po_heap ?q) \<le> 2 * length (po_servers ?q)"
        using d(3) new by (simp add: store_server_def length_dict_put)
    qed (use d in \<open>auto simp: store_server_def split: if_splits\<close>)
    moreover have "dict_get (po_servers ?q) ?k = Some ?e" by (simp add: store_server_def)
    ultimately obtain p' where p': "push_heap ar r ?k ?q = (p', Inr ())" "pool_ok ar r {} p'"
      using pool_ok_push by blast
    have get: "dict_get (po_servers p') j = (if j = ?k then Some (bump ?e) else dict_get (po_servers ?p) j)" for j
      using push_get(1) [OF p'(1), of j] by (simp add: store_server_def)
    have "ords_ok (Suc ?n) (po_servers p')"
      using p(2) unfolding ords_ok_def get servers_of_def
      by (auto simp: bump_def new_server_def split: if_splits dest: less_SucI) (metis less_irrefl)+
    moreover have "ords_ok (Suc ?n) (servers_of r' s)" for r'
      using ok unfolding sched_ok_def ords_ok_def by (meson less_SucI)
    moreover have "add_server ar r host port s =
        (s\<lparr>sc_ordinal := Suc ?n, sc_pools := (sc_pools s)(r := p')\<rparr>, Inr True)"
      using None p'(1) by (simp add: add_server_def Let_def op_bind_def on_pool_def)
    ultimately show ?thesis using ok p'(2) by (simp add: sched_ok_def servers_of_def)
  qed
qed

lemma keeps_drop_result: "keeps P m \<Longrightarrow> keeps P (drop_result m)"
  unfolding drop_result_def by (intro keeps_intros)

lemma sched_ok_waiting [simp]: "sched_ok ar (s\<lparr>sc_waiting := w\<rparr>) = sched_ok ar s"
  by (simp add: sched_ok_def servers_of_def)

lemma sched_ok_num: "sched_ok ar s \<Longrightarrow> 0 \<le> n \<Longrightarrow> sched_ok ar (s\<lparr>sc_request_num := n\<rparr>)"
  by (simp add: sched_ok_def servers_of_def)

lemma add_waiting_all_fields:
  "sc_pools (fst (add_waiting_all r xs s)) = sc_pools s" "sc_ordinal (fst (add_waiting_all r xs s)) = sc_ordinal s"
  "sc_request_num (fst (add_waiting_all r xs s)) = sc_request_num s"
  by (induction xs arbitrary: s) (simp_all add: add_waiting_def Let_def split_def)

lemma keeps_releases:
  "keeps (sched_ok ar) (release_prefill_kv ar key load)" "keeps (sched_ok ar) (release_decoder ar key load)"
  unfolding release_prefill_kv_def release_decoder_def by (intro keeps_on_pool sound_release)+

lemma keeps_remove: "keeps (sched_ok ar) (remove_instances ar r instances)"
  unfolding keeps_def
proof (intro allI impI)
  fix s assume ok: "sched_ok ar s"
  let ?ks = "set (map (\<lambda>(h, p). server_key h p) instances)"
  have taint: "keeps (sched_ok ar) (on_pool r (op_modify (\<lambda>p. reset_heap ar r True (taint ?ks p))))"
    by (intro keeps_on_pool sound_reset taint_wf)
  have drop: "keeps (sched_ok ar) (on_pool r (op_modify (\<lambda>p. reset_heap ar r True (drop_servers ?ks p))))"
    by (intro keeps_on_pool sound_reset drop_servers_wf)
  consider "instances = []" | "instances \<noteq> []" "sc_request_num s > 0"
    | "instances \<noteq> []" "\<not> sc_request_num s > 0" "list_ex (\<lambda>(k, _). k \<in> ?ks) (servers_of r s)"
    | "instances \<noteq> []" "\<not> sc_request_num s > 0" "\<not> list_ex (\<lambda>(k, _). k \<in> ?ks) (servers_of r s)" by blast
  then show "sched_ok ar (fst (remove_instances ar r instances s))"
  proof cases
    case 1
    then show ?thesis using ok by (simp add: remove_instances_def)
  next
    case 2
    then show ?thesis using keepsD [OF taint ok] by (simp add: remove_instances_def Let_def op_bind_def on_pool_def)
  next
    case 3
    then show ?thesis using keepsD [OF drop ok] by (simp add: remove_instances_def Let_def op_bind_def on_pool_def)
  next
    case 4
    have p: "pool_ok ar r {} (sc_pools s r)" using ok by (simp add: sched_ok_def)
    note drop = sound_drop_none [OF p, of ?ks]
    show ?thesis using 4 ok drop
      by (simp add: remove_instances_def Let_def op_bind_def on_pool_def sched_ok_def servers_of_def)
  qed
qed

lemma sched_ok_call: "keeps (sched_ok ar) (run_call ar c)"
proof -
  note sound = keeps_intros keeps_on_pool keeps_drop_result keeps_releases keeps_remove add_server_ok sound_pick sound_release
    sound_finalize
  have num: "keeps (sched_ok ar) count_request" "keeps (sched_ok ar) (op_modify (\<lambda>s. s\<lparr>sc_request_num := max 0 (sc_request_num s - 1)\<rparr>))"
    unfolding count_request_def by (intro keeps_intros sched_ok_num; simp add: sched_ok_def)+
  have drop: "keeps (sched_ok ar) (drop_waiting_instance key)" for key
    unfolding drop_waiting_instance_def by (intro keeps_intros) simp
  show ?thesis
  proof (cases c)
    case (AddInstances r xs)
    then show ?thesis
      by (simp, intro keeps_drop_result)
        (simp add: keeps_def add_instances_def split_def add_waiting_all_fields sched_ok_def servers_of_def)
  next
    case (MarkWaitingRetry key n)
    then show ?thesis by (auto simp: mark_waiting_retry_def keeps_def split: option.split)
  next
    case (ActivateWaiting r h p)
    let ?k = "server_key h p"
    have "keeps (sched_ok ar) (op_bind (on_pool r (op_modify (untaint ?k))) (\<lambda>_. on_pool r (push_heap ar r ?k)))"
      unfolding on_pool_bind by (intro keeps_on_pool sound_untaint_push)
    note ifs = keeps_if [OF this]
    show ?thesis
      unfolding ActivateWaiting run_call.simps activate_waiting_instance_def Let_def
      by (rule keeps_bind, rule drop, rule keeps_bind, rule keeps_pure, rule ifs, intro keeps_intros add_server_ok)
  qed (simp_all only: run_call.simps begin_request_def reserve_prefill_kv_def pick_decoder_def finish_request_def finalize_tainted_instances_def,
    (intro sound num drop)+)
qed

lemma keeps_mapM_state: "(\<And>x. keeps P (f x)) \<Longrightarrow> P s \<Longrightarrow> P (fst (op_mapM f xs s))"
  by (rule keepsD [OF keeps_mapM])

lemma sched_ok_made: "sched_ok ar (fst (make_scheduler ar ps ds))"
proof -
  have add: "keeps (sched_ok ar) (op_mapM (\<lambda>(h, p). add_server ar r h p) xs)" for r xs
    by (intro keeps_intros add_server_ok)
  show ?thesis
    unfolding make_scheduler_def
    by (rule keepsD [where P = "sched_ok ar"], intro keeps_intros add) (simp add: sched_ok_def servers_of_def ords_ok_def empty_pools_def [symmetric], simp add: empty_pools_def)
qed

lemma reachable_ok: "reachable ar s \<Longrightarrow> sched_ok ar s"
proof (induction rule: reachable.induct)
  case (created ps ds s x)
  then show ?case using sched_ok_made [of ar ps ds] by simp
qed (rule keepsD [OF sched_ok_call])

end
