(* ===== verification/Proxy_Properties.thy ===== *)
theory Proxy_Properties
  imports Proxy_Invariant
begin

text \<open>
  What the proxy's scheduler promises its callers, on every state it can reach.
\<close>

text \<open>C20: a pick returns the live server whose priority - its load, or the taint priority if it is being
  removed - is least, the oldest of them on a tie, although it is read off a heap full of outdated entries.\<close>
theorem picked_server_is_least:
  assumes "reachable ar s" "on_pool r (pick_server ar r load tok kv) s = (t, Inr (k, host, port))"
    and "dict_get (servers_of r s) k' = Some e'" "k' \<noteq> k"
  shows "\<exists>e. dict_get (servers_of r s) k = Some e \<and> host = bs_host e \<and> port = bs_port e \<and>
    (priority ar r (po_tainted (sc_pools s r)) e k, bs_ordinal e) <
    (priority ar r (po_tainted (sc_pools s r)) e' k', bs_ordinal e')"
proof -
  have ok: "pool_ok ar r {} (sc_pools s r)" "ords_ok (sc_ordinal s) (servers_of r s)"
    using reachable_ok [OF assms(1)] by (simp_all add: sched_ok_def)
  obtain p' where "pick_server ar r load tok kv (sc_pools s r) = (p', Inr (k, host, port))"
    using assms(2) by (cases "pick_server ar r load tok kv (sc_pools s r)") (auto simp: on_pool_def)
  from pick_server_ok [OF ok(1) this] obtain e where e: "dict_get (servers_of r s) k = Some e" "host = bs_host e" "port = bs_port e"
      "heap_entry ar r (po_tainted (sc_pools s r)) k e \<le> heap_entry ar r (po_tainted (sc_pools s r)) k' e'"
    using assms(3) by (auto simp: servers_of_def)
  have "bs_ordinal e \<noteq> bs_ordinal e'" using ok(2) e(1) assms(3,4) unfolding ords_ok_def by blast
  then show ?thesis using e by (auto simp: heap_entry_def )
qed

text \<open>A pick fails exactly when its role has no live server.\<close>
theorem pick_fails_iff_no_server:
  assumes "reachable ar s"
  shows "(snd (on_pool r (pick_server ar r load tok kv) s) = Inl (RuntimeError (''No available '' @ role_value r @ '' servers''))) =
    (servers_of r s = [])"
proof -
  have ok: "pool_ok ar r {} (sc_pools s r)" using reachable_ok [OF assms] by (simp add: sched_ok_def)
  obtain p' x where p': "pick_server ar r load tok kv (sc_pools s r) = (p', x)" by fastforce
  show ?thesis
  proof (cases x)
    case (Inl err)
    then show ?thesis using pick_server_ok [OF ok p'] by (auto simp: on_pool_def p' servers_of_def)
  next
    case (Inr y)
    then obtain k e where "dict_get (po_servers (sc_pools s r)) k = Some e"
      using pick_server_ok [OF ok p'] by (auto split: prod.splits)
    then have "servers_of r s \<noteq> []" by (auto simp: servers_of_def)
    then show ?thesis by (simp add: on_pool_def p' Inr)
  qed
qed

text \<open>The heap never holds more than twice as many entries as there are live servers.\<close>
theorem lazy_heap_is_bounded:
  assumes "reachable ar s"
  shows "length (po_heap (sc_pools s r)) \<le> 2 * length (servers_of r s)"
proof -
  have "pool_ok ar r {} (sc_pools s r)" using reachable_ok [OF assms] by (simp add: sched_ok_def)
  then show ?thesis unfolding servers_of_def by (rule pool_okD)
qed

text \<open>C29: a server that is being removed is picked only if every live server of the role is, as long as the loads
  of the others stay below the taint priority.\<close>
theorem isolated_server_is_avoided:
  assumes "reachable ar s" "on_pool r (pick_server ar r load tok kv) s = (t, Inr (k, host, port))"
    and "k \<in> po_tainted (sc_pools s r)" "dict_get (servers_of r s) k' = Some e'"
    and "k' \<in> po_tainted (sc_pools s r) \<or> priority ar r {} e' k' < f_taint ar"
  shows "k' \<in> po_tainted (sc_pools s r)"
proof (rule ccontr)
  assume k': "k' \<notin> po_tainted (sc_pools s r)"
  have ok: "pool_ok ar r {} (sc_pools s r)" using reachable_ok [OF assms(1)] by (simp add: sched_ok_def)
  obtain p' where "pick_server ar r load tok kv (sc_pools s r) = (p', Inr (k, host, port))"
    using assms(2) by (cases "pick_server ar r load tok kv (sc_pools s r)") (auto simp: on_pool_def)
  from pick_server_ok [OF ok this] obtain e where
      "heap_entry ar r (po_tainted (sc_pools s r)) k e \<le> heap_entry ar r (po_tainted (sc_pools s r)) k' e'"
    using assms(4) by (auto simp: servers_of_def)
  then show False using assms(3,5) k' by (auto simp: heap_entry_def priority_def)
qed

section \<open>Draining\<close>

definition has_server :: "server_role \<Rightarrow> string \<Rightarrow> 'f scheduler \<Rightarrow> bool" where
  "has_server r k s \<longleftrightarrow> dict_get (servers_of r s) k \<noteq> None"

lemma keeps_server_pool:
  assumes "\<And>p. dict_get (po_servers p) k \<noteq> None \<Longrightarrow> dict_get (po_servers (fst (m p))) k \<noteq> None"
  shows "keeps (has_server r k) (on_pool r' m)"
  using assms by (auto simp: keeps_def has_server_def servers_of_def on_pool_def split_def)

lemma push_keeps_server: "dict_get (po_servers p) k \<noteq> None \<Longrightarrow> dict_get (po_servers (fst (push_heap ar r j p))) k \<noteq> None"
  by (cases "push_heap ar r j p") (auto simp: push_get)

lemma update_keeps_server: "dict_get (po_servers p) k \<noteq> None \<Longrightarrow> dict_get (po_servers (fst (update_server j f p))) k \<noteq> None"
  by (auto simp: update_server_def split: option.split)

lemma pop_keeps_server: "po_servers (fst (pop_valid_server r p)) = po_servers p"
  by (auto simp: pop_valid_server_def split: prod.split option.split)

abbreviation pool_has :: "string \<Rightarrow> 'f role_pools \<Rightarrow> bool" where
  "pool_has k p \<equiv> dict_get (po_servers p) k \<noteq> None"

lemma pool_has_ops:
  "keeps (pool_has k) (push_heap ar r j)" "keeps (pool_has k) (update_server j f)" "keeps (pool_has k) (pop_valid_server r)"
  using push_keeps_server update_keeps_server pop_keeps_server unfolding keeps_def by metis+

lemma pool_has_pick: "keeps (pool_has k) (pick_server ar r load tok kv)"
  unfolding pick_server_def by (intro keeps_intros pool_has_ops)

lemma pool_has_release: "keeps (pool_has k) (release_load ar r key load tok kv)"
  unfolding release_load_def by (intro keeps_intros pool_has_ops)

lemma keeps_server_on_pool: "keeps (pool_has k) m \<Longrightarrow> keeps (has_server r k) (on_pool r' m)"
  by (rule keeps_server_pool) (simp add: keeps_def)

lemma has_server_fields [simp]:
  "has_server r k (s\<lparr>sc_waiting := w\<rparr>) = has_server r k s" "has_server r k (s\<lparr>sc_request_num := n\<rparr>) = has_server r k s"
  "has_server r k (s\<lparr>sc_ordinal := m\<rparr>) = has_server r k s"
  by (simp_all add: has_server_def servers_of_def)

lemma has_server_add: "keeps (has_server r k) (add_server ar r' host port)"
proof -
  have store: "keeps (has_server r k) (on_pool r' (op_modify (store_server j e)))" for j e
    by (intro keeps_server_on_pool keeps_intros) (auto simp: store_server_def)
  show ?thesis
    unfolding add_server_def Let_def
    by (intro keeps_intros store keeps_server_on_pool pool_has_ops) (simp_all add: store_server_def)
qed

text \<open>C28: while requests are in flight no call removes a server.\<close>
theorem active_requests_keep_servers:
  assumes "sc_request_num s > 0" "dict_get (servers_of r s) k \<noteq> None"
  shows "dict_get (servers_of r (fst (run_call ar c s))) k \<noteq> None"
proof -
  have s: "has_server r k s" using assms(2) by (simp add: has_server_def)
  note keep = keeps_intros keeps_server_on_pool pool_has_ops pool_has_pick pool_has_release has_server_add keeps_drop_result
  have releases: "keeps (has_server r k) (release_prefill_kv ar key load)" "keeps (has_server r k) (release_decoder ar key load)"
    for key load
    unfolding release_prefill_kv_def release_decoder_def by (intro keep)+
  have count: "keeps (has_server r k) count_request" unfolding count_request_def by (intro keep) simp
  have drop: "keeps (has_server r k) (drop_waiting_instance key)" for key
    unfolding drop_waiting_instance_def by (intro keep) simp
  have picks: "keeps (has_server r k) (drop_result (begin_request ar load))"
    "keeps (has_server r k) (drop_result (reserve_prefill_kv ar load))" "keeps (has_server r k) (drop_result (pick_decoder ar load))" for load
    unfolding begin_request_def reserve_prefill_kv_def pick_decoder_def by (intro keep count)+
  have "has_server r k (fst (run_call ar c s))"
  proof (cases c)
    case (AddInstances r xs)
    then show ?thesis using s
      by (simp add: drop_result_def op_bind_def add_instances_def split_def add_waiting_all_fields has_server_def servers_of_def)
  next
    case (MarkWaitingRetry key n)
    then show ?thesis using s by (auto simp: mark_waiting_retry_def split: option.split)
  next
    case (RemoveInstances r' xs)
    have "keeps (has_server r k) (on_pool r' (op_modify (\<lambda>p. reset_heap ar r' True (taint ks p))))" for ks
      by (intro keep) (auto simp: reset_heap_def Let_def dict_get_map taint_def)
    from keepsD [OF this s] show ?thesis
      using assms(1) s
      by (simp add: RemoveInstances drop_result_def remove_instances_def Let_def op_bind_def on_pool_def)
  next
    case FinalizeTainted
    then show ?thesis using assms(1) s by (simp add: finalize_tainted_instances_def op_bind_def)
  next
    case (ActivateWaiting r' h p)
    have "keeps (has_server r k) (run_call ar c)"
      unfolding ActivateWaiting run_call.simps activate_waiting_instance_def Let_def
      by (intro keep drop) (simp add: untaint_def)
    then show ?thesis using s by (rule keepsD)
  next
    case (FinishRequest pk pl dk dl rel)
    have "keeps (has_server r k) (finish_request ar pk pl dk dl rel)"
      unfolding finish_request_def by (intro keep releases) simp
    then show ?thesis using s by (simp add: FinishRequest keeps_def)
  qed (use s picks releases in \<open>simp_all add: keeps_def drop_waiting_instance_def\<close>)
  then show ?thesis by (simp add: has_server_def)
qed

end
