(* ===== verification/Proxy_Listener.thy ===== *)
theory Proxy_Listener
  imports Proxy_Properties
begin

text \<open>
  \<open>NodeListener\<close> of \<open>tools/proxy_server.py\<close>: the rounds in which the nodes waiting to join are
  probed, added, dropped or kept, and the drained servers removed; and the handler behind
  \<open>/instances/add\<close> and \<open>/instances/remove\<close>.
\<close>

section \<open>A round\<close>

text \<open>\<open>ServerRole(value)\<close>.\<close>

definition role_of :: "string \<Rightarrow> server_role result" where
  "role_of v = (if v = ''prefill'' then Inr PREFILL else if v = ''decode'' then Inr DECODE else Inl (ValueError ''ServerRole''))"

lemma role_of_value [simp]: "role_of (role_value r) = Inr r"
  by (cases r) (simp_all add: role_of_def role_value_def)

text \<open>\<open>alive key\<close> is the answer of \<open>check_instance_status\<close> in this round.\<close>

definition check_node :: "'f::linorder arith \<Rightarrow> int \<Rightarrow> (string \<Rightarrow> bool) \<Rightarrow> string \<times> waiting_node \<Rightarrow> ('f scheduler, unit) op" where
  "check_node ar max_retries alive node =
     (case node of (key, typ, (host, port), retries) \<Rightarrow>
        let retries = retries + 1 in
        if alive key then op_bind (op_lift (\<lambda>_. role_of typ)) (\<lambda>r. activate_waiting_instance ar r host port)
        else if retries \<ge> max_retries then drop_waiting_instance key
        else mark_waiting_retry key retries)"

definition listener_round :: "'f::linorder arith \<Rightarrow> int \<Rightarrow> (string \<Rightarrow> bool) \<Rightarrow> ('f scheduler, unit) op" where
  "listener_round ar max_retries alive =
     op_bind (op_get sc_waiting) (\<lambda>nodes.
     op_bind (op_mapM (check_node ar max_retries alive) nodes) (\<lambda>_.
     finalize_tainted_instances ar))"

fun listener_rounds :: "'f::linorder arith \<Rightarrow> int \<Rightarrow> (string \<Rightarrow> bool) list \<Rightarrow> ('f scheduler, unit) op" where
  "listener_rounds ar max_retries [] = op_return ()"
| "listener_rounds ar max_retries (alive # answers) =
     op_bind (listener_round ar max_retries alive) (\<lambda>_. listener_rounds ar max_retries answers)"

lemma role_value_inj [simp]: "role_value r = role_value r' \<longleftrightarrow> r = r'"
  by (cases r; cases r') (simp_all add: role_value_def)

section \<open>What is waiting\<close>

fun node_ok :: "string \<times> waiting_node \<Rightarrow> bool" where
  "node_ok (k, ty, (host, port), n) \<longleftrightarrow> k = server_key host port \<and> (ty = ''prefill'' \<or> ty = ''decode'')"

definition waiting_ok :: "'f scheduler \<Rightarrow> bool" where
  "waiting_ok s \<longleftrightarrow> wf_dict (sc_waiting s) \<and> list_all node_ok (sc_waiting s)"

lemma list_all_put: "P (k, v) \<Longrightarrow> list_all P d \<Longrightarrow> list_all P (dict_put k v d)"
  using set_dict_put [of k v d] by (auto simp: list_all_iff)

lemma waiting_ok_fields [simp]:
  "waiting_ok (s\<lparr>sc_pools := p\<rparr>) = waiting_ok s" "waiting_ok (s\<lparr>sc_request_num := n\<rparr>) = waiting_ok s"
  "waiting_ok (s\<lparr>sc_ordinal := m\<rparr>) = waiting_ok s"
  by (simp_all add: waiting_ok_def)

lemma waiting_ok_filter: "waiting_ok s \<Longrightarrow> waiting_ok (s\<lparr>sc_waiting := filter P (sc_waiting s)\<rparr>)"
  by (auto simp: waiting_ok_def list_all_iff)

lemma waiting_on_pool: "keeps waiting_ok (on_pool r m)"
  by (simp add: keeps_def on_pool_def split_def)

lemma waiting_add: "keeps waiting_ok (add_server ar r host port)"
  unfolding add_server_def Let_def by (intro keeps_intros waiting_on_pool) simp

lemma waiting_drop: "keeps waiting_ok (drop_waiting_instance key)"
  unfolding drop_waiting_instance_def dict_pop_def by (intro keeps_intros waiting_ok_filter)

lemma waiting_add_all: "waiting_ok s \<Longrightarrow> waiting_ok (fst (add_waiting_all r xs s))"
proof (induction xs arbitrary: s)
  case (Cons hp xs)
  have "waiting_ok (fst (add_waiting r hp s))"
    using Cons.prems
    by (cases r; cases hp) (auto simp: add_waiting_def Let_def waiting_ok_def role_value_def split: prod.splits intro!: list_all_put)
  from Cons.IH [OF this] show ?case by (simp add: split_def Let_def)
qed simp

lemma waiting_ok_call: "keeps waiting_ok (run_call ar c)"
proof -
  note keep = keeps_intros waiting_on_pool waiting_add waiting_drop keeps_drop_result
  have rel: "keeps waiting_ok (release_prefill_kv ar key load)" "keeps waiting_ok (release_decoder ar key load)" for key load
    unfolding release_prefill_kv_def release_decoder_def by (intro keep)+
  have count: "keeps waiting_ok count_request" unfolding count_request_def by (intro keep) simp
  have num: "keeps waiting_ok (op_modify (\<lambda>s. s\<lparr>sc_request_num := max 0 (sc_request_num s - 1)\<rparr>))"
    by (intro keep) simp
  show ?thesis
  proof (cases c)
    case (AddInstances r xs)
    then show ?thesis
      by (simp, intro keep) (simp add: keeps_def add_instances_def split_def waiting_add_all)
  next
    case (MarkWaitingRetry key n)
    have "waiting_ok (s\<lparr>sc_waiting := dict_put key (ty, hp, n) (sc_waiting s)\<rparr>)"
      if "waiting_ok s" "dict_get (sc_waiting s) key = Some (ty, hp, n')" for s :: "'a scheduler" and ty hp n'
      using that(1) dict_get_mem [OF that(2)] unfolding waiting_ok_def
      by (auto simp: list_all_iff split: prod.splits dest!: set_dict_put [THEN subsetD])
    then show ?thesis
      by (auto simp: MarkWaitingRetry mark_waiting_retry_def keeps_def split: option.split)
  next
    case (RemoveInstances r xs)
    show ?thesis
      unfolding RemoveInstances run_call.simps remove_instances_def Let_def
      by (intro keep waiting_ok_filter)
  next
    case (ActivateWaiting r h p)
    show ?thesis
      unfolding ActivateWaiting run_call.simps activate_waiting_instance_def Let_def by (intro keep)
  qed (simp_all only: run_call.simps begin_request_def reserve_prefill_kv_def pick_decoder_def finish_request_def
    finalize_tainted_instances_def, (intro keep rel count num)+)
qed

lemma reachable_waiting: "reachable ar s \<Longrightarrow> waiting_ok s"
proof (induction rule: reachable.induct)
  case (created ps ds s x)
  have add: "keeps waiting_ok (op_mapM (\<lambda>(h, p). add_server ar r h p) xs)" for r xs
    by (intro keeps_intros waiting_add)
  have "waiting_ok (fst (make_scheduler ar ps ds))"
    unfolding make_scheduler_def
    by (rule keepsD [where P = waiting_ok], intro keeps_intros add) (simp add: waiting_ok_def)
  then show ?case using created by simp
qed (rule keepsD [OF waiting_ok_call])

section \<open>Rounds that go through\<close>

text \<open>The nodes still waiting after a round.\<close>

definition still_waiting :: "int \<Rightarrow> (string \<Rightarrow> bool) \<Rightarrow> (string, waiting_node) dict \<Rightarrow> (string, waiting_node) dict" where
  "still_waiting max_retries alive d =
     map (\<lambda>(k, v, hp, n). (k, v, hp, n + 1)) (filter (\<lambda>(k, _, _, n). \<not> alive k \<and> n + 1 < max_retries) d)"

text \<open>No server of a node among \<open>d\<close> is marked for removal without being there.\<close>

definition no_orphans :: "(string, waiting_node) dict \<Rightarrow> 'f scheduler \<Rightarrow> bool" where
  "no_orphans d s \<longleftrightarrow> (\<forall>r k. k \<in> fst ` set d \<longrightarrow> k \<in> po_tainted (sc_pools s r) \<longrightarrow> has_server r k s)"

lemma push_ok: "dict_get (po_servers p) k \<noteq> None \<Longrightarrow> \<exists>p'. push_heap ar r k p = (p', Inr ()) \<and> po_tainted p' = po_tainted p"
  by (auto simp: push_heap_def reset_heap_def Let_def)

lemma add_server_total:
  "\<exists>t b. add_server ar r host port s = (t, Inr b) \<and> sc_waiting t = sc_waiting s \<and>
     (\<forall>r'. po_tainted (sc_pools t r') = po_tainted (sc_pools s r')) \<and> has_server r (server_key host port) t"
proof (cases "dict_get (servers_of r s) (server_key host port)")
  case (Some e)
  then show ?thesis by (auto simp: add_server_def Let_def op_bind_def has_server_def)
next
  case None
  let ?k = "server_key host port" and ?q = "store_server (server_key host port) (new_server ar host port (sc_ordinal s)) (sc_pools s r)"
  obtain p' where p': "push_heap ar r ?k ?q = (p', Inr ())" "po_tainted p' = po_tainted ?q"
    using push_ok [of ?q ?k ar r] by (auto simp: store_server_def)
  have "dict_get (po_servers p') ?k \<noteq> None"
    using push_keeps_server [of ?q ?k ar r ?k] p' by (simp add: store_server_def)
  then show ?thesis
    using None p' by (simp add: add_server_def Let_def op_bind_def on_pool_def has_server_def servers_of_def) (auto simp: store_server_def)
qed

lemma activate_total:
  assumes "server_key host port \<in> po_tainted (sc_pools s r) \<Longrightarrow> has_server r (server_key host port) s"
  shows "\<exists>t. activate_waiting_instance ar r host port s = (t, Inr ()) \<and>
    sc_waiting t = dict_pop (server_key host port) (sc_waiting s) \<and>
    (\<forall>r'. po_tainted (sc_pools t r') \<subseteq> po_tainted (sc_pools s r')) \<and>
    server_key host port \<notin> po_tainted (sc_pools t r) \<and> has_server r (server_key host port) t"
proof (cases "server_key host port \<in> po_tainted (sc_pools s r)")
  case True
  let ?k = "server_key host port"
  let ?q = "untaint ?k (sc_pools s r)"
  have q: "dict_get (po_servers ?q) ?k \<noteq> None" using assms True by (simp add: has_server_def servers_of_def untaint_def)
  from push_ok [OF q] obtain p' where p': "push_heap ar r ?k ?q = (p', Inr ())" "po_tainted p' = po_tainted ?q" by blast
  have "dict_get (po_servers p') ?k \<noteq> None" using push_keeps_server [OF q, of ar r ?k] p' by simp
  then show ?thesis using True p'
    by (simp add: activate_waiting_instance_def drop_waiting_instance_def Let_def op_bind_def on_pool_def has_server_def servers_of_def)
      (auto simp: untaint_def)
next
  case False
  let ?k = "server_key host port"
  obtain t b where t: "add_server ar r host port (s\<lparr>sc_waiting := dict_pop ?k (sc_waiting s)\<rparr>) = (t, Inr b)"
    "sc_waiting t = dict_pop ?k (sc_waiting s)" "\<And>r'. po_tainted (sc_pools t r') = po_tainted (sc_pools s r')" "has_server r ?k t"
    using add_server_total [of ar r host port "s\<lparr>sc_waiting := dict_pop ?k (sc_waiting s)\<rparr>"] by auto
  then show ?thesis using False
    by (simp add: activate_waiting_instance_def drop_waiting_instance_def Let_def op_bind_def)
qed

lemma has_server_activate: "keeps (has_server r k) (activate_waiting_instance ar r' host port)"
proof -
  have drop: "keeps (has_server r k) (drop_waiting_instance key)" for key
    unfolding drop_waiting_instance_def by (intro keeps_intros) simp
  show ?thesis
    unfolding activate_waiting_instance_def Let_def
    by (intro keeps_intros keeps_drop_result has_server_add keeps_server_on_pool pool_has_ops drop) (simp add: untaint_def)
qed

lemma dict_pop_absent: "k \<notin> fst ` set a \<Longrightarrow> dict_pop k a = a"
  by (induction a) (auto simp: dict_pop_def)

lemma dict_pop_mid: "k \<notin> fst ` set a \<Longrightarrow> k \<notin> fst ` set b \<Longrightarrow> dict_pop k (a @ (k, v) # b) = a @ b"
  using dict_pop_absent [of k a] dict_pop_absent [of k b] by (simp add: dict_pop_def)

lemma dict_put_mid: "k \<notin> fst ` set a \<Longrightarrow> dict_put k w (a @ (k, v) # b) = a @ (k, w) # b"
  by (induction a) auto

lemma dict_get_mid: "k \<notin> fst ` set a \<Longrightarrow> dict_get (a @ (k, v) # b) k = Some v"
  by (induction a) (auto simp: dict_get_def)

text \<open>One node: the state of the others is untouched, and nothing that was fine is spoilt.\<close>

lemma check_node_step:
  assumes "sc_waiting s = a @ (k, w) # b" "k \<notin> fst ` set a" "k \<notin> fst ` set b"
    and "node_ok (k, w)"
    and "no_orphans ((k, w) # b) s"
  shows "\<exists>t. check_node ar m alive (k, w) s = (t, Inr ()) \<and> sc_waiting t = a @ still_waiting m alive [(k, w)] @ b \<and>
    no_orphans b t \<and> (\<forall>r. po_tainted (sc_pools t r) \<subseteq> po_tainted (sc_pools s r)) \<and>
    (\<forall>r j. has_server r j s \<longrightarrow> has_server r j t) \<and>
    (alive k \<longrightarrow> (\<exists>r. fst w = role_value r \<and> has_server r k t \<and> k \<notin> po_tainted (sc_pools t r)))"
proof -
  obtain ty host port n where w: "w = (ty, (host, port), n)" by (cases w) auto
  have k: "k = server_key host port" using assms(4) by (simp add: w)
  obtain r where r: "ty = role_value r" "role_of ty = Inr r"
    using assms(4) by (auto simp: w role_value_def role_of_def split: server_role.splits)
  show ?thesis
  proof (cases "alive k")
    case True
    have "k \<in> po_tainted (sc_pools s r) \<Longrightarrow> has_server r k s" using assms(5) by (simp add: no_orphans_def)
    then obtain t where t: "activate_waiting_instance ar r host port s = (t, Inr ())"
      "sc_waiting t = dict_pop k (sc_waiting s)" "\<And>r'. po_tainted (sc_pools t r') \<subseteq> po_tainted (sc_pools s r')"
      "k \<notin> po_tainted (sc_pools t r)" "has_server r k t"
      using activate_total [of host port s r ar] k by auto
    have keep: "has_server r' j s \<Longrightarrow> has_server r' j t" for r' j
      using keepsD [OF has_server_activate, of r' j s ar r host port] t(1) by simp
    have "no_orphans b t" using assms(5) t(3) keep unfolding no_orphans_def by (meson set_subset_Cons image_mono subsetD)
    moreover have "sc_waiting t = a @ b" using t(2) assms dict_pop_mid by simp
    ultimately show ?thesis using t keep True r by (auto simp: check_node_def w op_bind_def still_waiting_def Let_def)
  next
    case False
    have orph: "no_orphans b s" using assms(5) by (auto simp: no_orphans_def)
    show ?thesis
    proof (cases "n + 1 < m")
      case True
      then show ?thesis using False assms(1,2) orph
        by (simp add: check_node_def w Let_def still_waiting_def mark_waiting_retry_def dict_get_mid dict_put_mid)
          (simp add: no_orphans_def)
    next
      case less: False
      then show ?thesis using False assms(1,2,3) orph
        by (simp add: check_node_def w Let_def still_waiting_def drop_waiting_instance_def dict_pop_mid)
          (simp add: no_orphans_def)
    qed
  qed
qed

lemma still_waiting_append [simp]: "still_waiting m alive (a @ b) = still_waiting m alive a @ still_waiting m alive b"
  by (simp add: still_waiting_def)

lemma still_waiting_keys: "fst ` set (still_waiting m alive d) \<subseteq> fst ` set d"
  by (force simp: still_waiting_def)

lemma check_nodes:
  assumes "sc_waiting s = a @ b" "distinct (map fst (a @ b))" "list_all node_ok b" "no_orphans b s"
  shows "\<exists>t us. op_mapM (check_node ar m alive) b s = (t, Inr us) \<and> sc_waiting t = a @ still_waiting m alive b \<and>
    (\<forall>r. po_tainted (sc_pools t r) \<subseteq> po_tainted (sc_pools s r)) \<and> (\<forall>r j. has_server r j s \<longrightarrow> has_server r j t) \<and>
    (\<forall>k w. (k, w) \<in> set b \<longrightarrow> alive k \<longrightarrow> (\<exists>r. fst w = role_value r \<and> has_server r k t \<and> k \<notin> po_tainted (sc_pools t r)))"
  using assms
proof (induction b arbitrary: a s)
  case Nil
  then show ?case by (simp add: still_waiting_def)
next
  case (Cons kw b)
  obtain k w where kw: "kw = (k, w)" by (cases kw)
  have ka: "k \<notin> fst ` set a" and kb: "k \<notin> fst ` set b" using Cons.prems(2) by (auto simp: kw)
  have kok: "node_ok (k, w)"
    using Cons.prems(3) by (simp add: kw)
  obtain u where u: "check_node ar m alive (k, w) s = (u, Inr ())" "sc_waiting u = a @ still_waiting m alive [(k, w)] @ b"
    "no_orphans b u" "\<And>r. po_tainted (sc_pools u r) \<subseteq> po_tainted (sc_pools s r)"
    "\<And>r j. has_server r j s \<Longrightarrow> has_server r j u"
    "alive k \<Longrightarrow> \<exists>r. fst w = role_value r \<and> has_server r k u \<and> k \<notin> po_tainted (sc_pools u r)"
    using check_node_step [OF Cons.prems(1) [unfolded kw] ka kb kok Cons.prems(4) [unfolded kw], of ar m alive] by blast
  let ?a = "a @ still_waiting m alive [(k, w)]"
  have dist: "distinct (map fst (?a @ b))"
    using Cons.prems(2) by (auto simp: kw still_waiting_def split: prod.splits)
  have wait: "sc_waiting u = ?a @ b" using u(2) by simp
  have ok: "list_all node_ok b" using Cons.prems(3) by simp
  obtain t us where t: "op_mapM (check_node ar m alive) b u = (t, Inr us)" "sc_waiting t = ?a @ still_waiting m alive b"
    "\<And>r. po_tainted (sc_pools t r) \<subseteq> po_tainted (sc_pools u r)" "\<And>r j. has_server r j u \<Longrightarrow> has_server r j t"
    "\<And>k w. (k, w) \<in> set b \<Longrightarrow> alive k \<Longrightarrow> \<exists>r. fst w = role_value r \<and> has_server r k t \<and> k \<notin> po_tainted (sc_pools t r)"
    using Cons.IH [OF wait dist ok u(3)] by blast
  have "op_mapM (check_node ar m alive) (kw # b) s = (t, Inr (() # us))"
    using u(1) t(1) by (simp add: kw)
  moreover have "sc_waiting t = a @ still_waiting m alive (kw # b)"
    using t(2) still_waiting_append [of m alive "[kw]" b] by (simp add: kw)
  moreover have "po_tainted (sc_pools t r) \<subseteq> po_tainted (sc_pools s r)" for r using t(3) u(4) by blast
  moreover have "has_server r j s \<Longrightarrow> has_server r j t" for r j using t(4) u(5) by blast
  moreover have "(k', w') \<in> set (kw # b) \<Longrightarrow> alive k' \<Longrightarrow>
      \<exists>r. fst w' = role_value r \<and> has_server r k' t \<and> k' \<notin> po_tainted (sc_pools t r)" for k' w'
  proof -
    assume mem: "(k', w') \<in> set (kw # b)" and up: "alive k'"
    show "\<exists>r. fst w' = role_value r \<and> has_server r k' t \<and> k' \<notin> po_tainted (sc_pools t r)"
    proof (cases "(k', w') \<in> set b")
      case False
      then have "k' = k" "w' = w" using mem by (simp_all add: kw)
      then show ?thesis using u(6) up t(3,4) by blast
    qed (use t(5) up in blast)
  qed
  ultimately show ?case by blast
qed

text \<open>The drained servers go at the end of the round; only isolated servers do.\<close>

lemma finalize_pool_server:
  assumes "wf_dict (po_servers p)" "k \<notin> po_tainted p"
  shows "(dict_get (po_servers (finalize_pool ar r p)) k \<noteq> None) = (dict_get (po_servers p) k \<noteq> None)"
  using assms by (auto simp: finalize_pool_def reset_heap_def Let_def dict_get_map drop_servers_def dict_get_filter)

lemma finalize_total:
  assumes "sched_ok ar s"
  shows "\<exists>t. finalize_tainted_instances ar s = (t, Inr ()) \<and> sc_waiting t = sc_waiting s \<and>
    (sc_request_num s = 0 \<longrightarrow> (\<forall>r. po_tainted (sc_pools t r) = {})) \<and> (sc_request_num s \<noteq> 0 \<longrightarrow> t = s) \<and>
    (\<forall>r k. has_server r k s \<longrightarrow> k \<notin> po_tainted (sc_pools s r) \<longrightarrow> has_server r k t)"
proof (cases "sc_request_num s = 0")
  case True
  have wf: "wf_dict (po_servers (sc_pools s r))" for r using assms by (auto simp: sched_ok_def dest: pool_okD)
  have clear: "po_tainted (finalize_pool ar r p) = {}" for r p
    by (simp add: finalize_pool_def reset_heap_def drop_servers_def Let_def)
  let ?t = "fst (finalize_tainted_instances ar s)"
  have t: "sc_pools ?t r = finalize_pool ar r (sc_pools s r)" for r
    using True by (cases r) (simp_all add: finalize_tainted_instances_def op_bind_def on_pool_def)
  have "finalize_tainted_instances ar s = (?t, Inr ())" "sc_waiting ?t = sc_waiting s"
    using True by (simp_all add: finalize_tainted_instances_def op_bind_def on_pool_def)
  then show ?thesis using True t clear finalize_pool_server [OF wf] unfolding has_server_def servers_of_def by metis
qed (simp add: finalize_tainted_instances_def op_bind_def)

lemma round_total:
  assumes "sched_ok ar s" "waiting_ok s" "no_orphans (sc_waiting s) s"
  shows "\<exists>t. listener_round ar m alive s = (t, Inr ()) \<and> sc_waiting t = still_waiting m alive (sc_waiting s) \<and>
    sched_ok ar t \<and> waiting_ok t \<and> no_orphans (sc_waiting t) t \<and>
    (\<forall>k w. (k, w) \<in> set (sc_waiting s) \<longrightarrow> alive k \<longrightarrow> (\<exists>r. fst w = role_value r \<and> has_server r k t))"
proof -
  let ?d = "sc_waiting s"
  have d: "distinct (map fst ([] @ ?d))" "list_all node_ok ?d" using assms(2) by (simp_all add: waiting_ok_def wf_dict_def)
  obtain u us where u: "op_mapM (check_node ar m alive) ?d s = (u, Inr us)" "sc_waiting u = still_waiting m alive ?d"
    "\<And>r. po_tainted (sc_pools u r) \<subseteq> po_tainted (sc_pools s r)" "\<And>r j. has_server r j s \<Longrightarrow> has_server r j u"
    "\<And>k w. (k, w) \<in> set ?d \<Longrightarrow> alive k \<Longrightarrow> \<exists>r. fst w = role_value r \<and> has_server r k u \<and> k \<notin> po_tainted (sc_pools u r)"
    using check_nodes [of s "[]" ?d ar m alive] d assms(3) unfolding append_Nil by blast
  have node: "keeps (\<lambda>s. sched_ok ar s \<and> waiting_ok s) (check_node ar m alive kw)" for kw
  proof -
    have calls: "keeps (\<lambda>s. sched_ok ar s \<and> waiting_ok s) (run_call ar c)" for c
      using sched_ok_call waiting_ok_call unfolding keeps_def by blast
    from calls [of "ActivateWaiting _ _ _"] calls [of "DropWaiting _"] calls [of "MarkWaitingRetry _ _"] show ?thesis
      unfolding check_node_def run_call.simps Let_def by (intro keeps_intros)
  qed
  have "sched_ok ar (fst (op_mapM (check_node ar m alive) ?d s)) \<and> waiting_ok (fst (op_mapM (check_node ar m alive) ?d s))"
    by (rule keepsD [OF keeps_mapM, where P = "\<lambda>s. sched_ok ar s \<and> waiting_ok s"]) (use node assms in auto)
  then have ok: "sched_ok ar u" "waiting_ok u" by (simp_all add: u)
  from finalize_total [OF ok(1)] obtain t where t: "finalize_tainted_instances ar u = (t, Inr ())" "sc_waiting t = sc_waiting u"
    "sc_request_num u = 0 \<Longrightarrow> po_tainted (sc_pools t r) = {}" "sc_request_num u \<noteq> 0 \<Longrightarrow> t = u"
    "\<And>r k. has_server r k u \<Longrightarrow> k \<notin> po_tainted (sc_pools u r) \<Longrightarrow> has_server r k t" for r by blast
  have "listener_round ar m alive s = (t, Inr ())"
    by (simp add: listener_round_def op_bind_def u(1) t(1))
  moreover have "sched_ok ar t" "waiting_ok t"
    using keepsD [OF sched_ok_call [of ar FinalizeTainted] ok(1)] keepsD [OF waiting_ok_call [of ar FinalizeTainted] ok(2)]
    by (simp_all add: t(1))
  moreover have "no_orphans (sc_waiting t) t"
  proof (cases "sc_request_num u = 0")
    case False
    have "has_server r k u" if "k \<in> fst ` set (sc_waiting u)" "k \<in> po_tainted (sc_pools u r)" for r k
    proof -
      have "k \<in> fst ` set ?d" using that(1) still_waiting_keys [of m alive ?d] unfolding u(2) by blast
      moreover have "k \<in> po_tainted (sc_pools s r)" using that(2) u(3) by blast
      ultimately show ?thesis using assms(3) u(4) unfolding no_orphans_def by blast
    qed
    then have "no_orphans (sc_waiting u) u" by (simp add: no_orphans_def)
    then show ?thesis using t(4) [OF False] by simp
  qed (simp add: no_orphans_def t(3))
  moreover have "sc_waiting t = still_waiting m alive ?d" using t(2) u(2) by simp
  moreover have "\<exists>r. fst w = role_value r \<and> has_server r k t" if "(k, w) \<in> set ?d" "alive k" for k w
    using u(5) [OF that] t(5) by blast
  ultimately show ?thesis by blast
qed

text \<open>How often a node can still be probed.\<close>

definition rounds_left :: "int \<Rightarrow> (string, waiting_node) dict \<Rightarrow> nat" where
  "rounds_left m d = foldr max (map (\<lambda>(_, _, _, n). nat (m - n)) d) 0"

lemma rounds_left_le: "rounds_left m d \<le> l \<longleftrightarrow> (\<forall>k v hp n. (k, v, hp, n) \<in> set d \<longrightarrow> nat (m - n) \<le> l)"
  unfolding rounds_left_def by (induction d) (auto simp: split_def)

lemma still_waiting_left:
  assumes "rounds_left m d \<le> Suc l"
  shows "rounds_left m (still_waiting m alive d) \<le> l"
  using assms unfolding rounds_left_le by (fastforce simp: still_waiting_def)


text \<open>A waiting node that answers the probe is a server of its role at the end of that round.\<close>
theorem answering_node_joins:
  assumes "reachable ar s" "no_orphans (sc_waiting s) s" "dict_get (sc_waiting s) k = Some (role_value r, hp, n)" "alive k"
  shows "\<exists>t. listener_round ar m alive s = (t, Inr ()) \<and> dict_get (sc_waiting t) k = None \<and>
    dict_get (servers_of r t) k \<noteq> None"
proof -
  have ok: "sched_ok ar s" "waiting_ok s" using assms(1) by (auto dest: reachable_ok reachable_waiting)
  obtain t where t: "listener_round ar m alive s = (t, Inr ())" "sc_waiting t = still_waiting m alive (sc_waiting s)"
    "\<And>k w. (k, w) \<in> set (sc_waiting s) \<Longrightarrow> alive k \<Longrightarrow> \<exists>r. fst w = role_value r \<and> has_server r k t"
    using round_total [OF ok assms(2), of m alive] by blast
  have "\<exists>r'. role_value r = role_value r' \<and> has_server r' k t"
    using t(3) [OF dict_get_mem [OF assms(3)] assms(4)] by simp
  then have "has_server r k t" by simp
  moreover have "dict_get (sc_waiting t) k = None"
    unfolding t(2) dict_get_None using assms(4) by (auto simp: still_waiting_def)
  ultimately show ?thesis using t(1) by (simp add: has_server_def)
qed

text \<open>C38: a waiting node that was isolated although it is not a server yet - removed while requests were in flight -
  and answers the probe makes the listener raise, with the node neither waiting nor a server.\<close>
theorem isolated_waiting_node_stops_listener:
  assumes "k = server_key host port" "k \<in> po_tainted (sc_pools s r)" "dict_get (servers_of r s) k = None" "alive k"
  shows "\<exists>t. check_node ar m alive (k, role_value r, (host, port), n) s = (t, Inl KeyError) \<and>
    dict_get (sc_waiting t) k = None \<and> dict_get (servers_of r t) k = None"
  using assms
  by (simp add: check_node_def activate_waiting_instance_def drop_waiting_instance_def Let_def op_bind_def on_pool_def
    push_heap_def untaint_def servers_of_def)

text \<open>C31: in every state the scheduler reaches, each server of a role is stored once, under the key of its address and
  with an ordinal of its own; each waiting node is stored once, under the key of its address, with a role the
  listener can read; the count of requests in flight is not negative.\<close>
theorem scheduler_state_is_well_formed:
  assumes "reachable ar s"
  shows "wf_dict (servers_of r s) \<and> distinct (map (\<lambda>(_, e). bs_ordinal e) (servers_of r s)) \<and>
    list_all (\<lambda>(k, e). k = server_key (bs_host e) (bs_port e)) (servers_of r s) \<and>
    wf_dict (sc_waiting s) \<and>
    list_all (\<lambda>(k, ty, (host, port), _). k = server_key host port \<and> role_of ty \<in> {Inr PREFILL, Inr DECODE}) (sc_waiting s) \<and>
    0 \<le> sc_request_num s"
proof -
  have ok: "sched_ok ar s" "waiting_ok s" using assms by (auto dest: reachable_ok reachable_waiting)
  have wf: "wf_dict (servers_of r s)" using ok(1) by (auto simp: sched_ok_def servers_of_def dest: pool_okD)
  have ords: "ords_ok (sc_ordinal s) (servers_of r s)" "0 \<le> sc_request_num s" using ok(1) by (simp_all add: sched_ok_def)
  have keys: "list_all (\<lambda>(k, e). k = server_key (bs_host e) (bs_port e)) (servers_of r s)"
    using ords(1) dict_get_in [OF wf] by (auto simp: list_all_iff ords_ok_def)
  have "inj_on (\<lambda>(_, e). bs_ordinal e) (set (servers_of r s))"
  proof (rule inj_onI, clarify)
    fix k e k' e'
    assume "(k, e) \<in> set (servers_of r s)" "(k', e') \<in> set (servers_of r s)" "bs_ordinal e = bs_ordinal e'"
    then show "k = k' \<and> e = e'" using ords(1) dict_get_in [OF wf] unfolding ords_ok_def by (metis option.inject)
  qed
  moreover have "distinct (servers_of r s)" using wf distinct_map by (auto simp: wf_dict_def)
  ultimately have "distinct (map (\<lambda>(_, e). bs_ordinal e) (servers_of r s))" by (simp add: distinct_map)
  moreover have "list_all (\<lambda>(k, ty, (host, port), _). k = server_key host port \<and> role_of ty \<in> {Inr PREFILL, Inr DECODE}) (sc_waiting s)"
  proof -
    have "node_ok x \<Longrightarrow> case x of (k, ty, (host, port), _) \<Rightarrow> k = server_key host port \<and> role_of ty \<in> {Inr PREFILL, Inr DECODE}" for x
      by (cases x rule: node_ok.cases) (auto simp: role_of_def)
    then show ?thesis using ok(2) unfolding waiting_ok_def list_all_iff by blast
  qed
  ultimately show ?thesis using wf keys ok(2) ords(2) by (simp add: waiting_ok_def)
qed

end
