(* ===== verification/Proxy_Clients.thy ===== *)
theory Proxy_Clients
  imports Proxy_Listener Metadata
begin

text \<open>
  \<open>WorkerRuntime\<close> of \<open>tools/proxy_server.py\<close>: the HTTP clients a worker keeps for the servers of
  the shared scheduler; and the handler behind \<open>/instances/add\<close> and \<open>/instances/remove\<close>.
\<close>

section \<open>The clients of a worker\<close>

text \<open>A client is the address it was made for.\<close>

type_synonym clients = "server_role \<Rightarrow> (string, string \<times> int) dict"

definition targets :: "(string \<times> int) list \<Rightarrow> (string, string \<times> int) dict" where
  "targets snapshot = dict_of (map (\<lambda>(host, port). (server_key host port, (host, port))) snapshot)"

definition add_client :: "string \<times> string \<times> int \<Rightarrow> (string, string \<times> int) dict \<Rightarrow> (string, string \<times> int) dict" where
  "add_client t d = (case t of (key, hp) \<Rightarrow> if dict_get d key \<noteq> None then d else dict_put key hp d)"

definition sync_role :: "(string, string \<times> int) dict \<Rightarrow> (string, string \<times> int) dict \<Rightarrow> (string, string \<times> int) dict" where
  "sync_role wanted d = fold add_client wanted (filter (\<lambda>(k, _). dict_get wanted k \<noteq> None) d)"

definition sync_clients :: "'f scheduler \<Rightarrow> clients \<Rightarrow> clients" where
  "sync_clients s cl = (\<lambda>r. sync_role (targets (get_snapshot s r)) (cl r))"

definition get_client :: "'f scheduler \<Rightarrow> server_role \<Rightarrow> string \<Rightarrow> (clients, string \<times> int) op" where
  "get_client s r key = (\<lambda>cl.
     let cl = (if dict_get (cl r) key = None then sync_clients s cl else cl) in (cl, dict_lookup (cl r) key))"

section \<open>Adjusting the instances\<close>

fun split_on :: "char \<Rightarrow> string \<Rightarrow> string list" where
  "split_on c [] = [[]]"
| "split_on c (x # xs) =
     (if x = c then [] # split_on c xs
      else case split_on c xs of [] \<Rightarrow> [[x]] | y # ys \<Rightarrow> (x # y) # ys)"

text \<open>\<open>host, port = instance.split(":")\<close> and \<open>int(port)\<close>.\<close>

definition parse_server_address :: "string \<Rightarrow> (string \<times> int) result" where
  "parse_server_address inst =
     (case split_on (CHR '':'') inst of
        [host, port] \<Rightarrow>
          (case py_int_of_str port of None \<Rightarrow> Inl (ValueError ''int'') | Some n \<Rightarrow> Inr (host, n))
      | _ \<Rightarrow> Inl (ValueError ''unpack''))"

definition parse_server_addresses :: "string list \<Rightarrow> (string \<times> int) list result" where
  "parse_server_addresses instances = map_result parse_server_address instances"

datatype adjust_mode = Add | Remove

datatype adjusted = Unsupported string | Changed | Waiting "string list" | Isolated

text \<open>The reply: what happened and, unless the role is unknown, the servers of both roles.\<close>

definition adjust_instances ::
  "'f::linorder arith \<Rightarrow> adjust_mode \<Rightarrow> string \<Rightarrow> string list \<Rightarrow>
   ('f scheduler, adjusted \<times> (server_role \<Rightarrow> (string \<times> int) list) option) op" where
  "adjust_instances ar mode typ instances =
     op_bind (op_lift (\<lambda>_. parse_server_addresses instances)) (\<lambda>parsed.
     case role_of typ of
       Inl e \<Rightarrow> op_return (Unsupported typ, None)
     | Inr r \<Rightarrow>
         op_bind
           (case mode of
              Add \<Rightarrow> op_bind (add_instances r parsed) (\<lambda>nodes.
                op_return (if nodes \<noteq> [] then Waiting nodes else Changed))
            | Remove \<Rightarrow> op_bind (remove_instances ar r parsed) (\<lambda>waiting.
                op_return (if waiting then Isolated else Changed)))
           (\<lambda>msg. op_get (\<lambda>s. (msg, Some (get_snapshot s)))))"

section \<open>Properties\<close>

lemma add_client_get: "dict_get (add_client (k, hp) d) j =
    (if j = k then (case dict_get d k of None \<Rightarrow> Some hp | Some x \<Rightarrow> Some x) else dict_get d j)"
  by (auto simp: add_client_def split: option.split)

lemma fold_add_client:
  assumes "wf_dict wanted"
  shows "dict_get (fold add_client wanted d) j =
    (case dict_get d j of Some x \<Rightarrow> Some x | None \<Rightarrow> dict_get wanted j)"
  using assms
proof (induction wanted arbitrary: d)
  case (Cons kv wanted)
  obtain k hp where kv: "kv = (k, hp)" by (cases kv)
  have "wf_dict wanted" "dict_get wanted k = None" using Cons.prems by (simp_all add: kv wf_dict_Cons)
  then show ?case using Cons.IH [of "add_client (k, hp) d"]
    by (auto simp: kv add_client_get dict_get_Cons split: option.split)
qed (simp split: option.split)

lemma wf_fold_put: "wf_dict d \<Longrightarrow> wf_dict (fold (\<lambda>(k, v). dict_put k v) kvs d)"
  by (induction kvs arbitrary: d) auto

lemma wf_dict_of [simp]: "wf_dict (dict_of kvs)"
  by (simp add: dict_of_def wf_fold_put)

lemma dict_get_append: "dict_get (a @ b) k = (case dict_get a k of None \<Rightarrow> dict_get b k | Some v \<Rightarrow> Some v)"
  by (induction a) (auto simp: dict_get_Cons split: option.split)

lemma dict_get_of: "dict_get (dict_of kvs) k = dict_get (rev kvs) k"
proof -
  have "dict_get (fold (\<lambda>(k, v). dict_put k v) kvs d) k =
      (case dict_get (rev kvs) k of Some v \<Rightarrow> Some v | None \<Rightarrow> dict_get d k)" for d
  proof (induction kvs arbitrary: d)
    case (Cons kv kvs)
    then show ?case by (cases kv) (auto simp: dict_get_append dict_get_Cons split: option.split)
  qed simp
  from this [of "[]"] show ?thesis by (simp add: dict_of_def split: option.split)
qed

lemma sync_role_get:
  assumes "wf_dict d"
  shows "dict_get (sync_role (dict_of w) d) k =
    (case dict_get (dict_of w) k of None \<Rightarrow> None | Some hp \<Rightarrow> (case dict_get d k of None \<Rightarrow> Some hp | Some x \<Rightarrow> Some x))"
  using dict_get_filter [OF assms, of "\<lambda>k. dict_get (dict_of w) k \<noteq> None" k]
  by (auto simp: sync_role_def fold_add_client split: option.split)

text \<open>The snapshot of a role gives back its servers under their keys.\<close>

lemma targets_servers:
  assumes "sched_ok ar s"
  shows "dict_get (targets (get_snapshot s r)) k = map_option (\<lambda>e. (bs_host e, bs_port e)) (dict_get (servers_of r s) k)"
proof -
  let ?d = "servers_of r s" and ?sorted = "sort_key (\<lambda>(_, e). bs_ordinal e) (servers_of r s)"
  have wf: "wf_dict ?d" using assms by (auto simp: sched_ok_def servers_of_def dest: pool_okD)
  have key: "k' = server_key (bs_host e) (bs_port e)" if "(k', e) \<in> set ?d" for k' e
    using assms dict_get_in [OF wf that] by (auto simp: sched_ok_def ords_ok_def)
  have "map (\<lambda>(host, port). (server_key host port, (host, port))) (get_snapshot s r) = map (\<lambda>(k, e). (k, (bs_host e, bs_port e))) ?sorted"
    using key by (auto simp: get_snapshot_def)
  then have "dict_get (targets (get_snapshot s r)) k = dict_get (rev (map (\<lambda>(k, e). (k, (bs_host e, bs_port e))) ?sorted)) k"
    by (simp add: targets_def dict_get_of)
  also have "\<dots> = map_option (\<lambda>e. (bs_host e, bs_port e)) (dict_get ?d k)"
  proof -
    have dist: "distinct (map fst (rev (map (\<lambda>(k, e). (k, (bs_host e, bs_port e))) ?sorted)))"
    proof -
      have "distinct (map fst ?sorted)" using wf by (simp add: wf_dict_def distinct_map)
      then show ?thesis by (simp add: rev_map [symmetric] comp_def split_def)
    qed
    show ?thesis
    proof (cases "dict_get ?d k")
      case None
      then have "dict_get (rev (map (\<lambda>(k, e). (k, (bs_host e, bs_port e))) ?sorted)) k = None"
        unfolding dict_get_None by force
      then show ?thesis using None by simp
    next
      case (Some e)
      then have "(k, (bs_host e, bs_port e)) \<in> set (rev (map (\<lambda>(k, e). (k, (bs_host e, bs_port e))) ?sorted))"
        using dict_get_mem [OF Some] by force
      from dict_get_in [OF _ this] dist Some show ?thesis by (simp add: wf_dict_def)
    qed
  qed
  finally show ?thesis .
qed

lemma sync_clients_get:
  assumes "sched_ok ar s" "wf_dict (cl r)"
  shows "dict_get (sync_clients s cl r) k =
    (case dict_get (servers_of r s) k of None \<Rightarrow> None
     | Some e \<Rightarrow> (case dict_get (cl r) k of None \<Rightarrow> Some (bs_host e, bs_port e) | Some x \<Rightarrow> Some x))"
  using sync_role_get [OF assms(2)] targets_servers [OF assms(1)]
  unfolding sync_clients_def targets_def by (auto split: option.split)

text \<open>After a worker has synchronised, it has a client for exactly the servers of each role, those it had already
  kept and the others made for the server's address.\<close>
theorem synced_clients_are_the_servers:
  assumes "reachable ar s" "wf_dict (cl r)"
  shows "(dict_get (sync_clients s cl r) k = None) = (dict_get (servers_of r s) k = None) \<and>
    (dict_get (cl r) k = None \<longrightarrow>
      dict_get (sync_clients s cl r) k = map_option (\<lambda>e. (bs_host e, bs_port e)) (dict_get (servers_of r s) k))"
  using sync_clients_get [where cl = cl and r = r, OF reachable_ok [OF assms(1)] assms(2)] by (auto split: option.split)

text \<open>A worker that asks for the client of a server right after it was picked gets one.\<close>

lemma picked_server_has_client:
  assumes "reachable ar s" "dict_get (servers_of r s) k = Some e" "wf_dict (cl r)"
  shows "\<exists>cl'. get_client s r k cl = (cl', Inr (case dict_get (cl r) k of None \<Rightarrow> (bs_host e, bs_port e) | Some hp \<Rightarrow> hp))"
  using sync_clients_get [where cl = cl and r = r, OF reachable_ok [OF assms(1)] assms(3)] assms(2)
  by (auto simp: get_client_def dict_lookup_def Let_def split: option.split)

section \<open>Adding and removing\<close>

lemma split_on_none: "c \<notin> set s \<Longrightarrow> split_on c s = [s]"
  by (induction s) auto

lemma split_on_append: "c \<notin> set a \<Longrightarrow> split_on c (a @ c # s) = a # split_on c s"
  by (induction a) auto

text \<open>An address written as \<open>host:port\<close> is read back as that host and port.\<close>
theorem address_roundtrip:
  assumes "CHR '':'' \<notin> set host" "fits32 port"
  shows "parse_server_address (host @ '':'' @ py_str_int port) = Inr (host, port)"
proof -
  have "CHR '':'' \<notin> set (py_str_int port)"
    using py_str_int_chars [of "CHR '':''" port] by (auto simp: is_digit_def)
  then show ?thesis
    using assms py_int_of_str_int [OF length_py_str_int32 [OF assms(2)]]
    by (simp add: parse_server_address_def split_on_append split_on_none)
qed

lemma add_waiting_known:
  "dict_get (servers_of r s) k \<noteq> None \<or> dict_get (sc_waiting s) k \<noteq> None \<Longrightarrow>
   dict_get (servers_of r (fst (add_waiting_all r xs s))) k \<noteq> None \<or> dict_get (sc_waiting (fst (add_waiting_all r xs s))) k \<noteq> None"
proof (induction xs arbitrary: s)
  case (Cons hp xs)
  have "dict_get (servers_of r (fst (add_waiting r hp s))) k \<noteq> None \<or> dict_get (sc_waiting (fst (add_waiting r hp s))) k \<noteq> None"
    using Cons.prems by (auto simp: add_waiting_def Let_def servers_of_def)
  from Cons.IH [OF this] show ?case by (simp add: Let_def split_def)
qed simp

lemma added_all_known:
  "(h, p) \<in> set xs \<Longrightarrow> dict_get (servers_of r (fst (add_waiting_all r xs s))) (server_key h p) \<noteq> None \<or>
     dict_get (sc_waiting (fst (add_waiting_all r xs s))) (server_key h p) \<noteq> None"
proof (induction xs arbitrary: s)
  case (Cons hp xs)
  show ?case
  proof (cases "hp = (h, p)")
    case True
    have "dict_get (servers_of r (fst (add_waiting r hp s))) (server_key h p) \<noteq> None \<or>
        dict_get (sc_waiting (fst (add_waiting r hp s))) (server_key h p) \<noteq> None"
      by (auto simp: add_waiting_def Let_def servers_of_def True)
    from add_waiting_known [OF this] show ?thesis by (simp add: Let_def split_def)
  next
    case False
    then show ?thesis using Cons by (simp add: Let_def split_def)
  qed
qed simp

lemma removed_all_gone:
  assumes "sched_ok ar s" "waiting_ok s" "(h, p) \<in> set xs" "remove_instances ar r xs s = (t, Inr False)"
  shows "dict_get (servers_of r t) (server_key h p) = None \<and> dict_get (sc_waiting t) (server_key h p) = None \<and>
    server_key h p \<notin> po_tainted (sc_pools t r)"
proof -
  let ?ks = "set (map (\<lambda>(h, p). server_key h p) xs)" and ?k = "server_key h p"
  have k: "?k \<in> ?ks" and ne: "xs \<noteq> []" using assms(3) by force+
  have wf: "wf_dict (servers_of r s)" "wf_dict (sc_waiting s)"
    using assms(1,2) by (auto simp: sched_ok_def servers_of_def waiting_ok_def dest: pool_okD)
  have n: "\<not> sc_request_num s > 0" using assms(4) ne by (auto simp: remove_instances_def Let_def op_bind_def on_pool_def)
  have drop: "dict_get (po_servers (drop_servers ?ks (sc_pools s r))) ?k = None" "?k \<notin> po_tainted (drop_servers ?ks (sc_pools s r))"
    using wf(1) k by (simp_all add: drop_servers_def dict_get_filter servers_of_def)
  have reset: "dict_get (po_servers (reset_heap ar r True q)) ?k = None" "po_tainted (reset_heap ar r True q) = po_tainted q"
    if "dict_get (po_servers q) ?k = None" for q :: "'a role_pools"
    using that by (simp_all add: reset_heap_def Let_def dict_get_map)
  have "sc_waiting t = filter (\<lambda>(k, _). k \<notin> ?ks) (sc_waiting s)"
    "sc_pools t r = drop_servers ?ks (sc_pools s r) \<or> sc_pools t r = reset_heap ar r True (drop_servers ?ks (sc_pools s r))"
    using assms(4) ne n by (auto simp: remove_instances_def Let_def op_bind_def on_pool_def split: if_splits)
  then show ?thesis using drop reset [OF drop(1)] wf(2) k by (auto simp: servers_of_def dict_get_filter)
qed

text \<open>A request to adjust the instances that is refused - an unreadable address, an unknown role - leaves the
  scheduler as it was, and nothing else is refused.\<close>
theorem refused_adjustment_changes_nothing:
  assumes "adjust_instances ar mode ty instances s = (t, x)"
  shows "(case parse_server_addresses instances of Inl e \<Rightarrow> x = Inl e \<and> t = s
     | Inr parsed \<Rightarrow> (case role_of ty of Inl e \<Rightarrow> x = Inr (Unsupported ty, None) \<and> t = s
        | Inr r \<Rightarrow> \<exists>msg. x = Inr (msg, Some (get_snapshot t)) \<and> msg \<noteq> Unsupported ty))"
proof (cases "parse_server_addresses instances")
  case (Inl e)
  then show ?thesis using assms by (simp add: adjust_instances_def op_bind_def)
next
  case (Inr parsed)
  show ?thesis
  proof (cases "role_of ty")
    case (Inl e)
    then show ?thesis using assms Inr by (simp add: adjust_instances_def op_bind_def)
  next
    case role: (Inr r)
    have "\<exists>b. snd (remove_instances ar r parsed u) = Inr b" for u
      by (auto simp: remove_instances_def Let_def op_bind_def on_pool_def)
    then obtain u b where u: "remove_instances ar r parsed s = (u, Inr b)" by (metis prod.collapse)
    obtain v nodes where v: "add_instances r parsed s = (v, Inr nodes)"
      by (cases "add_waiting_all r parsed s") (simp add: add_instances_def)
    have "\<exists>msg. x = Inr (msg, Some (get_snapshot t)) \<and> msg \<noteq> Unsupported ty"
    proof (cases mode)
      case Add
      then have "x = Inr (if nodes \<noteq> [] then Waiting nodes else Changed, Some (get_snapshot t))"
        using assms by (auto simp: adjust_instances_def Inr role v)
      then show ?thesis by auto
    next
      case Remove
      then have "x = Inr (if b then Isolated else Changed, Some (get_snapshot t))"
        using assms by (auto simp: adjust_instances_def Inr role u)
      then show ?thesis by auto
    qed
    then show ?thesis by (simp add: Inr role)
  qed
qed

text \<open>C30: after instances were added each of them is a server or waits to become one; after they were removed with no
  request in flight none is a server, waiting or isolated, and with requests in flight all are isolated.\<close>
theorem adjusted_instances:
  assumes "reachable ar s" "parse_server_addresses instances = Inr parsed" "(h, p) \<in> set parsed" "role_of ty = Inr r"
    and "adjust_instances ar mode ty instances s = (t, x)"
  shows "(case mode of
      Add \<Rightarrow> dict_get (servers_of r t) (server_key h p) \<noteq> None \<or> dict_get (sc_waiting t) (server_key h p) \<noteq> None
    | Remove \<Rightarrow> if sc_request_num s > 0 then server_key h p \<in> po_tainted (sc_pools t r)
        else dict_get (servers_of r t) (server_key h p) = None \<and> dict_get (sc_waiting t) (server_key h p) = None \<and>
          server_key h p \<notin> po_tainted (sc_pools t r))"
proof (cases mode)
  case Add
  have "t = fst (add_waiting_all r parsed s)"
    using assms(5) by (simp add: adjust_instances_def Add assms(2,4) op_bind_def add_instances_def split_def)
  then show ?thesis using added_all_known [OF assms(3)] by (simp add: Add)
next
  case Remove
  have ok: "sched_ok ar s" "waiting_ok s" using assms(1) by (auto dest: reachable_ok reachable_waiting)
  have ne: "parsed \<noteq> []" using assms(3) by auto
  show ?thesis
  proof (cases "sc_request_num s > 0")
    case True
    then have "po_tainted (sc_pools t r) = po_tainted (sc_pools s r) \<union> set (map (\<lambda>(h, p). server_key h p) parsed)"
      using assms(5) ne by (auto simp: adjust_instances_def Remove assms(2,4) op_bind_def remove_instances_def on_pool_def Let_def
        reset_heap_def taint_def)
    moreover have "server_key h p \<in> set (map (\<lambda>(h, p). server_key h p) parsed)" using assms(3) by force
    ultimately show ?thesis using True by (simp add: Remove)
  next
    case False
    then obtain u where "remove_instances ar r parsed s = (u, Inr False)"
      using ne by (simp add: remove_instances_def Let_def op_bind_def on_pool_def)
    moreover from this have "t = u" using assms(5) by (simp add: adjust_instances_def Remove assms(2,4) op_bind_def)
    ultimately show ?thesis using removed_all_gone [OF ok assms(3)] False by (simp add: Remove)
  qed
qed

end
