(* ===== verification/Proxy_Requests.thy ===== *)
theory Proxy_Requests
  imports Proxy_Properties
begin

text \<open>
  A request as the workers of \<open>tools/proxy_server.py\<close> handle it: the scheduler calls it issues, in
  order, given how each of its awaits ends.  Between two awaits other requests run, so the model
  keeps what this request asks for; the answers - a picked key, an exception, a cancellation - are
  the environment's, one \<open>reply\<close> per await.
\<close>

section \<open>Streaming with retries\<close>

text \<open>
  One attempt of \<open>stream_service_response_with_retry\<close>: whether the response opened, the chunks it
  gave and how it ended.  \<open>HttpEnd\<close> is an \<open>httpx.RequestError\<close> or \<open>HTTPStatusError\<close>.
\<close>

datatype attempt_end = Complete | HttpEnd | OtherEnd error

text \<open>\<open>sent\<close> is the local \<open>first_chunk_sent\<close>, absent (false) before it is first assigned.\<close>

fun stream_with_retry :: "bool \<Rightarrow> nat \<Rightarrow> (bool \<times> 'c list \<times> attempt_end) list \<Rightarrow> 'c list \<times> error option" where
  "stream_with_retry sent 0 attempts = ([], None)"
| "stream_with_retry sent (Suc n) [] = ([], Some CancelledError)"
| "stream_with_retry sent (Suc n) ((opened, chunks, ending) # attempts) =
     (let chunks = (if opened then chunks else []);
          sent = (if opened then chunks \<noteq> [] else sent);
          again = (if n = 0 then ([], Some (RuntimeError ''httpx'')) else stream_with_retry sent n attempts)
      in case ending of
           Complete \<Rightarrow> (chunks, None)
         | HttpEnd \<Rightarrow> (chunks @ fst again, snd again)
         | OtherEnd e \<Rightarrow>
             if e = CancelledError then (chunks, Some e)
             else if sent then (chunks, None)
             else if n = 0 then (chunks, Some e)
             else (chunks @ fst again, snd again))"

section \<open>A request and its awaits\<close>

datatype reply = Ack | Picked string | Raises error

record 'f instance_info =
  ii_prefiller_key :: string
  ii_prefiller_score :: 'f
  ii_decoder_key :: string
  ii_decoder_score :: 'f

text \<open>
  What the response stream brings: a chunk that is passed on unread (not decodable, not JSON, or
  without choices), one that is blank once stripped, or a choice with its content, whether it stopped as
  recomputed, and its usage, or one whose fields are not of these shapes, which raises when it is
  read.  The flag tells whether the raw chunk is non-empty.
\<close>

datatype chunk = Opaque bool | Blank bool | Choice string bool int | Broken error

fun nonempty_chunk :: "chunk \<Rightarrow> bool" where
  "nonempty_chunk (Opaque b) = b"
| "nonempty_chunk (Blank b) = b"
| "nonempty_chunk (Choice content recomputed usage) = True"
| "nonempty_chunk (Broken e) = True"

record 'f handler =
  hs_replies :: "reply list"
  hs_calls :: "('f call \<times> string) list"
  hs_info :: "'f instance_info option"
  hs_released :: bool
  hs_generated :: string
  hs_completion :: int
  hs_retries :: int
  hs_prompt :: string
  hs_max_tokens :: int
  hs_out :: "chunk list"

text \<open>What the request and the configuration fix; \<open>rq_scores n\<close> are the scores of the \<open>n\<close>-th assignment.\<close>

record 'f request =
  rq_zero :: 'f
  rq_scores :: "nat \<Rightarrow> 'f \<times> 'f"
  rq_max_retries :: nat
  rq_stream :: bool
  rq_prompt :: string
  rq_max_tokens :: int

text \<open>An await; the script of replies ends with the cancellation of the request.\<close>

definition await_reply :: "('f handler, reply) op" where
  "await_reply = (\<lambda>s. case hs_replies s of
     [] \<Rightarrow> (s, Inl CancelledError)
   | Raises e # rs \<Rightarrow> (s\<lparr>hs_replies := rs\<rparr>, Inl e)
   | r # rs \<Rightarrow> (s\<lparr>hs_replies := rs\<rparr>, Inr r))"

definition external :: "('f handler, unit) op" where
  "external = op_bind await_reply (\<lambda>_. op_return ())"

text \<open>
  \<open>WorkerRuntime.schedule\<close>: the call and the key it picked, if it picks one.  It awaits the lock
  and then calls; a call that raises there is not accounted, whatever it left behind in the scheduler.
\<close>

definition schedule :: "'f call \<Rightarrow> ('f handler, string) op" where
  "schedule c = op_bind await_reply (\<lambda>r.
     let key = (case r of Picked k \<Rightarrow> k | _ \<Rightarrow> []) in
     op_bind (op_modify (\<lambda>s. s\<lparr>hs_calls := hs_calls s @ [(c, key)]\<rparr>)) (\<lambda>_. op_return key))"

text \<open>\<open>except Exception as e: ...\<close>; a cancellation is not an \<open>Exception\<close>.\<close>

definition op_except :: "('s, 'a) op \<Rightarrow> (error \<Rightarrow> ('s, 'a) op) \<Rightarrow> ('s, 'a) op" where
  "op_except m h = (\<lambda>s. case m s of
     (t, Inl e) \<Rightarrow> if e = CancelledError then (t, Inl e) else h e t
   | (t, Inr x) \<Rightarrow> (t, Inr x))"

text \<open>\<open>send_request_to_service\<close> with \<open>n\<close> attempts left: whether there is a response.\<close>

fun send_request :: "nat \<Rightarrow> ('f handler, bool) op" where
  "send_request 0 = op_return False"
| "send_request (Suc n) = (\<lambda>s. case external s of
     (t, Inr _) \<Rightarrow> (t, Inr True)
   | (t, Inl e) \<Rightarrow>
       if e = RuntimeError ''httpx'' \<and> n > 0 then op_bind external (\<lambda>_. send_request n) t else (t, Inl e))"

definition abort_prefill_selection :: "'f request \<Rightarrow> string \<Rightarrow> 'f \<Rightarrow> bool \<Rightarrow> ('f handler, string) op" where
  "abort_prefill_selection rq key score initial =
     schedule (if initial then FinishRequest (Some key) score None (rq_zero rq) True
               else ReleasePrefillKV (Some key) score)"

definition assign_instances :: "'f request \<Rightarrow> nat \<Rightarrow> bool \<Rightarrow> ('f handler, 'f instance_info) op" where
  "assign_instances rq n initial =
     (let (ps, ds) = rq_scores rq n in
      op_bind (schedule (if initial then BeginRequest ps else ReservePrefillKV ps)) (\<lambda>pk.
      let abort = (\<lambda>e. op_bind (abort_prefill_selection rq pk ps initial) (\<lambda>_. op_raise e)) in
      op_bind (op_except (op_bind external (\<lambda>_. send_request (rq_max_retries rq))) abort) (\<lambda>response.
      op_bind (if response then external else op_raise AttributeError) (\<lambda>_.
      op_bind (op_except (schedule (PickDecoder ds)) (\<lambda>e. op_bind (abort e) (\<lambda>_. op_return []))) (\<lambda>dk.
      op_bind external (\<lambda>_.
      op_bind external (\<lambda>_.
      op_return \<lparr>ii_prefiller_key = pk, ii_prefiller_score = ps, ii_decoder_key = dk, ii_decoder_score = ds\<rparr>)))))))"

definition reassign_instances :: "'f request \<Rightarrow> nat \<Rightarrow> 'f instance_info \<Rightarrow> ('f handler, 'f instance_info) op" where
  "reassign_instances rq n prev =
     op_bind (schedule (ReleasePrefillKV (Some (ii_prefiller_key prev)) (ii_prefiller_score prev))) (\<lambda>_.
     op_bind (schedule (ReleaseDecoder (Some (ii_decoder_key prev)) (ii_decoder_score prev))) (\<lambda>_.
     assign_instances rq n False))"

definition finish_instance :: "bool \<Rightarrow> ('f handler, unit) op" where
  "finish_instance release = (\<lambda>s. case hs_info s of
     None \<Rightarrow> (s, Inl AttributeError)
   | Some i \<Rightarrow>
       op_bind (schedule (FinishRequest (Some (ii_prefiller_key i)) (ii_prefiller_score i)
          (Some (ii_decoder_key i)) (ii_decoder_score i) release)) (\<lambda>_. op_return ()) s)"

definition release_prefill_kv_once :: "('f handler, unit) op" where
  "release_prefill_kv_once = (\<lambda>s. case hs_info s of
     None \<Rightarrow> (s, Inl AttributeError)
   | Some i \<Rightarrow>
       if hs_released s then (s, Inr ())
       else op_bind (schedule (ReleasePrefillKV (Some (ii_prefiller_key i)) (ii_prefiller_score i))) (\<lambda>_.
            op_modify (\<lambda>s. s\<lparr>hs_released := True\<rparr>)) s)"

text \<open>\<open>yield chunk\<close>: the client takes it or the request is cancelled there.\<close>

definition yield_chunk :: "chunk \<Rightarrow> ('f handler, unit) op" where
  "yield_chunk c = op_bind external (\<lambda>_. op_modify (\<lambda>s. s\<lparr>hs_out := hs_out s @ [c]\<rparr>))"

definition read_choice :: "'f request \<Rightarrow> string \<Rightarrow> int \<Rightarrow> 'f handler \<Rightarrow> 'f handler" where
  "read_choice rq content usage s =
     s\<lparr>hs_generated := hs_generated s @ content,
       hs_completion := hs_completion s + (if rq_stream rq then 1 else usage)\<rparr>"

text \<open>The request data of the retry: everything generated so far joins the prompt.\<close>

definition prepare_retry :: "'f request \<Rightarrow> 'f handler \<Rightarrow> 'f handler" where
  "prepare_retry rq s =
     (let s = s\<lparr>hs_retries := hs_retries s + 1\<rparr>
      in s\<lparr>hs_prompt := rq_prompt rq @ hs_generated s,
           hs_max_tokens := rq_max_tokens rq - hs_completion s + hs_retries s\<rparr>)"

definition reassign :: "'f request \<Rightarrow> ('f handler, unit) op" where
  "reassign rq = (\<lambda>s. case hs_info s of
     None \<Rightarrow> (s, Inl AttributeError)
   | Some i \<Rightarrow>
       op_bind (reassign_instances rq (nat (hs_retries s)) i) (\<lambda>i'.
       op_modify (\<lambda>s. s\<lparr>hs_info := Some i', hs_released := False\<rparr>)) s)"

text \<open>The chunks of one stream; true when the request is to be retried.\<close>

fun consume :: "'f request \<Rightarrow> chunk list \<Rightarrow> ('f handler, bool) op" where
  "consume rq [] = op_return False"
| "consume rq (c # cs) =
     op_bind (if nonempty_chunk c then release_prefill_kv_once else op_return ()) (\<lambda>_.
     case c of
       Opaque b \<Rightarrow> op_bind (yield_chunk c) (\<lambda>_. consume rq cs)
     | Broken e \<Rightarrow> op_raise e
     | Blank b \<Rightarrow> consume rq cs
     | Choice content recomputed usage \<Rightarrow>
         op_bind (op_modify (read_choice rq content usage)) (\<lambda>_.
         if recomputed then
           op_bind (op_modify (prepare_retry rq)) (\<lambda>_.
           op_bind (reassign rq) (\<lambda>_. op_return True))
         else
           op_bind (op_get (\<lambda>s. if hs_retries s > 0 \<and> \<not> rq_stream rq then Choice (hs_generated s) False usage else c)) (\<lambda>c'.
           op_bind (yield_chunk c') (\<lambda>_. consume rq cs))))"

fun generate_loop :: "'f request \<Rightarrow> (chunk list \<times> error option) list \<Rightarrow> ('f handler, unit) op" where
  "generate_loop rq [] = op_raise CancelledError"
| "generate_loop rq ((chunks, ending) # streams) =
     op_bind external (\<lambda>_.
     op_bind (consume rq chunks) (\<lambda>retry.
     if retry then generate_loop rq streams
     else case ending of None \<Rightarrow> op_return () | Some e \<Rightarrow> op_raise e))"

text \<open>\<open>try ... except Exception: log ... finally: finish\<close>.\<close>

definition generate_stream :: "'f request \<Rightarrow> (chunk list \<times> error option) list \<Rightarrow> ('f handler, unit) op" where
  "generate_stream rq streams = (\<lambda>s.
     case op_except (generate_loop rq streams) (\<lambda>_. op_return ()) s of
       (t, x) \<Rightarrow>
         (case finish_instance (\<not> hs_released t) t of
            (u, Inl e) \<Rightarrow> (u, Inl e)
          | (u, Inr _) \<Rightarrow> (u\<lparr>hs_released := True\<rparr>, x)))"

text \<open>\<open>handle_completions_impl\<close>; what follows the assignment inside its \<open>try\<close> may raise too.\<close>

definition handle_completions :: "'f request \<Rightarrow> (chunk list \<times> error option) list \<Rightarrow> ('f handler, unit) op" where
  "handle_completions rq streams =
     op_bind external (\<lambda>_.
     op_bind external (\<lambda>_.
     op_bind (assign_instances rq 0 True) (\<lambda>i.
     op_bind (op_modify (\<lambda>s. s\<lparr>hs_info := Some i\<rparr>)) (\<lambda>_.
     op_bind (op_except external (\<lambda>e. op_bind (finish_instance True) (\<lambda>_. op_raise e))) (\<lambda>_.
     generate_stream rq streams)))))"

definition new_handler :: "'f request \<Rightarrow> reply list \<Rightarrow> 'f handler" where
  "new_handler rq replies =
     \<lparr>hs_replies = replies, hs_calls = [], hs_info = None, hs_released = False, hs_generated = [], hs_completion = 0,
      hs_retries = 0, hs_prompt = rq_prompt rq, hs_max_tokens = rq_max_tokens rq, hs_out = []\<rparr>"

section \<open>Accounts\<close>

text \<open>How a call changes the load \<open>l\<close> held on server \<open>k\<close> of a role, and the number of active requests.\<close>

fun reserves :: "server_role \<Rightarrow> string \<Rightarrow> 'f \<Rightarrow> 'f call \<times> string \<Rightarrow> int" where
  "reserves r k l (BeginRequest x, key) = (if r = PREFILL \<and> key = k \<and> x = l then 1 else 0)"
| "reserves r k l (ReservePrefillKV x, key) = (if r = PREFILL \<and> key = k \<and> x = l then 1 else 0)"
| "reserves r k l (PickDecoder x, key) = (if r = DECODE \<and> key = k \<and> x = l then 1 else 0)"
| "reserves r k l (ReleasePrefillKV j x, key) = (if r = PREFILL \<and> j = Some k \<and> x = l then -1 else 0)"
| "reserves r k l (ReleaseDecoder j x, key) = (if r = DECODE \<and> j = Some k \<and> x = l then -1 else 0)"
| "reserves r k l (FinishRequest pk pl dk dl rel, key) =
     (if r = PREFILL \<and> rel \<and> pk = Some k \<and> pl = l then -1 else 0) +
     (if r = DECODE \<and> dk = Some k \<and> dl = l then -1 else 0)"
| "reserves r k l (c, key) = 0"

fun counts :: "'f call \<times> string \<Rightarrow> int" where
  "counts (BeginRequest x, key) = 1"
| "counts (FinishRequest pk pl dk dl rel, key) = -1"
| "counts (c, key) = 0"

definition held :: "server_role \<Rightarrow> string \<Rightarrow> 'f \<Rightarrow> ('f call \<times> string) list \<Rightarrow> int" where
  "held r k l log = sum_list (map (reserves r k l) log)"

definition active :: "('f call \<times> string) list \<Rightarrow> int" where
  "active log = sum_list (map counts log)"

lemma held_simps [simp]:
  "held r k l [] = 0" "held r k l (c # log) = reserves r k l c + held r k l log" "held r k l (xs @ ys) = held r k l xs + held r k l ys"
  by (simp_all add: held_def)

lemma active_simps [simp]:
  "active [] = 0" "active (c # log) = counts c + active log" "active (xs @ ys) = active xs + active ys"
  by (simp_all add: active_def)

end
