(* ===== verification/Proxy_Accounts.thy ===== *)
theory Proxy_Accounts
  imports Proxy_Requests
begin

text \<open>
  What a request of the proxy takes from the scheduler and what it gives back: the account of every
  request that is not recomputed balances, and how the paths that do not balance come about.
\<close>

section \<open>Operations of a request\<close>

lemma await_reply_fields:
  assumes "await_reply s = (t, x)"
  obtains rs where "t = s\<lparr>hs_replies := rs\<rparr>"
proof (cases "hs_replies s")
  case Nil
  have "s = s\<lparr>hs_replies := []\<rparr>" using Nil by (cases s) simp
  then have "t = s\<lparr>hs_replies := []\<rparr>" using assms Nil by (simp add: await_reply_def)
  then show ?thesis by (rule that)
next
  case (Cons r rs)
  then show ?thesis using assms that by (cases r) (auto simp: await_reply_def)
qed

lemma external_fields:
  assumes "external s = (t, x)"
  obtains rs where "t = s\<lparr>hs_replies := rs\<rparr>"
proof -
  obtain u y where u: "await_reply s = (u, y)" by fastforce
  then have "t = u" using assms by (cases y) (simp_all add: external_def op_bind_def)
  then show ?thesis using await_reply_fields [OF u] that by blast
qed

lemma keeps_external:
  assumes "\<And>s rs. P s \<Longrightarrow> P (s\<lparr>hs_replies := rs\<rparr>)"
  shows "keeps P external"
  unfolding keeps_def
proof (intro allI impI)
  fix s :: "'a handler"
  assume s: "P s"
  obtain t x where tx: "external s = (t, x)" by fastforce
  then obtain rs where "t = s\<lparr>hs_replies := rs\<rparr>" by (rule external_fields)
  then show "P (fst (external s))" using assms [OF s] by (simp add: tx)
qed

lemma reply_simps:
  "external (s\<lparr>hs_replies := Ack # rs\<rparr>) = (s\<lparr>hs_replies := rs\<rparr>, Inr ())"
  "external (s\<lparr>hs_replies := Raises e # rs\<rparr>) = (s\<lparr>hs_replies := rs\<rparr>, Inl e)"
  "schedule c (s\<lparr>hs_replies := Picked k # rs\<rparr>) = (s\<lparr>hs_replies := rs, hs_calls := hs_calls s @ [(c, k)]\<rparr>, Inr k)"
  by (simp_all add: external_def schedule_def await_reply_def op_bind_def)

text \<open>A scheduler call that comes back has been logged; one that raises has not.\<close>

lemma schedule_cases:
  assumes "schedule c s = (t, x)"
  obtains (raised) e rs where "x = Inl e" "t = s\<lparr>hs_replies := rs\<rparr>"
  | (issued) key rs where "x = Inr key" "t = s\<lparr>hs_replies := rs, hs_calls := hs_calls s @ [(c, key)]\<rparr>"
proof -
  obtain u y where u: "await_reply s = (u, y)" by fastforce
  then obtain rs where f: "u = s\<lparr>hs_replies := rs\<rparr>" by (rule await_reply_fields)
  show ?thesis
  proof (cases y)
    case (Inl e)
    then have "x = Inl e" "t = u" using assms by (simp_all add: schedule_def op_bind_def u)
    then show ?thesis using raised f by blast
  next
    case (Inr r)
    then have "x = Inr (case r of Picked k \<Rightarrow> k | _ \<Rightarrow> [])"
      "t = s\<lparr>hs_replies := rs, hs_calls := hs_calls s @ [(c, case r of Picked k \<Rightarrow> k | _ \<Rightarrow> [])]\<rparr>"
      using assms f by (simp_all add: schedule_def op_bind_def u Let_def)
    then show ?thesis using issued by blast
  qed
qed

lemma keeps_schedule:
  assumes "\<And>s rs. P s \<Longrightarrow> P (s\<lparr>hs_replies := rs\<rparr>)"
    and "\<And>s rs key. P s \<Longrightarrow> P (s\<lparr>hs_replies := rs, hs_calls := hs_calls s @ [(c, key)]\<rparr>)"
  shows "keeps P (schedule c)"
  unfolding keeps_def
proof (intro allI impI)
  fix s :: "'a handler"
  assume s: "P s"
  obtain t x where tx: "schedule c s = (t, x)" by fastforce
  then show "P (fst (schedule c s))"
  proof (cases rule: schedule_cases)
    case (raised e rs)
    then show ?thesis using assms(1) [OF s] tx by (metis fst_conv)
  next
    case (issued key rs)
    then show ?thesis using assms(2) [OF s] tx by (metis fst_conv)
  qed
qed

lemma keeps_except:
  assumes "keeps P m" "\<And>e. keeps P (h e)"
  shows "keeps P (op_except m h)"
  using assms by (fastforce simp: keeps_def op_except_def split: prod.split sum.split)

section \<open>Streaming\<close>

text \<open>Without a recomputation the stream phase only ever releases the prefiller of the instance, once.\<close>

definition streaming :: "'f instance_info \<Rightarrow> ('f call \<times> string) list \<Rightarrow> 'f handler \<Rightarrow> bool" where
  "streaming i taken s \<longleftrightarrow> hs_info s = Some i \<and>
     (if hs_released s then \<exists>key. hs_calls s = taken @ [(ReleasePrefillKV (Some (ii_prefiller_key i)) (ii_prefiller_score i), key)]
      else hs_calls s = taken)"

fun recomputed :: "chunk \<Rightarrow> bool" where
  "recomputed (Choice content again usage) = again"
| "recomputed c = False"

lemma streaming_replies [simp]:
  "streaming i taken (s\<lparr>hs_replies := rs\<rparr>) = streaming i taken s" "streaming i taken (s\<lparr>hs_out := out\<rparr>) = streaming i taken s"
  by (simp_all add: streaming_def)

lemma streaming_external: "keeps (streaming i taken) external"
  by (rule keeps_external) simp

lemma streaming_release: "keeps (streaming i taken) release_prefill_kv_once"
  unfolding keeps_def
proof (intro allI impI)
  fix s :: "'a handler"
  assume s: "streaming i taken s"
  then have i: "hs_info s = Some i" by (simp add: streaming_def)
  obtain t x where tx: "schedule (ReleasePrefillKV (Some (ii_prefiller_key i)) (ii_prefiller_score i)) s = (t, x)" by fastforce
  then show "streaming i taken (fst (release_prefill_kv_once s))"
  proof (cases rule: schedule_cases)
    case (raised e rs)
    have "streaming i taken t" by (subst raised(2)) (simp add: s)
    then show ?thesis using s by (simp add: release_prefill_kv_once_def i tx op_bind_def raised(1))
  next
    case (issued key rs)
    have calls: "hs_calls t = hs_calls s @ [(ReleasePrefillKV (Some (ii_prefiller_key i)) (ii_prefiller_score i), key)]"
      and info: "hs_info t = Some i" by (subst issued(2), simp add: i)+
    show ?thesis
    proof (cases "hs_released s")
      case False
      then show ?thesis using s calls info
        by (simp add: release_prefill_kv_once_def i tx op_bind_def issued(1) streaming_def)
    qed (use s in \<open>simp add: release_prefill_kv_once_def i\<close>)
  qed
qed

lemma streaming_read: "streaming i taken s \<Longrightarrow> streaming i taken (read_choice rq content usage s)"
  by (simp add: streaming_def read_choice_def)

lemma streaming_yield: "keeps (streaming i taken) (yield_chunk c)"
  unfolding yield_chunk_def by (intro keeps_intros streaming_external) simp

lemma streaming_consume:
  assumes "list_all (\<lambda>c. \<not> recomputed c) cs"
  shows "keeps (streaming i taken) (consume rq cs)"
  using assms
proof (induction cs)
  case (Cons c cs)
  then have IH: "keeps (streaming i taken) (consume rq cs)" and c: "\<not> recomputed c" by simp_all
  show ?case
  proof (cases c)
    case (Choice content again usage)
    then have again: "\<not> again" using c by simp
    show ?thesis
      unfolding Choice consume.simps chunk.case if_not_P [OF again]
      by (intro keeps_intros streaming_release streaming_yield streaming_read IH)
  next
    case (Broken e)
    show ?thesis unfolding Broken consume.simps chunk.case by (intro keeps_intros streaming_release)
  qed (auto simp del: nonempty_chunk.simps intro!: keeps_intros streaming_release streaming_yield IH)
qed (simp add: keeps_intros)

lemma consume_no_retry:
  assumes "list_all (\<lambda>c. \<not> recomputed c) cs" "consume rq cs s = (t, Inr retry)"
  shows "\<not> retry"
  using assms
proof (induction cs arbitrary: s)
  case (Cons c cs)
  then show ?case by (cases c) (auto simp: op_bind_Inr)
qed simp

lemma streaming_generate:
  assumes "list_all (\<lambda>(cs, e). list_all (\<lambda>c. \<not> recomputed c) cs) streams"
  shows "keeps (streaming i taken) (generate_loop rq streams)"
  using assms
proof (induction streams)
  case (Cons st streams)
  then show ?case
    by (cases st)
      (auto split: option.split intro!: keeps_intros streaming_external streaming_consume)
qed (simp add: keeps_intros)

section \<open>Assigning the instances of a new request\<close>

text \<open>The calls an initial assignment leaves behind, for each way it can end.\<close>

inductive assigned :: "'f request \<Rightarrow> ('f call \<times> string) list \<Rightarrow> 'f instance_info result \<Rightarrow> bool" for rq where
  nothing: "assigned rq [] (Inl e)"
| prefill: "fst (rq_scores rq 0) = ps \<Longrightarrow> assigned rq [(BeginRequest ps, pk)] (Inl e)"
| aborted: "fst (rq_scores rq 0) = ps \<Longrightarrow>
    assigned rq [(BeginRequest ps, pk), (FinishRequest (Some pk) ps None (rq_zero rq) True, k)] (Inl e)"
| lost: "rq_scores rq 0 = (ps, ds) \<Longrightarrow> assigned rq [(BeginRequest ps, pk), (PickDecoder ds, dk)] (Inl e)"
| both: "rq_scores rq 0 = (ps, ds) \<Longrightarrow> assigned rq [(BeginRequest ps, pk), (PickDecoder ds, dk)]
    (Inr \<lparr>ii_prefiller_key = pk, ii_prefiller_score = ps, ii_decoder_key = dk, ii_decoder_score = ds\<rparr>)"

text \<open>\<open>logs L m Q\<close>: started with the log \<open>L\<close>, whatever the answers, \<open>Q\<close> holds of the outcome and the log left.\<close>

definition logs :: "('f call \<times> string) list \<Rightarrow> ('f handler, 'a) op \<Rightarrow> ('a result \<Rightarrow> ('f call \<times> string) list \<Rightarrow> bool) \<Rightarrow> bool" where
  "logs L m Q \<longleftrightarrow> (\<forall>s. hs_calls s = L \<longrightarrow> Q (snd (m s)) (hs_calls (fst (m s))))"

lemma logsD: "logs L m Q \<Longrightarrow> m s = (t, x) \<Longrightarrow> hs_calls s = L \<Longrightarrow> Q x (hs_calls t)"
  by (force simp: logs_def)

named_theorems logs_intros \<open>what an operation leaves in the log\<close>

lemma logs_bind [logs_intros]:
  assumes "logs L m (\<lambda>x M. case x of Inl e \<Rightarrow> Q (Inl e) M | Inr y \<Rightarrow> logs M (f y) Q)"
  shows "logs L (op_bind m f) Q"
  using assms by (fastforce simp: logs_def op_bind_def split: prod.splits sum.splits)

lemma logs_except [logs_intros]:
  assumes "logs L m (\<lambda>x M. case x of Inl e \<Rightarrow> if e = CancelledError then Q (Inl e) M else logs M (h e) Q | Inr y \<Rightarrow> Q (Inr y) M)"
  shows "logs L (op_except m h) Q"
  using assms by (fastforce simp: logs_def op_except_def split: prod.splits sum.splits)

lemma logs_return [logs_intros]: "Q (Inr x) L \<Longrightarrow> logs L (op_return x) Q"
  by (simp add: logs_def)

lemma logs_raise [logs_intros]: "Q (Inl e) L \<Longrightarrow> logs L (op_raise e) Q"
  by (simp add: logs_def)

lemma logs_external [logs_intros]:
  assumes "\<And>e. Q (Inl e) L" "Q (Inr ()) L"
  shows "logs L external Q"
  unfolding logs_def
proof (intro allI impI)
  fix s :: "'a handler"
  assume s: "hs_calls s = L"
  obtain t x where tx: "external s = (t, x)" by fastforce
  then obtain rs where "t = s\<lparr>hs_replies := rs\<rparr>" by (rule external_fields)
  then show "Q (snd (external s)) (hs_calls (fst (external s)))" using assms s tx by (cases x) simp_all
qed

lemma logs_schedule [logs_intros]:
  assumes "\<And>e. Q (Inl e) L" "\<And>key. Q (Inr key) (L @ [(c, key)])"
  shows "logs L (schedule c) Q"
  unfolding logs_def
proof (intro allI impI)
  fix s :: "'a handler"
  assume s: "hs_calls s = L"
  obtain t x where tx: "schedule c s = (t, x)" by fastforce
  then show "Q (snd (schedule c s)) (hs_calls (fst (schedule c s)))"
    using assms s by (cases rule: schedule_cases) (simp_all add: tx)
qed

lemma logs_send [logs_intros]:
  assumes "\<And>e. Q (Inl e) L" "\<And>b. Q (Inr b) L"
  shows "logs L (send_request n) Q"
proof (induction n)
  case (Suc n)
  have again: "logs L (op_bind external (\<lambda>_. send_request n)) Q"
    by (intro logs_bind logs_external) (simp_all add: assms Suc.IH)
  have "Q (snd (send_request (Suc n) s)) (hs_calls (fst (send_request (Suc n) s)))" if s: "hs_calls s = L" for s
  proof -
    obtain t x where tx: "external s = (t, x)" by fastforce
    then obtain rs where "t = s\<lparr>hs_replies := rs\<rparr>" by (rule external_fields)
    then have t: "hs_calls t = L" using s by simp
    show ?thesis using t again assms by (cases x) (auto simp: tx logs_def)
  qed
  then show ?case by (simp add: logs_def)
qed (simp add: logs_def assms)

lemma assign_logs: "logs [] (assign_instances rq 0 True) (\<lambda>x M. assigned rq M x)"
proof -
  obtain ps ds where sc: "rq_scores rq 0 = (ps, ds)" by fastforce
  show ?thesis
    unfolding assign_instances_def sc Let_def prod.case if_P [OF refl] abort_prefill_selection_def
    by (auto intro!: logs_intros simp: assigned.intros sc)
qed

section \<open>The account of a request\<close>

lemma schedule_calls:
  assumes "schedule c s = (t, x)"
  shows "(\<exists>e. x = Inl e \<and> hs_calls t = hs_calls s) \<or> (\<exists>key. x = Inr key \<and> hs_calls t = hs_calls s @ [(c, key)])"
  using assms by (cases rule: schedule_cases) simp_all

text \<open>Until the stream starts nothing is marked as released.\<close>

lemma unreleased_send: "keeps (\<lambda>s. \<not> hs_released s) (send_request n)"
proof (induction n)
  case (Suc n)
  have ext: "keeps (\<lambda>s::'a handler. \<not> hs_released s) external" by (rule keeps_external) simp
  have again: "keeps (\<lambda>s::'a handler. \<not> hs_released s) (op_bind external (\<lambda>_. send_request n))"
    by (intro keeps_intros ext Suc.IH)
  have "\<not> hs_released (fst (send_request (Suc n) s))" if s: "\<not> hs_released s" for s :: "'a handler"
  proof -
    obtain t x where tx: "external s = (t, x)" by fastforce
    have t: "\<not> hs_released t" using keepsD [OF ext s] by (simp add: tx)
    show ?thesis using t keepsD [OF again t] by (cases x) (simp_all add: tx)
  qed
  then show ?case by (simp add: keeps_def)
qed (simp add: keeps_def)

lemma unreleased_assign: "keeps (\<lambda>s. \<not> hs_released s) (assign_instances rq n initial)"
proof -
  have "keeps (\<lambda>s::'a handler. \<not> hs_released s) external" by (rule keeps_external) simp
  moreover have "keeps (\<lambda>s::'a handler. \<not> hs_released s) (schedule c)" for c by (rule keeps_schedule) simp_all
  ultimately show ?thesis
    unfolding assign_instances_def Let_def abort_prefill_selection_def
    by (intro keeps_intros keeps_except unreleased_send)
qed

lemma finish_logs:
  assumes "finish_instance rel s = (t, x)" "hs_info s = Some i"
  shows "(\<exists>e. x = Inl e \<and> hs_calls t = hs_calls s) \<or>
    (\<exists>key. x = Inr () \<and> hs_calls t = hs_calls s @ [(FinishRequest (Some (ii_prefiller_key i)) (ii_prefiller_score i)
       (Some (ii_decoder_key i)) (ii_decoder_score i) rel, key)])"
proof -
  let ?c = "FinishRequest (Some (ii_prefiller_key i)) (ii_prefiller_score i) (Some (ii_decoder_key i)) (ii_decoder_score i) rel"
  obtain u y where u: "schedule ?c s = (u, y)" by fastforce
  from schedule_calls [OF u] show ?thesis
    using assms by (cases y) (auto simp: finish_instance_def op_bind_def u)
qed

text \<open>Begun, both instances picked, and both given back by what follows.\<close>

definition settled :: "'f instance_info \<Rightarrow> ('f call \<times> string) list \<Rightarrow> bool" where
  "settled i log \<longleftrightarrow> active log = -1 \<and>
     (\<forall>r k l. held r k l log =
        (case r of PREFILL \<Rightarrow> if k = ii_prefiller_key i \<and> l = ii_prefiller_score i then -1 else 0
         | DECODE \<Rightarrow> if k = ii_decoder_key i \<and> l = ii_decoder_score i then -1 else 0))"

lemma stream_accounts:
  assumes "list_all (\<lambda>(cs, e). list_all (\<lambda>c. \<not> recomputed c) cs) streams"
    and "generate_stream rq streams s = (t, x)" "hs_info s = Some i" "\<not> hs_released s"
  shows "\<exists>log. hs_calls t = hs_calls s @ log \<and> (settled i log \<or> (active log = 0 \<and> (\<exists>e. x = Inl e)))"
proof -
  let ?body = "op_except (generate_loop rq streams) (\<lambda>_. op_return ())"
  obtain u y where u: "?body s = (u, y)" by fastforce
  have "keeps (streaming i (hs_calls s)) ?body"
    by (intro keeps_except streaming_generate assms(1) keeps_intros)
  moreover have "streaming i (hs_calls s) s" using assms by (simp add: streaming_def)
  ultimately have str: "streaming i (hs_calls s) u" using u by (fastforce dest: keepsD)
  obtain v z where v: "finish_instance (\<not> hs_released u) u = (v, z)" by fastforce
  have info: "hs_info u = Some i" using str by (simp add: streaming_def)
  have out: "hs_calls t = hs_calls v" "(case z of Inl e \<Rightarrow> x = Inl e | Inr _ \<Rightarrow> x = y)"
    using assms(2) by (auto simp: generate_stream_def u v split: sum.splits)
  show ?thesis
    using finish_logs [OF v info] str out
    by (auto simp: streaming_def settled_def split: if_splits server_role.split)
qed

text \<open>What a request may leave behind: everything settled, or - raising - a begun request that is never finished.\<close>

definition accounted :: "('f call \<times> string) list \<Rightarrow> 'a result \<Rightarrow> bool" where
  "accounted log x \<longleftrightarrow> (active log = 0 \<and> (\<forall>r k l. held r k l log = 0)) \<or> (active log = 1 \<and> (\<exists>e. x = Inl e))"

lemma assigned_accounted: "assigned rq log (Inl e) \<Longrightarrow> accounted log (Inl e :: 'a result)"
  by (auto simp: accounted_def elim!: assigned.cases)

lemma assigned_settled:
  assumes "assigned rq log (Inr i)" "settled i log' \<or> (active log' = 0 \<and> (\<exists>e. x = Inl e))"
  shows "accounted (log @ log') x"
  using assms by (fastforce simp: accounted_def settled_def split: server_role.splits elim!: assigned.cases)

lemma handle_accounted:
  assumes "list_all (\<lambda>(cs, e). list_all (\<lambda>c. \<not> recomputed c) cs) streams"
    and "handle_completions rq streams (new_handler rq replies) = (t, x)"
  shows "accounted (hs_calls t) x"
proof -
  let ?s = "new_handler rq replies"
  let ?take = "op_bind external (\<lambda>_. op_bind external (\<lambda>_. assign_instances rq 0 True))"
  let ?rest = "\<lambda>i. op_bind (op_modify (\<lambda>s. s\<lparr>hs_info := Some i\<rparr>)) (\<lambda>_.
     op_bind (op_except external (\<lambda>e. op_bind (finish_instance True) (\<lambda>_. op_raise e))) (\<lambda>_. generate_stream rq streams))"
  have split: "handle_completions rq streams = op_bind ?take ?rest"
    by (rule ext) (simp add: handle_completions_def op_bind_def split_def split: sum.split)
  have logs: "logs [] ?take (\<lambda>x M. assigned rq M x)"
    by (auto intro!: logs_bind logs_external assign_logs assigned.intros)
  obtain u y where u: "?take ?s = (u, y)" by fastforce
  have asg: "assigned rq (hs_calls u) y" using logsD [OF logs u] by (simp add: new_handler_def)
  have "keeps (\<lambda>s. \<not> hs_released s) ?take"
    by (intro keeps_intros unreleased_assign; rule keeps_external; simp)
  from keepsD [OF this, of ?s] u have rel: "\<not> hs_released u" by (simp add: new_handler_def)
  show ?thesis
  proof (cases y)
    case (Inl e)
    then show ?thesis using assms(2) asg by (auto simp: split op_bind_run(2) [where m = ?take, OF u [unfolded Inl]] intro: assigned_accounted)
  next
    case (Inr i)
    let ?u = "u\<lparr>hs_info := Some i\<rparr>"
    obtain v z where v: "external ?u = (v, z)" by fastforce
    then obtain rs where v': "v = ?u\<lparr>hs_replies := rs\<rparr>" by (rule external_fields)
    have at: "hs_calls v = hs_calls u" "hs_info v = Some i" "\<not> hs_released v" using rel by (simp_all add: v')
    have run: "handle_completions rq streams ?s = ?rest i u" unfolding split by (rule op_bind_run(1) [where m = ?take, OF u [unfolded Inr]])
    have "\<exists>log. hs_calls t = hs_calls u @ log \<and> (settled i log \<or> (active log = 0 \<and> (\<exists>e. x = Inl e)))"
    proof (cases z)
      case (Inr w)
      then have "generate_stream rq streams v = (t, x)" using assms(2) run v by (simp add: op_except_def)
      from stream_accounts [OF assms(1) this at(2,3)] show ?thesis by (simp add: at)
    next
      case (Inl e)
      note e = Inl
      have run: "op_bind (op_except external (\<lambda>e. op_bind (finish_instance True) (\<lambda>_. op_raise e))) (\<lambda>_. generate_stream rq streams) ?u = (t, x)"
        using assms(2) run by simp
      show ?thesis
      proof (cases "e = CancelledError")
        case True
        then show ?thesis using run at by (auto simp: op_except_def v e op_bind_def)
      next
        case False
        obtain w y' where w: "finish_instance True v = (w, y')" by fastforce
        have "t = w" "\<exists>e. x = Inl e" using run False w by (auto simp: op_except_def v e op_bind_def split: sum.splits)
        then show ?thesis using finish_logs [OF w at(2)] at(1) by (auto simp: settled_def split: server_role.split)
      qed
    qed
    then show ?thesis using assigned_settled asg Inr by metis
  qed
qed

section \<open>Recomputed requests\<close>

lemma reassign_logs:
  "logs L (reassign_instances rq n i) (\<lambda>x M. case x of Inl e \<Rightarrow> True
     | Inr i' \<Rightarrow> \<exists>a b. M = L @
         [(ReleasePrefillKV (Some (ii_prefiller_key i)) (ii_prefiller_score i), a),
          (ReleaseDecoder (Some (ii_decoder_key i)) (ii_decoder_score i), b),
          (ReservePrefillKV (ii_prefiller_score i'), ii_prefiller_key i'), (PickDecoder (ii_decoder_score i'), ii_decoder_key i')])"
proof -
  obtain ps ds where sc: "rq_scores rq n = (ps, ds)" by fastforce
  show ?thesis
    unfolding reassign_instances_def assign_instances_def sc Let_def prod.case if_False abort_prefill_selection_def
    by (auto intro!: logs_intros)
qed

lemma release_once_done:
  assumes "release_prefill_kv_once s = (u, Inr ())" "streaming i taken s"
  shows "streaming i taken u" "hs_released u"
proof -
  show "streaming i taken u" using keepsD [OF streaming_release assms(2)] assms(1) by simp
  show "hs_released u" using assms by (auto simp: release_prefill_kv_once_def op_bind_Inr streaming_def split: if_splits)
qed

lemma recompute_logs:
  assumes "consume rq cs s = (t, Inr True)" "streaming i taken s"
  shows "\<exists>i' a b c. hs_info t = Some i' \<and> \<not> hs_released t \<and> hs_calls t = taken @
    [(ReleasePrefillKV (Some (ii_prefiller_key i)) (ii_prefiller_score i), a),
     (ReleasePrefillKV (Some (ii_prefiller_key i)) (ii_prefiller_score i), b),
     (ReleaseDecoder (Some (ii_decoder_key i)) (ii_decoder_score i), c),
     (ReservePrefillKV (ii_prefiller_score i'), ii_prefiller_key i'), (PickDecoder (ii_decoder_score i'), ii_decoder_key i')]"
  using assms
proof (induction cs arbitrary: s)
  case (Cons c cs)
  have first: "(if nonempty_chunk c then release_prefill_kv_once else op_return ()) s = (u, Inr ()) \<Longrightarrow> streaming i taken u" for u
    using Cons.prems(2) release_once_done(1) by (auto split: if_splits)
  have yielded: "yield_chunk c' u = (v, Inr ()) \<Longrightarrow> streaming i taken u \<Longrightarrow> streaming i taken v" for c' u v
    by (metis keepsD streaming_yield fst_conv)
  show ?case
  proof (cases c)
    case (Choice content again usage)
    then obtain u where u: "release_prefill_kv_once s = (u, Inr ())"
      using Cons.prems(1) by (auto simp: op_bind_Inr)
    note str = release_once_done [OF u Cons.prems(2)]
    let ?r = "read_choice rq content usage u"
    have r: "streaming i taken ?r" "hs_released ?r" using str by (simp_all add: streaming_read) (simp add: read_choice_def)
    show ?thesis
    proof (cases again)
      case True
      let ?p = "prepare_retry rq ?r"
      have p: "streaming i taken ?p" "hs_released ?p" using r by (simp_all add: prepare_retry_def Let_def streaming_def)
      have "reassign rq ?p = (t, Inr ())"
        using Cons.prems(1) u by (auto simp: Choice True op_bind_Inr)
      then obtain v i' where v: "reassign_instances rq (nat (hs_retries ?p)) i ?p = (v, Inr i')"
        and t: "t = v\<lparr>hs_info := Some i', hs_released := False\<rparr>"
        using p(1) by (auto simp: reassign_def op_bind_Inr streaming_def)
      show ?thesis using logsD [OF reassign_logs v refl] p
        by (auto simp: t streaming_def) 
    next
      case False
      then obtain c' v where "yield_chunk c' ?r = (v, Inr ())" "consume rq cs v = (t, Inr True)"
        using Cons.prems(1) u by (auto simp: Choice op_bind_Inr)
      then show ?thesis using Cons.IH yielded r by blast
    qed
  next
    case (Opaque b)
    then show ?thesis using Cons.prems(1) Cons.IH first yielded by (fastforce simp: op_bind_Inr)
  next
    case (Blank b)
    then show ?thesis using Cons.prems(1) Cons.IH first by (fastforce simp: op_bind_Inr)
  next
    case (Broken e)
    then show ?thesis using Cons.prems(1) by (auto simp: op_bind_Inr)
  qed
qed simp

section \<open>Properties\<close>

text \<open>C19: a request whose stream is never recomputed gives back what it took: one that returns has finished, and
  whenever it has finished - whatever failed, was retried or cancelled on the way - no load of any server is
  left reserved or released twice.  It begins and finishes at most once.\<close>
theorem request_accounts_balance:
  assumes "list_all (\<lambda>(cs, e). list_all (\<lambda>c. \<not> recomputed c) cs) streams"
    and "handle_completions rq streams (new_handler rq replies) = (t, x)"
  shows "active (hs_calls t) \<in> {0, 1} \<and> (x = Inr () \<longrightarrow> active (hs_calls t) = 0) \<and>
    (active (hs_calls t) = 0 \<longrightarrow> held r k l (hs_calls t) = 0)"
  using handle_accounted [OF assms] by (auto simp: accounted_def)

text \<open>C36: when a stream stops as recomputed and the request is reassigned, the load on its prefiller has been
  released twice - by the chunk that stopped it and again by the reassignment - and the load on its
  decoder once; the new instances are reserved once each.\<close>
theorem recompute_releases_prefill_twice:
  assumes "consume rq cs s = (t, Inr True)" "hs_info s = Some i" "\<not> hs_released s"
  shows "\<exists>i'. hs_info t = Some i' \<and> \<not> hs_released t \<and>
    held PREFILL k l (hs_calls t) = held PREFILL k l (hs_calls s)
      - (if k = ii_prefiller_key i \<and> l = ii_prefiller_score i then 2 else 0)
      + (if k = ii_prefiller_key i' \<and> l = ii_prefiller_score i' then 1 else 0) \<and>
    held DECODE k l (hs_calls t) = held DECODE k l (hs_calls s)
      - (if k = ii_decoder_key i \<and> l = ii_decoder_score i then 1 else 0)
      + (if k = ii_decoder_key i' \<and> l = ii_decoder_score i' then 1 else 0)"
proof -
  have "streaming i (hs_calls s) s" using assms by (simp add: streaming_def)
  from recompute_logs [OF assms(1) this] obtain i' a b c where t: "hs_info t = Some i'" "\<not> hs_released t"
    "hs_calls t = hs_calls s @
      [(ReleasePrefillKV (Some (ii_prefiller_key i)) (ii_prefiller_score i), a),
       (ReleasePrefillKV (Some (ii_prefiller_key i)) (ii_prefiller_score i), b),
       (ReleaseDecoder (Some (ii_decoder_key i)) (ii_decoder_score i), c),
       (ReservePrefillKV (ii_prefiller_score i'), ii_prefiller_key i'), (PickDecoder (ii_decoder_score i'), ii_decoder_key i')]"
    by blast
  have "held PREFILL k l (hs_calls t) = held PREFILL k l (hs_calls s)
      - (if k = ii_prefiller_key i \<and> l = ii_prefiller_score i then 2 else 0)
      + (if k = ii_prefiller_key i' \<and> l = ii_prefiller_score i' then 1 else 0)"
    unfolding t(3) by simp
  moreover have "held DECODE k l (hs_calls t) = held DECODE k l (hs_calls s)
      - (if k = ii_decoder_key i \<and> l = ii_decoder_score i then 1 else 0)
      + (if k = ii_decoder_key i' \<and> l = ii_decoder_score i' then 1 else 0)"
    unfolding t(3) by simp
  ultimately show ?thesis using t(1,2) by blast
qed

text \<open>C37: a request cancelled while it waits for the answer of its prefiller never finishes: it has begun, its
  prefiller keeps the load, and no server can be drained any more.\<close>
theorem cancelled_prefill_is_never_finished:
  assumes "rq_max_retries rq > 0" "rq_scores rq 0 = (p, d)"
  shows "handle_completions rq streams (new_handler rq [Ack, Ack, Picked k, Ack, Raises CancelledError]) =
    ((new_handler rq [])\<lparr>hs_calls := [(BeginRequest p, k)]\<rparr>, Inl CancelledError)"
proof -
  obtain n where n: "rq_max_retries rq = Suc n" using assms(1) by (cases "rq_max_retries rq") auto
  let ?t = "(new_handler rq [])\<lparr>hs_calls := [(BeginRequest p, k)]\<rparr>"
  have s: "new_handler rq rs = (new_handler rq [])\<lparr>hs_replies := rs\<rparr>" for rs
    by (simp add: new_handler_def)
  have begun: "schedule (BeginRequest p) (new_handler rq (Picked k # rs)) = (?t\<lparr>hs_replies := rs\<rparr>, Inr k)" for rs
    unfolding s [of "Picked k # rs"] reply_simps by (simp add: new_handler_def)
  have ack: "external (new_handler rq (Ack # rs)) = (new_handler rq rs, Inr ())" for rs
    unfolding s [of "Ack # rs"] s [of rs] by (rule reply_simps)
  have sent: "send_request (Suc n) (?t\<lparr>hs_replies := [Raises CancelledError]\<rparr>) = (?t, Inl CancelledError)"
    unfolding send_request.simps reply_simps by (simp add: new_handler_def)
  have "op_bind external (\<lambda>_. send_request (Suc n)) (?t\<lparr>hs_replies := [Ack, Raises CancelledError]\<rparr>) = (?t, Inl CancelledError)"
    by (rule op_bindI, rule reply_simps, rule sent)
  then have cut: "op_except (op_bind external (\<lambda>_. send_request (Suc n))) h (?t\<lparr>hs_replies := [Ack, Raises CancelledError]\<rparr>) = (?t, Inl CancelledError)" for h
    by (simp add: op_except_def)
  have asg: "assign_instances rq 0 True (new_handler rq [Picked k, Ack, Raises CancelledError]) = (?t, Inl CancelledError)"
    unfolding assign_instances_def assms(2) Let_def prod.case if_True n
    by (rule op_bindI, rule begun, rule op_bind_run(2), rule cut)
  show ?thesis
    unfolding handle_completions_def by (rule op_bindI, rule ack, rule op_bindI, rule ack, rule op_bind_run(2), rule asg)
qed

text \<open>An attempt that breaks off with a transport error after it delivered chunks is repeated, and the client
  gets what was delivered before and then the whole of the new attempt.\<close>
theorem broken_stream_is_replayed:
  assumes "n > 0"
  shows "stream_with_retry sent (Suc n) [(True, cs1, HttpEnd), (True, cs2, Complete)] = (cs1 @ cs2, None)"
  using assms by (cases n) (auto simp: Let_def)

text \<open>No other error is retried once chunks were delivered.\<close>
theorem stream_not_replayed_after_other_error:
  assumes "cs \<noteq> []" "n > 0"
  shows "stream_with_retry sent n ((True, cs, OtherEnd e) # attempts) =
    (cs, if e = CancelledError then Some e else None)"
  using assms by (cases n) (auto simp: Let_def)

end
