(* ===== verification/Proxy_Samples.thy ===== *)
theory Proxy_Samples
  imports Proxy_Clients Proxy_Accounts
begin

text \<open>
  A proxy with two prefill servers and one decode server, loads in whole units, on which the
  properties of the scheduler, its requests and its listener are applied.
\<close>

definition demo_arith :: "int arith" where
  "demo_arith = \<lparr>f_zero = 0, f_add = (+), f_sub = (-), f_weight = (\<lambda>x. x * 3 div 10), f_taint = 10 ^ 15\<rparr>"

definition demo_servers :: "int scheduler" where
  "demo_servers = fst (make_scheduler demo_arith [(''localhost'', 1), (''b'', 1)] [(''localhost'', 2)])"

definition demo_run :: "int call list \<Rightarrow> int scheduler" where
  "demo_run cs = fold (\<lambda>c s. fst (run_call demo_arith c s)) cs demo_servers"

lemma demo_reachable: "reachable demo_arith (demo_run cs)"
proof -
  have "reachable demo_arith s \<Longrightarrow> reachable demo_arith (fold (\<lambda>c s. fst (run_call demo_arith c s)) cs s)" for s
    by (induction cs arbitrary: s) (auto intro: reachable.called)
  moreover have "reachable demo_arith demo_servers"
    unfolding demo_servers_def by (rule reachable.created) (rule prod.collapse [symmetric])
  ultimately show ?thesis by (simp add: demo_run_def)
qed

lemma demo_key: "server_key ''localhost'' 1 = ''0.0.0.0:1''"
  by code_simp

section \<open>The scheduler\<close>

text \<open>One request begun: the first server carries it, so the second is picked next.\<close>

theorem picked_server_is_least_witness:
  "\<exists>e. dict_get (servers_of PREFILL (demo_run [BeginRequest 100])) ''b:1'' = Some e \<and>
     ''b'' = bs_host e \<and> 1 = bs_port e \<and>
     (priority demo_arith PREFILL (po_tainted (sc_pools (demo_run [BeginRequest 100]) PREFILL)) e ''b:1'', bs_ordinal e) <
     (priority demo_arith PREFILL (po_tainted (sc_pools (demo_run [BeginRequest 100]) PREFILL))
        (the (dict_get (servers_of PREFILL (demo_run [BeginRequest 100])) ''0.0.0.0:1'')) ''0.0.0.0:1'',
      bs_ordinal (the (dict_get (servers_of PREFILL (demo_run [BeginRequest 100])) ''0.0.0.0:1'')))"
proof (rule picked_server_is_least [OF demo_reachable])
  let ?pick = "on_pool PREFILL (pick_server demo_arith PREFILL 50 False True) (demo_run [BeginRequest 100])"
  have "snd ?pick = Inr (''b:1'', ''b'', 1)" by code_simp
  then show "?pick = (fst ?pick, Inr (''b:1'', ''b'', 1))" by (simp add: prod_eq_iff)
  have "dict_get (servers_of PREFILL (demo_run [BeginRequest 100])) ''0.0.0.0:1'' \<noteq> None" by code_simp
  then show "dict_get (servers_of PREFILL (demo_run [BeginRequest 100])) ''0.0.0.0:1'' =
      Some (the (dict_get (servers_of PREFILL (demo_run [BeginRequest 100])) ''0.0.0.0:1''))" by simp
qed simp

theorem isolated_server_is_avoided_witness:
  "''0.0.0.0:2'' \<in> po_tainted (sc_pools (demo_run [BeginRequest 100, RemoveInstances DECODE [(''localhost'', 2)]]) DECODE)"
proof (rule isolated_server_is_avoided [OF demo_reachable])
  let ?s = "demo_run [BeginRequest 100, RemoveInstances DECODE [(''localhost'', 2)]]"
  let ?pick = "on_pool DECODE (pick_server demo_arith DECODE 5 True False) ?s"
  have "snd ?pick = Inr (''0.0.0.0:2'', ''localhost'', 2)" by code_simp
  then show "?pick = (fst ?pick, Inr (''0.0.0.0:2'', ''localhost'', 2))" by (simp add: prod_eq_iff)
  show iso: "''0.0.0.0:2'' \<in> po_tainted (sc_pools ?s DECODE)" by code_simp
  then show "''0.0.0.0:2'' \<in> po_tainted (sc_pools ?s DECODE) \<or>
    priority demo_arith DECODE {} (the (dict_get (servers_of DECODE ?s) ''0.0.0.0:2'')) ''0.0.0.0:2'' < f_taint demo_arith" ..
  have "dict_get (servers_of DECODE ?s) ''0.0.0.0:2'' \<noteq> None" by code_simp
  then show "dict_get (servers_of DECODE ?s) ''0.0.0.0:2'' = Some (the (dict_get (servers_of DECODE ?s) ''0.0.0.0:2''))" by simp
qed

theorem active_requests_keep_servers_witness:
  "dict_get (servers_of DECODE (fst (run_call demo_arith (RemoveInstances DECODE [(''localhost'', 2)]) (demo_run [BeginRequest 100]))))
     ''0.0.0.0:2'' \<noteq> None"
  by (rule active_requests_keep_servers) code_simp+

section \<open>The listener\<close>

definition demo_waiting :: "int scheduler" where
  "demo_waiting = demo_run [AddInstances PREFILL [(''localhost'', 3)], AddInstances DECODE [(''localhost'', 4)]]"

lemma demo_waiting_reachable: "reachable demo_arith demo_waiting"
  unfolding demo_waiting_def by (rule demo_reachable)

lemma demo_waiting_calm: "no_orphans (sc_waiting demo_waiting) demo_waiting"
proof -
  have "po_tainted (sc_pools demo_waiting PREFILL) = {}" "po_tainted (sc_pools demo_waiting DECODE) = {}" by code_simp+
  then have "po_tainted (sc_pools demo_waiting r) = {}" for r by (cases r) simp_all
  then show ?thesis by (simp add: no_orphans_def)
qed


text \<open>A node that is announced and, while a request is in flight, removed again before it ever answered.\<close>

definition demo_orphan :: "int scheduler" where
  "demo_orphan = demo_run [BeginRequest 100, AddInstances PREFILL [(''localhost'', 3)], RemoveInstances PREFILL [(''localhost'', 3)]]"

theorem isolated_waiting_node_stops_listener_witness:
  "reachable demo_arith demo_orphan \<and>
   sc_waiting demo_orphan = [(''0.0.0.0:3'', role_value PREFILL, (''localhost'', 3), 0)] \<and>
   (\<exists>t. check_node demo_arith 3 (\<lambda>_. True) (''0.0.0.0:3'', role_value PREFILL, (''localhost'', 3), 0) demo_orphan = (t, Inl KeyError) \<and>
     dict_get (sc_waiting t) ''0.0.0.0:3'' = None \<and> dict_get (servers_of PREFILL t) ''0.0.0.0:3'' = None)"
proof (intro conjI)
  show "sc_waiting demo_orphan = [(''0.0.0.0:3'', role_value PREFILL, (''localhost'', 3), 0)]" by code_simp
  show "\<exists>t. check_node demo_arith 3 (\<lambda>_. True) (''0.0.0.0:3'', role_value PREFILL, (''localhost'', 3), 0) demo_orphan = (t, Inl KeyError) \<and>
     dict_get (sc_waiting t) ''0.0.0.0:3'' = None \<and> dict_get (servers_of PREFILL t) ''0.0.0.0:3'' = None"
    by (rule isolated_waiting_node_stops_listener) code_simp+
qed (simp add: demo_orphan_def demo_reachable)

section \<open>Instances\<close>


theorem adjusted_instances_witness:
  "\<exists>t x. adjust_instances demo_arith Remove ''prefill'' [''b:1''] (demo_run []) = (t, x) \<and>
     dict_get (servers_of PREFILL t) ''b:1'' = None \<and> dict_get (servers_of PREFILL (demo_run [])) ''b:1'' \<noteq> None"
proof -
  obtain t x where tx: "adjust_instances demo_arith Remove ''prefill'' [''b:1''] (demo_run []) = (t, x)" by fastforce
  have p: "parse_server_addresses [''b:1''] = Inr [(''b'', 1)]" "role_of ''prefill'' = Inr PREFILL" "server_key ''b'' 1 = ''b:1''"
    "\<not> sc_request_num (demo_run []) > 0" "dict_get (servers_of PREFILL (demo_run [])) ''b:1'' \<noteq> None" by code_simp+
  show ?thesis using adjusted_instances [OF demo_reachable p(1) _ p(2) tx, of "''b''" 1] tx p by simp
qed


section \<open>Requests\<close>

definition demo_request :: "int request" where
  "demo_request = \<lparr>rq_zero = 0, rq_scores = (\<lambda>n. (120 + int n, 40 + int n)), rq_max_retries = 3, rq_stream = True,
     rq_prompt = ''hi'', rq_max_tokens = 16\<rparr>"

text \<open>Every await of a request with one stream goes well.\<close>

definition demo_replies :: "reply list" where
  "demo_replies = [Ack, Ack, Picked ''a:1'', Ack, Ack, Ack, Picked ''a:2'', Ack, Ack, Ack, Ack, Ack, Ack, Ack, Ack]"

definition demo_streams :: "(chunk list \<times> error option) list" where
  "demo_streams = [([Choice ''he'' False 1, Blank True, Choice ''llo'' False 1], None)]"

definition demo_end :: "int handler \<times> unit result" where
  "demo_end = handle_completions demo_request demo_streams (new_handler demo_request demo_replies)"

theorem request_accounts_balance_witness:
  "active (hs_calls (fst demo_end)) = 0 \<and> held PREFILL ''a:1'' 120 (hs_calls (fst demo_end)) = 0 \<and>
   length (hs_calls (fst demo_end)) = 4 \<and> hs_out (fst demo_end) = [Choice ''he'' False 1, Choice ''llo'' False 1]"
proof -
  have run: "handle_completions demo_request demo_streams (new_handler demo_request demo_replies) = (fst demo_end, Inr ())"
  proof -
    have "snd demo_end = Inr ()" by code_simp
    then show ?thesis by (simp add: demo_end_def prod_eq_iff)
  qed
  have no: "list_all (\<lambda>(cs, e). list_all (\<lambda>c. \<not> recomputed c) cs) demo_streams" by code_simp
  have "length (hs_calls (fst demo_end)) = 4" "hs_out (fst demo_end) = [Choice ''he'' False 1, Choice ''llo'' False 1]" by code_simp+
  then show ?thesis using request_accounts_balance [OF no run, of PREFILL "''a:1''" 120] by simp
qed

text \<open>A stream that stops as recomputed after its first chunk.\<close>

definition demo_streaming :: "int handler" where
  "demo_streaming = (new_handler demo_request [Ack, Ack, Ack, Ack, Picked ''b:1'', Ack, Ack, Ack, Picked ''a:2'', Ack, Ack])
     \<lparr>hs_info := Some \<lparr>ii_prefiller_key = ''a:1'', ii_prefiller_score = 120, ii_decoder_key = ''a:2'', ii_decoder_score = 40\<rparr>\<rparr>"

definition demo_recomputed :: "int handler \<times> bool result" where
  "demo_recomputed = consume demo_request [Choice ''he'' False 1, Choice ''llo'' True 1] demo_streaming"

theorem recompute_releases_prefill_twice_witness:
  "snd demo_recomputed = Inr True \<and> held PREFILL ''a:1'' 120 (hs_calls (fst demo_recomputed)) = -2 \<and>
   held DECODE ''a:2'' 40 (hs_calls (fst demo_recomputed)) = -1"
proof -
  have r: "snd demo_recomputed = Inr True"
    "hs_info (fst demo_recomputed) = Some \<lparr>ii_prefiller_key = ''b:1'', ii_prefiller_score = 121, ii_decoder_key = ''a:2'', ii_decoder_score = 41\<rparr>"
    by code_simp+
  have run: "consume demo_request [Choice ''he'' False 1, Choice ''llo'' True 1] demo_streaming = (fst demo_recomputed, Inr True)"
    using r(1) by (simp add: demo_recomputed_def prod_eq_iff)
  have s: "hs_info demo_streaming = Some \<lparr>ii_prefiller_key = ''a:1'', ii_prefiller_score = 120, ii_decoder_key = ''a:2'', ii_decoder_score = 40\<rparr>"
    "\<not> hs_released demo_streaming" "hs_calls demo_streaming = []"
    by (simp_all add: demo_streaming_def new_handler_def)
  show ?thesis
    using recompute_releases_prefill_twice [OF run s(1,2), of "''a:1''" 120]
      recompute_releases_prefill_twice [OF run s(1,2), of "''a:2''" 40] r by (simp add: s(3))
qed

theorem cancelled_prefill_is_never_finished_witness:
  "handle_completions demo_request demo_streams (new_handler demo_request [Ack, Ack, Picked ''a:1'', Ack, Raises CancelledError]) =
    ((new_handler demo_request [])\<lparr>hs_calls := [(BeginRequest 120, ''a:1'')]\<rparr>, Inl CancelledError)"
  by (rule cancelled_prefill_is_never_finished [where d = 40]) (simp_all add: demo_request_def)

theorem scheduler_state_is_well_formed_witness:
  "wf_dict (servers_of PREFILL demo_waiting) \<and> distinct (map (\<lambda>(_, e). bs_ordinal e) (servers_of PREFILL demo_waiting)) \<and>
   length (servers_of PREFILL demo_waiting) = 2 \<and> length (sc_waiting demo_waiting) = 2"
proof -
  have "length (servers_of PREFILL demo_waiting) = 2" "length (sc_waiting demo_waiting) = 2" by code_simp+
  then show ?thesis using scheduler_state_is_well_formed [OF demo_waiting_reachable, of PREFILL] by blast
qed

end
