(* ===== verification/Async_Cam.thy ===== *)
theory Async_Cam
  imports Topology Metadata
begin

text \<open>
  The asynchronous CAM connector of \<open>connectors/npu/async_cam.py\<close>: its options, the
  Attention-first world, the queue of dispatches an Attention rank has in flight per stage, and
  the work items of an FFN rank.  The CAM operators, which move the tensors, are the environment:
  the model logs what each of them is given, in issue order.
\<close>

section \<open>Options\<close>

record async_extra =
  ax_dynamic_quant :: int
  ax_attn_ranks_per_dp :: int
  ax_hccl_buffer_size :: "int option"
  ax_two_stream :: bool
  ax_compute_aic :: int
  ax_compute_aiv :: int
  ax_combine_aiv :: int

definition async_extra_fields :: "string list" where
  "async_extra_fields = [''dynamicQuant'', ''attn_ranks_per_dp'', ''hccl_buffer_size'', ''ffn_two_stream'',
     ''ffn_compute_aic_num'', ''ffn_compute_aiv_num'', ''ffn_combine_aiv_num'']"

text \<open>\<open>raw.get(key, default)\<close>.\<close>

definition pydict_get :: "pydict \<Rightarrow> string \<Rightarrow> pyval \<Rightarrow> pyval" where
  "pydict_get d key dflt = (case dict_get d key of None \<Rightarrow> dflt | Some v \<Rightarrow> v)"

definition async_extra_of :: "pydict \<Rightarrow> async_extra result" where
  "async_extra_of raw =
     (if list_ex (\<lambda>(key, _). key \<notin> set async_extra_fields) raw
      then Inl (ValueError ''unknown AFD async connector_extra_config field(s)'')
      else
        bind_result (coerce_extra_int (pydict_get raw ''dynamicQuant'' (PInt 0))) (\<lambda>dq.
        bind_result (coerce_extra_positive_int (pydict_get raw ''attn_ranks_per_dp'' (PInt 1))) (\<lambda>per_dp.
        bind_result (coerce_optional_extra_positive_int (pydict_get raw ''hccl_buffer_size'' PNone)) (\<lambda>buf.
        bind_result (coerce_extra_bool (pydict_get raw ''ffn_two_stream'' (PBool False))) (\<lambda>two.
        bind_result (coerce_extra_positive_int (pydict_get raw ''ffn_compute_aic_num'' (PInt 12))) (\<lambda>aic.
        bind_result (coerce_extra_positive_int (pydict_get raw ''ffn_compute_aiv_num'' (PInt 24))) (\<lambda>aiv.
        bind_result (coerce_extra_positive_int (pydict_get raw ''ffn_combine_aiv_num'' (PInt 24))) (\<lambda>comb.
        Inr \<lparr>ax_dynamic_quant = dq, ax_attn_ranks_per_dp = per_dp, ax_hccl_buffer_size = buf, ax_two_stream = two,
             ax_compute_aic = aic, ax_compute_aiv = aiv, ax_combine_aiv = comb\<rparr>))))))))"

fun async_extra_from_mapping :: "pyval \<Rightarrow> async_extra result" where
  "async_extra_from_mapping PNone = async_extra_of []"
| "async_extra_from_mapping (PDict raw) = async_extra_of raw"
| "async_extra_from_mapping v = Inl (TypeError ''connector_extra_config must be a mapping'')"

definition async_extra_to_mapping :: "async_extra \<Rightarrow> pydict" where
  "async_extra_to_mapping x =
     [(''dynamicQuant'', PInt (ax_dynamic_quant x)), (''attn_ranks_per_dp'', PInt (ax_attn_ranks_per_dp x))] @
     (case ax_hccl_buffer_size x of None \<Rightarrow> [] | Some n \<Rightarrow> [(''hccl_buffer_size'', PInt n)]) @
     (if ax_two_stream x \<or> (ax_compute_aic x, ax_compute_aiv x, ax_combine_aiv x) \<noteq> (12, 24, 24)
      then [(''ffn_two_stream'', PBool (ax_two_stream x)), (''ffn_compute_aic_num'', PInt (ax_compute_aic x)),
            (''ffn_compute_aiv_num'', PInt (ax_compute_aiv x)), (''ffn_combine_aiv_num'', PInt (ax_combine_aiv x))]
      else [])"

section \<open>Topology\<close>

record async_topology =
  at_role :: pyval
  at_role_rank :: int
  at_world_rank :: int
  at_attn_size :: int
  at_ffn_size :: int
  at_expert_per_rank :: int

definition at_world_size :: "async_topology \<Rightarrow> int" where
  "at_world_size t = at_attn_size t + at_ffn_size t"

definition build_async_topology :: "afd_config \<Rightarrow> int \<Rightarrow> int option \<Rightarrow> async_topology result" where
  "build_async_topology c rr experts =
     (let A = num_attention_ranks c; F = num_ffn_ranks c in
      if A \<le> 0 \<or> F \<le> 0 then Inl (ValueError ''AFD async topology sizes must be positive'')
      else if rr < 0 then Inl (ValueError ''AFD async role rank must be non-negative'')
      else
        bind_result
          (if role c = PStr ''attention'' then
             (if rr \<ge> A then Inl (ValueError ''Attention role rank must be within attention size'') else Inr rr)
           else if role c = PStr ''ffn'' then
             (if rr \<ge> F then Inl (ValueError ''FFN role rank must be within FFN size'') else Inr (A + rr))
           else Inl (ValueError ''unknown AFD role'')) (\<lambda>world.
        let n = (case experts of None \<Rightarrow> F | Some n \<Rightarrow> n) in
        if n mod F \<noteq> 0 then Inl (ValueError ''Async CAM requires routed experts divisible by FFN ranks'')
        else Inr \<lparr>at_role = role c, at_role_rank = rr, at_world_rank = world, at_attn_size = A, at_ffn_size = F,
                  at_expert_per_rank = n div F\<rparr>))"

text \<open>The routed experts an FFN rank holds: those CAM sends to its world rank.\<close>

definition async_experts :: "async_topology \<Rightarrow> int list" where
  "async_experts t = (let f = at_world_rank t - at_attn_size t in
     py_range (f * at_expert_per_rank t) ((f + 1) * at_expert_per_rank t))"

text \<open>\<open>graph_startup_chunks\<close>, and how many of the experts \<open>0, .., topk - 1\<close> are local.\<close>

definition warmup_local_experts :: "async_topology \<Rightarrow> int \<Rightarrow> int" where
  "warmup_local_experts t topk =
     max 0 (min (at_expert_per_rank t) (topk - (at_world_rank t - at_attn_size t) * at_expert_per_rank t))"

definition graph_startup_chunks :: "async_topology \<Rightarrow> int \<Rightarrow> int \<Rightarrow> int \<Rightarrow> int result" where
  "graph_startup_chunks t topk capacity tp_size =
     (if tp_size = 0 then Inl ZeroDivisionError
      else let experts_per_chunk = capacity div tp_size in
        if experts_per_chunk = 0 then Inl ZeroDivisionError
        else Inr (max 1 ((warmup_local_experts t topk + experts_per_chunk - 1) div experts_per_chunk)))"

section \<open>The connector\<close>

text \<open>A tensor as the checks see it: its shape, and a token for its contents.\<close>

record 'd tensor =
  tn_shape :: "int list"
  tn_data :: 'd

text \<open>\<open>AFDAsyncTransferState\<close>; the last three are set by a receive.\<close>

record 'd async_state =
  as_batch_size :: int
  as_layer_idx :: int
  as_batch_info :: "int list option"
  as_group_list :: "int list option"
  as_scales :: "'d list option"

text \<open>What a CAM operator is given.\<close>

datatype 'd cam_call =
    DispatchSend int int "'d tensor"
  | CombineRecv int "'d tensor" "'d tensor"
  | DispatchRecv
  | CombineSend "'d list" "int list"

text \<open>
  Contexts are objects shared by the caller and the queue: \<open>cm_states\<close> holds the states each of
  them (by identity) refers to, if they are those of this connector.
\<close>

record 'd cam =
  cm_initialized :: bool
  cm_topk :: int
  cm_max_tokens :: int
  cm_tp_size :: int
  cm_pending :: "(int, (nat \<times> 'd tensor \<times> 'd tensor) list) dict"
  cm_states :: "nat \<Rightarrow> 'd async_state option"
  cm_calls :: "(int \<times> 'd cam_call) list"

definition new_async_state :: "int \<Rightarrow> int \<Rightarrow> 'd async_state" where
  "new_async_state batch layer =
     \<lparr>as_batch_size = batch, as_layer_idx = layer, as_batch_info = None, as_group_list = None, as_scales = None\<rparr>"

definition cam_require_initialized :: "('d cam, unit) op" where
  "cam_require_initialized = op_lift (\<lambda>s. guard (\<not> cm_initialized s) (RuntimeError ''CAMAsyncAFDConnector is not initialized''))"

definition validate_topk_payload :: "'d tensor \<Rightarrow> 'd tensor \<Rightarrow> int \<Rightarrow> int \<Rightarrow> unit result" where
  "validate_topk_payload ids wts batch topk =
     bind_result (guard (tn_shape ids \<noteq> [batch, topk]) (ValueError ''topk_ids shape must match'')) (\<lambda>_.
     guard (tn_shape wts \<noteq> [batch, topk]) (ValueError ''topk_weights shape must match''))"

definition cam_issue :: "int \<Rightarrow> 'd cam_call \<Rightarrow> ('d cam, unit) op" where
  "cam_issue stage c = op_modify (\<lambda>s. s\<lparr>cm_calls := cm_calls s @ [(stage, c)]\<rparr>)"

definition cam_enqueue :: "int \<Rightarrow> nat \<times> 'd tensor \<times> 'd tensor \<Rightarrow> 'd cam \<Rightarrow> 'd cam" where
  "cam_enqueue stage x s =
     s\<lparr>cm_pending := dict_put stage ((case dict_get (cm_pending s) stage of None \<Rightarrow> [] | Some xs \<Rightarrow> xs) @ [x]) (cm_pending s)\<rparr>"

text \<open>\<open>payloads.pop(0)\<close>, dropping the key when the list runs empty.\<close>

definition cam_dequeue :: "int \<Rightarrow> 'd cam \<Rightarrow> 'd cam" where
  "cam_dequeue stage s =
     s\<lparr>cm_pending := (case dict_get (cm_pending s) stage of
        None \<Rightarrow> cm_pending s
      | Some xs \<Rightarrow> if tl xs = [] then dict_pop stage (cm_pending s) else dict_put stage (tl xs) (cm_pending s))\<rparr>"

definition cam_send_attn_output ::
  "nat \<Rightarrow> transfer_metadata \<Rightarrow> int list \<Rightarrow> 'd tensor option \<Rightarrow> 'd tensor option \<Rightarrow> ('d cam, unit) op" where
  "cam_send_attn_output ctx m shape ids wts =
     op_bind cam_require_initialized (\<lambda>_.
     op_bind (op_guard (\<not> validate_tensor_shape m shape) (ValueError ''hidden_states shape'')) (\<lambda>_.
     op_bind (op_modify (\<lambda>s. s\<lparr>cm_states := (cm_states s)(ctx := Some (new_async_state (total_tokens m) (layer_idx m)))\<rparr>)) (\<lambda>_.
     case (ids, wts) of
       (Some ids, Some wts) \<Rightarrow>
         op_bind (op_lift (\<lambda>s. validate_topk_payload ids wts (total_tokens m) (cm_topk s))) (\<lambda>_.
         op_bind (op_lift (\<lambda>s. guard (total_tokens m > cm_max_tokens s div cm_tp_size s)
           (ValueError ''Async CAM batch exceeds max_num_batched_tokens / TP capacity''))) (\<lambda>_.
         op_bind (cam_issue (stage_idx m) (DispatchSend (total_tokens m) (layer_idx m) ids)) (\<lambda>_.
         op_modify (cam_enqueue (stage_idx m) (ctx, ids, wts)))))
     | _ \<Rightarrow> op_raise (RuntimeError ''send_attn_output requires topk_ids/topk_weights''))))"

definition require_async_state :: "nat \<Rightarrow> ('d cam, 'd async_state) op" where
  "require_async_state ctx = op_lift (\<lambda>s. case cm_states s ctx of
     None \<Rightarrow> Inl (RuntimeError ''requires AFDAsyncTransferState'') | Some st \<Rightarrow> Inr st)"

definition cam_recv_ffn_output :: "int \<Rightarrow> nat option \<Rightarrow> ('d cam, nat) op" where
  "cam_recv_ffn_output stage ctx =
     op_bind cam_require_initialized (\<lambda>_.
     op_bind (op_get (\<lambda>s. case dict_get (cm_pending s) stage of None \<Rightarrow> [] | Some xs \<Rightarrow> xs)) (\<lambda>payloads.
     case payloads of
       [] \<Rightarrow> op_raise (RuntimeError ''recv_ffn_output is missing pending Attention metadata'')
     | (c, ids, wts) # rest \<Rightarrow>
         op_bind (op_guard (\<not> (ctx = None \<or> ctx = Some c)) (RuntimeError ''context does not match the next pending dispatch'')) (\<lambda>_.
         op_bind (op_modify (cam_dequeue stage)) (\<lambda>_.
         op_bind (require_async_state c) (\<lambda>st.
         op_bind (op_lift (\<lambda>s. validate_topk_payload ids wts (as_batch_size st) (cm_topk s))) (\<lambda>_.
         op_bind (cam_issue stage (CombineRecv (as_batch_size st) ids wts)) (\<lambda>_.
         op_return c)))))))"

definition cam_close :: "('d cam, unit) op" where
  "cam_close = op_modify (\<lambda>s. s\<lparr>cm_pending := [], cm_initialized := False\<rparr>)"

section \<open>Work items of an FFN rank\<close>

text \<open>What \<open>afd_async_dispatch_recv\<close> hands out: rows up to its capacity, their scales, the compact metadata
  \<open>TokenNums_Rankid_Layeridx\<close> and the number of rows per local expert.\<close>

record 'd cam_received =
  cr_rows :: "'d list"
  cr_scales :: "'d list option"
  cr_batch_info :: "int list"
  cr_group_list :: "int list"

record 'd work_item =
  wi_rows :: "'d list"
  wi_metadata :: transfer_metadata
  wi_state :: "'d async_state"
  wi_layer_idx :: int
  wi_stage_idx :: int
  wi_num_tokens :: int
  wi_total_num_tokens :: int

definition cam_recv_attn_output ::
  "'d cam_received \<Rightarrow> int \<Rightarrow> int \<Rightarrow> int \<Rightarrow> ('d cam, 'd list \<times> transfer_metadata \<times> 'd async_state) op" where
  "cam_recv_attn_output out stage batch layer =
     op_bind cam_require_initialized (\<lambda>_.
     op_bind (op_lift (\<lambda>_. create_ffn_metadata layer stage [batch])) (\<lambda>m.
     op_bind (cam_issue stage DispatchRecv) (\<lambda>_.
     op_return (cr_rows out, m,
       (new_async_state batch layer)\<lparr>as_batch_info := Some (cr_batch_info out), as_group_list := Some (cr_group_list out),
          as_scales := cr_scales out\<rparr>))))"

definition recv_ffn_work_item :: "'d cam_received \<Rightarrow> int \<Rightarrow> int \<Rightarrow> ('d cam, 'd work_item) op" where
  "recv_ffn_work_item out stage max_num_tokens =
     op_bind (op_get cm_max_tokens) (\<lambda>mt.
     op_bind (cam_recv_attn_output out stage (max 1 (if mt \<noteq> 0 then mt else max_num_tokens)) 0) (\<lambda>(rows, m, st).
     op_bind (op_lift (\<lambda>_. case as_batch_info st of
        None \<Rightarrow> Inl (RuntimeError ''work item requires TokenNums_Rankid_Layeridx'') | Some info \<Rightarrow> Inr info)) (\<lambda>info.
     op_bind (op_lift (\<lambda>_. case as_group_list st of None \<Rightarrow> Inl AssertionError | Some g \<Rightarrow> Inr g)) (\<lambda>counts.
     op_bind (op_lift (\<lambda>_. py_get info 0)) (\<lambda>total.
     op_bind (op_lift (\<lambda>_. py_get info 2)) (\<lambda>layer.
     let n = sum_list counts in
     op_bind (op_guard (\<not> (0 \<le> n \<and> n \<le> int (length rows)))
       (RuntimeError ''AFD async CAM routed chunk count is outside dispatch-recv capacity'')) (\<lambda>_.
     op_return \<lparr>wi_rows = take (nat n) rows, wi_metadata = \<lparr>layer_idx = layer, stage_idx = stage, seq_lens = [n]\<rparr>,
       wi_state = st\<lparr>as_scales := map_option (take (nat n)) (as_scales st)\<rparr>, wi_layer_idx = layer,
       wi_stage_idx = stage, wi_num_tokens = n, wi_total_num_tokens = total\<rparr>)))))))"

definition cam_send_ffn_output :: "'d list \<Rightarrow> 'd async_state \<Rightarrow> int \<Rightarrow> ('d cam, unit) op" where
  "cam_send_ffn_output rows st stage =
     op_bind cam_require_initialized (\<lambda>_.
     case as_batch_info st of
       None \<Rightarrow> op_raise (RuntimeError ''combine send requires TokenNums_Rankid_Layeridx'')
     | Some info \<Rightarrow> cam_issue stage (CombineSend rows info))"

text \<open>\<open>zero\<close> is the floating row sent in place of an empty routed output.\<close>

definition send_ffn_work_item_output :: "'d \<Rightarrow> 'd work_item \<Rightarrow> 'd list \<Rightarrow> ('d cam, 'd list) op" where
  "send_ffn_work_item_output zero item ffn_output =
     (let rows = (if wi_num_tokens item > 0 then ffn_output else [zero]) in
      op_bind (cam_send_ffn_output rows (wi_state item) (wi_stage_idx item)) (\<lambda>_. op_return rows))"

section \<open>The Attention-first world\<close>

lemma build_async_topologyD:
  assumes "build_async_topology c rr experts = Inr t"
  shows "0 < num_attention_ranks c" "0 < num_ffn_ranks c" "0 \<le> rr"
    "at_attn_size t = num_attention_ranks c" "at_ffn_size t = num_ffn_ranks c"
    "(case experts of None \<Rightarrow> num_ffn_ranks c | Some n \<Rightarrow> n) = at_expert_per_rank t * num_ffn_ranks c"
    "(role c = PStr ''attention'' \<and> rr < num_attention_ranks c \<and> at_world_rank t = rr) \<or>
     (role c = PStr ''ffn'' \<and> rr < num_ffn_ranks c \<and> at_world_rank t = num_attention_ranks c + rr)"
  using assms by (auto simp: build_async_topology_def Let_def bind_result_Inr split: if_splits option.splits)

text \<open>Options written out by \<open>to_mapping\<close> are read back as they were, whichever of them were left at their defaults.\<close>
theorem async_extra_roundtrip:
  assumes "0 < ax_attn_ranks_per_dp x" "\<forall>n. ax_hccl_buffer_size x = Some n \<longrightarrow> 0 < n"
    and "0 < ax_compute_aic x" "0 < ax_compute_aiv x" "0 < ax_combine_aiv x"
  shows "async_extra_from_mapping (PDict (async_extra_to_mapping x)) = Inr x"
proof -
  have coerced: "coerce_extra_positive_int (PInt n) = Inr n" if "0 < n" for n
    using that by (simp add: coerce_extra_positive_int_def)
  have buf: "coerce_optional_extra_positive_int (case ax_hccl_buffer_size x of None \<Rightarrow> PNone | Some n \<Rightarrow> PInt n) = Inr (ax_hccl_buffer_size x)"
    using assms(2) by (auto simp: coerce_optional_extra_positive_int_def coerced split: option.split)
  have known: "\<not> list_ex (\<lambda>(key, _). key \<notin> set async_extra_fields) (async_extra_to_mapping x)"
    by (auto simp: async_extra_to_mapping_def async_extra_fields_def list_ex_iff split: option.splits)
  have get: "pydict_get (async_extra_to_mapping x) ''dynamicQuant'' (PInt 0) = PInt (ax_dynamic_quant x)"
    "pydict_get (async_extra_to_mapping x) ''attn_ranks_per_dp'' (PInt 1) = PInt (ax_attn_ranks_per_dp x)"
    "pydict_get (async_extra_to_mapping x) ''hccl_buffer_size'' PNone = (case ax_hccl_buffer_size x of None \<Rightarrow> PNone | Some n \<Rightarrow> PInt n)"
    "pydict_get (async_extra_to_mapping x) ''ffn_two_stream'' (PBool False) = PBool (ax_two_stream x)"
    "pydict_get (async_extra_to_mapping x) ''ffn_compute_aic_num'' (PInt 12) = PInt (ax_compute_aic x)"
    "pydict_get (async_extra_to_mapping x) ''ffn_compute_aiv_num'' (PInt 24) = PInt (ax_compute_aiv x)"
    "pydict_get (async_extra_to_mapping x) ''ffn_combine_aiv_num'' (PInt 24) = PInt (ax_combine_aiv x)"
    by (auto simp: pydict_get_def async_extra_to_mapping_def dict_get_Cons split: option.split)
  show ?thesis
    using assms by (simp add: async_extra_of_def known get buf coerced)
qed

text \<open>In a world of positive sizes whose expert count the FFN ranks divide, the Attention ranks and then the FFN
  ranks number the HCCL world, and the FFN ranks hold the routed experts, each once and in order.\<close>
theorem async_world_is_attention_first:
  assumes "0 < num_attention_ranks c" "0 < num_ffn_ranks c" "0 \<le> n" "n mod num_ffn_ranks c = 0"
  defines "rank r rr \<equiv> projr (build_async_topology (c\<lparr>role := PStr r\<rparr>) rr (Some n))"
  shows "map (\<lambda>a. at_world_rank (rank ''attention'' a)) (py_range 0 (num_attention_ranks c)) @
      map (\<lambda>f. at_world_rank (rank ''ffn'' f)) (py_range 0 (num_ffn_ranks c)) =
      py_range 0 (num_attention_ranks c + num_ffn_ranks c) \<and>
    concat (map (\<lambda>f. async_experts (rank ''ffn'' f)) (py_range 0 (num_ffn_ranks c))) = py_range 0 n"
proof
  let ?A = "num_attention_ranks c" and ?F = "num_ffn_ranks c" and ?k = "n div num_ffn_ranks c"
  have att: "map (\<lambda>a. at_world_rank (rank ''attention'' a)) (py_range 0 ?A) = py_range 0 ?A"
    using assms(1,2,4) by (intro map_idI) (simp add: rank_def build_async_topology_def Let_def)
  have ffn: "rank ''ffn'' f = \<lparr>at_role = PStr ''ffn'', at_role_rank = f, at_world_rank = ?A + f, at_attn_size = ?A,
      at_ffn_size = ?F, at_expert_per_rank = ?k\<rparr>" if "f \<in> set (py_range 0 ?F)" for f
    using that assms(1,2,4) by (simp add: rank_def build_async_topology_def Let_def)
  have "map (\<lambda>f. at_world_rank (rank ''ffn'' f)) (py_range 0 ?F) = map (\<lambda>f. ?A + f) (py_range 0 ?F)"
    using ffn by (intro map_cong) simp_all
  also have "\<dots> = py_range ?A (?A + ?F)" by (rule nth_equalityI) simp_all
  finally show "map (\<lambda>a. at_world_rank (rank ''attention'' a)) (py_range 0 ?A) @
      map (\<lambda>f. at_world_rank (rank ''ffn'' f)) (py_range 0 ?F) = py_range 0 (?A + ?F)"
    using att py_range_append [of 0 ?A "?A + ?F"] assms(1,2) by simp
  have blocks: "map (\<lambda>f. async_experts (rank ''ffn'' f)) (py_range 0 ?F) = map (\<lambda>f. py_range (f * ?k) ((f + 1) * ?k)) (py_range 0 ?F)"
    using ffn by (intro map_cong) (simp_all add: async_experts_def)
  moreover have "?F * ?k = n" using assms(4) by auto
  moreover have "0 \<le> ?k" using assms(2,3) by (simp add: pos_imp_zdiv_nonneg_iff)
  ultimately show "concat (map (\<lambda>f. async_experts (rank ''ffn'' f)) (py_range 0 ?F)) = py_range 0 n"
    unfolding blocks using concat_blocks [of ?k ?F] assms(2) by simp
qed

text \<open>The warm-up sends one row to each of the experts \<open>0, .., topk - 1\<close>; every one of them is expected by one rank.\<close>

lemma warmup_local_total:
  assumes "0 \<le> k" "0 \<le> topk" "0 \<le> n"
  shows "(\<Sum>f\<leftarrow>py_range 0 n. max 0 (min k (topk - f * k))) = min topk (n * k)"
  using assms(3)
proof (induction rule: int_ge_induct)
  case base
  then show ?case using assms(2) by simp
next
  case (step n)
  have "0 \<le> n * k" using step.hyps assms(1) by simp
  then show ?case using step assms(1,2) by (simp add: py_range_snoc distrib_right min_def max_def)
qed

section \<open>Dispatches and combines\<close>

text \<open>
  The interface the data path relies on: one first-in-first-out queue per stage.  What was put on
  a stage is always what was taken from it, in order, followed by what it still holds.
\<close>

locale stage_queues =
  fixes queue :: "'s \<Rightarrow> 'k \<Rightarrow> 'x list" and put :: "'k \<Rightarrow> 'x \<Rightarrow> 's \<Rightarrow> 's" and drop_first :: "'k \<Rightarrow> 's \<Rightarrow> 's"
  assumes queue_put: "queue (put k x s) j = (if j = k then queue s k @ [x] else queue s j)"
    and queue_drop: "queue (drop_first k s) j = (if j = k then tl (queue s k) else queue s j)"
begin

lemma put_balanced:
  assumes "\<And>j. sent j = got j @ queue s j"
  shows "(if j = k then sent k @ [x] else sent j) = got j @ queue (put k x s) j"
  using assms by (simp add: queue_put)

lemma drop_balanced:
  assumes "\<And>j. sent j = got j @ queue s j" "queue s k = x # xs"
  shows "sent j = (if j = k then got k @ [x] else got j) @ queue (drop_first k s) j"
  using assms(1) [of j] assms(2) by (simp add: queue_drop)

end

definition pending_of :: "'d cam \<Rightarrow> int \<Rightarrow> (nat \<times> 'd tensor \<times> 'd tensor) list" where
  "pending_of s stage = (case dict_get (cm_pending s) stage of None \<Rightarrow> [] | Some xs \<Rightarrow> xs)"

interpretation cam_queues: stage_queues pending_of cam_enqueue cam_dequeue
  by unfold_locales (auto simp: pending_of_def cam_enqueue_def cam_dequeue_def split: option.split)

text \<open>What an Attention rank does with its connector, in any order and whether or not it is refused.\<close>

datatype 'd attn_call =
    SendAttn nat transfer_metadata "int list" "'d tensor option" "'d tensor option"
  | RecvFfn int "nat option"

fun attn_step :: "'d attn_call \<Rightarrow> 'd cam \<Rightarrow> 'd cam" where
  "attn_step (SendAttn ctx m shape ids wts) s = fst (cam_send_attn_output ctx m shape ids wts s)"
| "attn_step (RecvFfn stage ctx) s = fst (cam_recv_ffn_output stage ctx s)"

text \<open>The batch size and expert ids given to the dispatches of a stage, and to its combines.\<close>

fun dispatched_to :: "int \<Rightarrow> (int \<times> 'd cam_call) list \<Rightarrow> (int \<times> 'd tensor) list" where
  "dispatched_to k [] = []"
| "dispatched_to k ((j, DispatchSend batch layer ids) # cs) = (if j = k then [(batch, ids)] else []) @ dispatched_to k cs"
| "dispatched_to k (c # cs) = dispatched_to k cs"

fun combined_from :: "int \<Rightarrow> (int \<times> 'd cam_call) list \<Rightarrow> (int \<times> 'd tensor) list" where
  "combined_from k [] = []"
| "combined_from k ((j, CombineRecv batch ids wts) # cs) = (if j = k then [(batch, ids)] else []) @ combined_from k cs"
| "combined_from k (c # cs) = combined_from k cs"

lemma dispatched_to_append [simp]: "dispatched_to k (xs @ ys) = dispatched_to k xs @ dispatched_to k ys"
  by (induction k xs rule: dispatched_to.induct) simp_all

lemma combined_from_append [simp]: "combined_from k (xs @ ys) = combined_from k xs @ combined_from k ys"
  by (induction k xs rule: combined_from.induct) simp_all

text \<open>Between calls; \<open>tok\<close> is the token count of the metadata of each context.\<close>

definition in_flight :: "(nat \<Rightarrow> int) \<Rightarrow> 'd cam \<Rightarrow> bool" where
  "in_flight tok s \<longleftrightarrow>
     (\<forall>k. dispatched_to k (cm_calls s) = combined_from k (cm_calls s) @ map (\<lambda>(c, ids, wts). (tok c, ids)) (pending_of s k)) \<and>
     (\<forall>k. list_all (\<lambda>(c, ids, wts). cm_states s c \<noteq> None \<and> tn_shape ids = [tok c, cm_topk s] \<and> tn_shape wts = [tok c, cm_topk s])
        (pending_of s k)) \<and>
     (\<forall>c st. cm_states s c = Some st \<longrightarrow> as_batch_size st = tok c)"

lemma validate_topk_Inr:
  "validate_topk_payload ids wts batch k = Inr () \<longleftrightarrow> tn_shape ids = [batch, k] \<and> tn_shape wts = [batch, k]"
  by (auto simp: validate_topk_payload_def guard_def)

lemma cam_send_cases:
  fixes s :: "'d cam"
  defines "s' \<equiv> \<lambda>m ctx. s\<lparr>cm_states := (cm_states s)(ctx := Some (new_async_state (total_tokens m) (layer_idx m)))\<rparr>"
  obtains "fst (cam_send_attn_output ctx m shape ids wts s) = s"
  | "fst (cam_send_attn_output ctx m shape ids wts s) = s' m ctx"
  | i w where "ids = Some i" "wts = Some w" "tn_shape i = [total_tokens m, cm_topk s]" "tn_shape w = [total_tokens m, cm_topk s]"
    "fst (cam_send_attn_output ctx m shape ids wts s) = cam_enqueue (stage_idx m) (ctx, i, w)
       ((s' m ctx)\<lparr>cm_calls := cm_calls s @ [(stage_idx m, DispatchSend (total_tokens m) (layer_idx m) i)]\<rparr>)"
proof (cases "cm_initialized s \<and> validate_tensor_shape m shape")
  case False
  then show ?thesis using that(1)
    by (auto simp: cam_send_attn_output_def cam_require_initialized_def op_simps guard_def)
next
  case init: True
  let ?fail = "fst (cam_send_attn_output ctx m shape ids wts s) = s' m ctx"
  show ?thesis
  proof (cases "ids = None \<or> wts = None")
    case True
    then have ?fail using init
      by (auto simp: cam_send_attn_output_def cam_require_initialized_def op_simps guard_def s'_def split: option.splits)
    then show ?thesis by (rule that(2))
  next
    case False
    then obtain i w where iw: "ids = Some i" "wts = Some w" by auto
    show ?thesis
    proof (cases "validate_topk_payload i w (total_tokens m) (cm_topk s) = Inr () \<and> \<not> total_tokens m > cm_max_tokens s div cm_tp_size s")
      case True
      then have "fst (cam_send_attn_output ctx m shape ids wts s) = cam_enqueue (stage_idx m) (ctx, i, w)
         ((s' m ctx)\<lparr>cm_calls := cm_calls s @ [(stage_idx m, DispatchSend (total_tokens m) (layer_idx m) i)]\<rparr>)"
        using init iw by (simp add: cam_send_attn_output_def cam_require_initialized_def cam_issue_def op_simps guard_def s'_def)
      then show ?thesis using that(3) iw True unfolding validate_topk_Inr by blast
    next
      case False
      then have ?fail using init iw
        by (cases "validate_topk_payload i w (total_tokens m) (cm_topk s)")
          (auto simp: cam_send_attn_output_def cam_require_initialized_def op_simps guard_def s'_def)
      then show ?thesis by (rule that(2))
    qed
  qed
qed

lemma in_flight_states:
  assumes "in_flight tok s" "total_tokens m = tok ctx"
  shows "in_flight tok (s\<lparr>cm_states := (cm_states s)(ctx := Some (new_async_state (total_tokens m) (layer_idx m)))\<rparr>)"
proof -
  have "pending_of (s\<lparr>cm_states := f\<rparr>) = pending_of s" for f by (rule ext) (simp add: pending_of_def)
  note pend = this
  have "list_all (\<lambda>(c, ids, wts). ((cm_states s)(ctx := Some st)) c \<noteq> None \<and> tn_shape ids = [tok c, cm_topk s] \<and> tn_shape wts = [tok c, cm_topk s])
      (pending_of s k)" for k st
  proof -
    have "list_all (\<lambda>(c, ids, wts). cm_states s c \<noteq> None \<and> tn_shape ids = [tok c, cm_topk s] \<and> tn_shape wts = [tok c, cm_topk s]) (pending_of s k)"
      using assms(1) by (simp add: in_flight_def)
    then show ?thesis by (rule list.pred_mono_strong) auto
  qed
  moreover have "as_batch_size (new_async_state (total_tokens m) (layer_idx m)) = tok ctx" using assms(2) by (simp add: new_async_state_def)
  ultimately show ?thesis using assms(1) by (simp add: in_flight_def pend)
qed

lemma in_flight_send:
  assumes "in_flight tok s" "total_tokens m = tok ctx"
  shows "in_flight tok (fst (cam_send_attn_output ctx m shape ids wts s))"
proof (cases rule: cam_send_cases [where ctx = ctx and m = m and shape = shape and ids = ids and wts = wts and s = s])
  case (3 i w)
  let ?s = "s\<lparr>cm_states := (cm_states s)(ctx := Some (new_async_state (total_tokens m) (layer_idx m)))\<rparr>"
  let ?t = "?s\<lparr>cm_calls := cm_calls s @ [(stage_idx m, DispatchSend (total_tokens m) (layer_idx m) i)]\<rparr>"
  have s: "in_flight tok ?s" by (rule in_flight_states [OF assms])
  have pend: "pending_of ?t = pending_of ?s" by (rule ext) (simp add: pending_of_def)
  have queue: "pending_of (cam_enqueue (stage_idx m) (ctx, i, w) ?t) k =
      (if k = stage_idx m then pending_of ?s k @ [(ctx, i, w)] else pending_of ?s k)" for k
    by (simp add: cam_queues.queue_put pend)
  have fields: "cm_calls (cam_enqueue k x u) = cm_calls u" "cm_states (cam_enqueue k x u) = cm_states u"
    "cm_topk (cam_enqueue k x u) = cm_topk u" for k x and u :: "'a cam" by (simp_all add: cam_enqueue_def)
  show ?thesis
    unfolding 3(5) in_flight_def
  proof (intro conjI allI impI)
    fix k
    have "dispatched_to k (cm_calls s) = combined_from k (cm_calls s) @ map (\<lambda>(c, ids, wts). (tok c, ids)) (pending_of ?s k)"
      using s by (simp add: in_flight_def)
    then show "dispatched_to k (cm_calls (cam_enqueue (stage_idx m) (ctx, i, w) ?t)) =
        combined_from k (cm_calls (cam_enqueue (stage_idx m) (ctx, i, w) ?t)) @
        map (\<lambda>(c, ids, wts). (tok c, ids)) (pending_of (cam_enqueue (stage_idx m) (ctx, i, w) ?t) k)"
      unfolding queue fields by (simp add: assms(2))
    define P where "P = (\<lambda>(c, ids :: 'a tensor, wts :: 'a tensor). cm_states ?s c \<noteq> None \<and> tn_shape ids = [tok c, cm_topk s] \<and> tn_shape wts = [tok c, cm_topk s])"
    have "list_all P (pending_of ?s k)" using s by (simp add: in_flight_def P_def)
    moreover have "P (ctx, i, w)" using 3(3,4) assms(2) by (simp add: P_def)
    ultimately have "list_all P (if k = stage_idx m then pending_of ?s k @ [(ctx, i, w)] else pending_of ?s k)"
      by (auto simp: list_all_iff)
    then show "list_all (\<lambda>(c, ids, wts). cm_states (cam_enqueue (stage_idx m) (ctx, i, w) ?t) c \<noteq> None \<and>
        tn_shape ids = [tok c, cm_topk (cam_enqueue (stage_idx m) (ctx, i, w) ?t)] \<and>
        tn_shape wts = [tok c, cm_topk (cam_enqueue (stage_idx m) (ctx, i, w) ?t)]) (pending_of (cam_enqueue (stage_idx m) (ctx, i, w) ?t) k)"
      unfolding queue fields by (simp add: P_def)
    fix c st
    assume "cm_states (cam_enqueue (stage_idx m) (ctx, i, w) ?t) c = Some st"
    then show "as_batch_size st = tok c" using s unfolding fields in_flight_def by simp
  qed
qed (use assms in_flight_states in auto)

lemma in_flight_recv:
  assumes "in_flight tok s"
  shows "in_flight tok (fst (cam_recv_ffn_output stage ctx s))"
proof (cases "cm_initialized s")
  case False
  then show ?thesis using assms by (simp add: cam_recv_ffn_output_def cam_require_initialized_def op_simps guard_def)
next
  case init: True
  have pend: "(case dict_get (cm_pending s) stage of None \<Rightarrow> [] | Some xs \<Rightarrow> xs) = pending_of s stage" by (simp add: pending_of_def)
  show ?thesis
  proof (cases "pending_of s stage")
    case Nil
    then show ?thesis using assms init
      by (simp add: cam_recv_ffn_output_def cam_require_initialized_def op_simps guard_def pend)
  next
    case (Cons x rest)
    obtain c i w where x: "x = (c, i, w)" by (cases x)
    show ?thesis
    proof (cases "ctx = None \<or> ctx = Some c")
      case False
      then show ?thesis using assms init
        by (auto simp: cam_recv_ffn_output_def cam_require_initialized_def op_simps guard_def pend Cons x)
    next
      case True
      from assms have "list_all (\<lambda>(c, ids, wts). cm_states s c \<noteq> None \<and> tn_shape ids = [tok c, cm_topk s] \<and> tn_shape wts = [tok c, cm_topk s])
          (pending_of s stage)" by (simp add: in_flight_def)
      then obtain st where st: "cm_states s c = Some st" "tn_shape i = [tok c, cm_topk s]" "tn_shape w = [tok c, cm_topk s]"
        by (auto simp: Cons x)
      then have batch: "as_batch_size st = tok c" using assms by (simp add: in_flight_def)
      have v: "validate_topk_payload i w (tok c) (cm_topk s) = Inr ()" using st by (simp add: validate_topk_Inr)
      have "fst (cam_recv_ffn_output stage ctx s) = (cam_dequeue stage s)\<lparr>cm_calls := cm_calls s @ [(stage, CombineRecv (tok c) i w)]\<rparr>"
        using True
      proof
        assume "ctx = None"
        then show ?thesis using init st batch v
          by (simp add: cam_recv_ffn_output_def cam_require_initialized_def require_async_state_def cam_issue_def op_simps guard_def pend Cons x cam_dequeue_def)
      next
        assume "ctx = Some c"
        then show ?thesis using init st batch v
          by (simp add: cam_recv_ffn_output_def cam_require_initialized_def require_async_state_def cam_issue_def op_simps guard_def pend Cons x cam_dequeue_def)
      qed
      moreover have "pending_of ((cam_dequeue stage s)\<lparr>cm_calls := l\<rparr>) k = (if k = stage then rest else pending_of s k)" for l k
        using cam_queues.queue_drop [of stage s k] Cons by (simp add: pending_of_def)
      moreover have "cm_states (cam_dequeue stage s) = cm_states s" "cm_topk (cam_dequeue stage s) = cm_topk s" by (simp_all add: cam_dequeue_def)
      moreover have "dispatched_to k (cm_calls s) = combined_from k (cm_calls s) @ (if k = stage then [(tok c, i)] else []) @
          map (\<lambda>(c, ids, wts). (tok c, ids)) (if k = stage then rest else pending_of s k)" for k
        using assms Cons x unfolding in_flight_def by simp
      moreover have "list_all (\<lambda>(c, ids, wts). cm_states s c \<noteq> None \<and> tn_shape ids = [tok c, cm_topk s] \<and> tn_shape wts = [tok c, cm_topk s])
          (if k = stage then rest else pending_of s k)" for k
      proof -
        have "list_all (\<lambda>(c, ids, wts). cm_states s c \<noteq> None \<and> tn_shape ids = [tok c, cm_topk s] \<and> tn_shape wts = [tok c, cm_topk s])
          (pending_of s k)" using assms by (simp add: in_flight_def)
        then show ?thesis using Cons by (cases "k = stage") simp_all
      qed
      moreover have "\<forall>c st. cm_states s c = Some st \<longrightarrow> as_batch_size st = tok c" using assms by (simp add: in_flight_def)
      ultimately show ?thesis unfolding in_flight_def by (simp only: cam.simps dispatched_to_append combined_from_append) auto
    qed
  qed
qed


section \<open>Answers\<close>

lemma recv_item_fields:
  assumes "recv_ffn_work_item out stage max_num_tokens s = (t, Inr item)"
  shows "wi_rows item = take (nat (sum_list (cr_group_list out))) (cr_rows out)" "wi_num_tokens item = sum_list (cr_group_list out)"
    "0 \<le> wi_num_tokens item" "wi_num_tokens item \<le> int (length (cr_rows out))" "as_batch_info (wi_state item) = Some (cr_batch_info out)"
    "wi_stage_idx item = stage" "seq_lens (wi_metadata item) = [wi_num_tokens item]" "cm_calls t = cm_calls s @ [(stage, DispatchRecv)]"
    "cm_initialized t" "layer_idx (wi_metadata item) = wi_layer_idx item" "py_get (cr_batch_info out) 2 = Inr (wi_layer_idx item)"
    "py_get (cr_batch_info out) 0 = Inr (wi_total_num_tokens item)"
  using assms
  by (auto simp: recv_ffn_work_item_def cam_recv_attn_output_def cam_require_initialized_def cam_issue_def op_bind_Inr guard_def Let_def
    new_async_state_def split: if_splits)

lemma send_item_fields:
  assumes "cm_initialized s" "as_batch_info (wi_state item) = Some info"
  shows "send_ffn_work_item_output zero item rows s =
    (s\<lparr>cm_calls := cm_calls s @ [(wi_stage_idx item, CombineSend (if wi_num_tokens item > 0 then rows else [zero]) info)]\<rparr>,
     Inr (if wi_num_tokens item > 0 then rows else [zero]))"
  using assms by (simp add: send_ffn_work_item_output_def cam_send_ffn_output_def cam_require_initialized_def cam_issue_def guard_def op_bind_def Let_def)

text \<open>C14: a received work item holds exactly the rows its local experts are to process, and the answer to it goes back on
  its stage under the metadata it came with: one row per routed row, or one row of zeros when there are none.\<close>
theorem work_item_is_answered:
  assumes "recv_ffn_work_item out stage max_num_tokens s = (t, Inr item)" "length (f (wi_rows item)) = length (wi_rows item)"
  shows "int (length (wi_rows item)) = sum_list (cr_group_list out) \<and>
    (\<exists>rows. send_ffn_work_item_output zero item (f (wi_rows item)) t =
       (t\<lparr>cm_calls := cm_calls s @ [(stage, DispatchRecv), (stage, CombineSend rows (cr_batch_info out))]\<rparr>, Inr rows) \<and>
     rows = (if wi_rows item = [] then [zero] else f (wi_rows item)) \<and> rows \<noteq> [])"
proof
  note i = recv_item_fields [OF assms(1)]
  show len: "int (length (wi_rows item)) = sum_list (cr_group_list out)" using i(1-4) by simp
  have "wi_num_tokens item > 0 \<longleftrightarrow> wi_rows item \<noteq> []" using len i(2) by (metis length_greater_0_conv of_nat_0_less_iff)
  then show "\<exists>rows. send_ffn_work_item_output zero item (f (wi_rows item)) t =
       (t\<lparr>cm_calls := cm_calls s @ [(stage, DispatchRecv), (stage, CombineSend rows (cr_batch_info out))]\<rparr>, Inr rows) \<and>
     rows = (if wi_rows item = [] then [zero] else f (wi_rows item)) \<and> rows \<noteq> []"
    using send_item_fields [OF i(9,5), of zero "f (wi_rows item)"] i(6,8) assms(2) by auto
qed

end
