(* ===== verification/Async_Two_Stream.thy ===== *)
theory Async_Two_Stream
  imports Async_Cam
begin

text \<open>
  The two-slot execution of \<open>async_ffn_two_stream.py\<close>: an asynchronous FFN rank receives and
  computes on one stream and sends on another, one transaction ahead.  The state is that of the
  Python objects; a log records, in the order the host issues them, the work queued on the two
  streams and what the host itself does with a slot.
\<close>

section \<open>Streams and events\<close>

text \<open>\<open>Compute k\<close> is the receive and the experts of slot \<open>k\<close>, by replay or eagerly; \<open>SendOut k\<close> its send.  An entry
  says the call was made: a failed one may have queued a part of its work.  \<open>SyncDone\<close> and \<open>SyncAll\<close> are host waits that returned.\<close>

datatype tw_op =
    Compute nat | RecordReady nat | WaitDone nat
  | SendOut nat | WaitReady nat | RecordDone nat
  | SyncDone nat | SyncAll | Release nat | ResetGraphs nat | CaptureSlot nat

datatype tw_stream = ComputeStream | SendStream | HostThread

fun tw_stream_of :: "tw_op \<Rightarrow> tw_stream" where
  "tw_stream_of (Compute _) = ComputeStream"
| "tw_stream_of (RecordReady _) = ComputeStream"
| "tw_stream_of (WaitDone _) = ComputeStream"
| "tw_stream_of (SendOut _) = SendStream"
| "tw_stream_of (WaitReady _) = SendStream"
| "tw_stream_of (RecordDone _) = SendStream"
| "tw_stream_of _ = HostThread"

text \<open>What happens before what.  An event is recorded on one stream only, so a wait for its latest record is one for all of them.\<close>

inductive tw_before :: "tw_op list \<Rightarrow> nat \<Rightarrow> nat \<Rightarrow> bool" for log where
  same: "i < j \<Longrightarrow> j < length log \<Longrightarrow> tw_stream_of (log ! i) = tw_stream_of (log ! j) \<Longrightarrow> tw_before log i j"
| host: "i < j \<Longrightarrow> j < length log \<Longrightarrow> tw_stream_of (log ! i) = HostThread \<Longrightarrow> tw_before log i j"
| ready: "i < j \<Longrightarrow> j < length log \<Longrightarrow> log ! i = RecordReady k \<Longrightarrow> log ! j = WaitReady k \<Longrightarrow> tw_before log i j"
| slot_done: "i < j \<Longrightarrow> j < length log \<Longrightarrow> log ! i = RecordDone k \<Longrightarrow> log ! j \<in> {WaitDone k, SyncDone k} \<Longrightarrow> tw_before log i j"
| all_done: "i < j \<Longrightarrow> j < length log \<Longrightarrow> log ! j = SyncAll \<Longrightarrow> tw_before log i j"
| trans: "tw_before log i j \<Longrightarrow> tw_before log j k \<Longrightarrow> tw_before log i k"

section \<open>State\<close>

record ('p, 'o, 't) tw_slot =
  sl_submitted :: bool
  sl_payload :: "'p option"
  sl_output :: "'o option"
  sl_tensors :: "'t list"
  sl_compute_graph :: bool
  sl_send_graph :: bool
  sl_pools :: bool

record ('p, 'o, 't) two_stream =
  tw_sequence :: int
  tw_capture_count :: int
  tw_replay_count :: int
  tw_pending :: bool
  tw_closed :: bool
  tw_failure :: "error option"
  tw_slots :: "('p, 'o, 't) tw_slot list"
  tw_compute_limit :: "int \<times> int"
  tw_send_limit :: int
  tw_log :: "tw_op list"

text \<open>The connector, the executor and the device, each answering by what has been issued so far.\<close>

record ('p, 'o, 't) tw_env =
  te_recv :: "tw_op list \<Rightarrow> 'p result"
  te_exec :: "tw_op list \<Rightarrow> 'p \<Rightarrow> 't list \<times> 'o result"
  te_send :: "tw_op list \<Rightarrow> 'o \<Rightarrow> 'p \<Rightarrow> unit result"
  te_replay :: "tw_op list \<Rightarrow> unit result"
  te_sync :: "tw_op list \<Rightarrow> unit result"

definition new_slot :: "('p, 'o, 't) tw_slot" where
  "new_slot = \<lparr>sl_submitted = False, sl_payload = None, sl_output = None, sl_tensors = [], sl_compute_graph = False,
     sl_send_graph = False, sl_pools = False\<rparr>"

text \<open>\<open>cubes\<close> and \<open>vectors\<close> are the cores the device has.\<close>

definition new_two_stream :: "async_extra \<Rightarrow> int \<Rightarrow> int \<Rightarrow> ('p, 'o, 't) two_stream result" where
  "new_two_stream x cubes vectors =
     (if ax_compute_aic x > cubes \<or> 2 * ax_compute_aic x > ax_compute_aiv x \<or> ax_compute_aiv x + ax_combine_aiv x > vectors
      then Inl (ValueError ''FFN two-stream core limits exceed the available 1:2 budget'')
      else Inr \<lparr>tw_sequence = 0, tw_capture_count = 0, tw_replay_count = 0, tw_pending = False, tw_closed = False, tw_failure = None,
                tw_slots = [new_slot, new_slot], tw_compute_limit = (ax_compute_aic x, ax_compute_aiv x),
                tw_send_limit = ax_combine_aiv x, tw_log = []\<rparr>)"

section \<open>Operations\<close>

definition tw_emit :: "tw_op list \<Rightarrow> (('p, 'o, 't) two_stream, unit) op" where
  "tw_emit ops = op_modify (\<lambda>s. s\<lparr>tw_log := tw_log s @ ops\<rparr>)"

definition tw_set_slot :: "nat \<Rightarrow> (('p, 'o, 't) tw_slot \<Rightarrow> ('p, 'o, 't) tw_slot) \<Rightarrow> (('p, 'o, 't) two_stream, unit) op" where
  "tw_set_slot k f = op_modify (\<lambda>s. s\<lparr>tw_slots := (tw_slots s)[k := f (tw_slots s ! k)]\<rparr>)"

definition tw_check_live :: "(('p, 'o, 't) two_stream, unit) op" where
  "tw_check_live = op_lift (\<lambda>s.
     if tw_failure s \<noteq> None then Inl (RuntimeError ''Async FFN two-stream failed; retain resources'')
     else guard (tw_closed s) (RuntimeError ''Async FFN two-stream is closed''))"

text \<open>\<open>except Exception as exc: self.failure = exc; raise\<close>.\<close>

definition tw_try :: "(('p, 'o, 't) two_stream, 'a) op \<Rightarrow> (('p, 'o, 't) two_stream, 'a) op" where
  "tw_try m = (\<lambda>s. case m s of (t, Inl e) \<Rightarrow> (t\<lparr>tw_failure := Some e\<rparr>, Inl e) | (t, Inr x) \<Rightarrow> (t, Inr x))"

definition tw_release :: "nat \<Rightarrow> (('p, 'o, 't) two_stream, unit) op" where
  "tw_release k = op_bind (tw_emit [Release k]) (\<lambda>_.
     tw_set_slot k (\<lambda>sl. sl\<lparr>sl_payload := None, sl_output := None, sl_tensors := []\<rparr>))"

definition tw_compute :: "('p, 'o, 't) tw_env \<Rightarrow> nat \<Rightarrow> (('p, 'o, 't) two_stream, unit) op" where
  "tw_compute env k =
     op_bind (op_lift (\<lambda>s. te_recv env (tw_log s))) (\<lambda>p.
     op_bind (tw_set_slot k (\<lambda>sl. sl\<lparr>sl_payload := Some p\<rparr>)) (\<lambda>_.
     op_bind (op_get (\<lambda>s. te_exec env (tw_log s) p)) (\<lambda>(ts, r).
     op_bind (tw_set_slot k (\<lambda>sl. sl\<lparr>sl_tensors := sl_tensors sl @ ts\<rparr>)) (\<lambda>_.
     op_bind (op_lift (\<lambda>_. r)) (\<lambda>out.
     tw_set_slot k (\<lambda>sl. sl\<lparr>sl_output := Some out\<rparr>))))))"

definition tw_send :: "('p, 'o, 't) tw_env \<Rightarrow> nat \<Rightarrow> (('p, 'o, 't) two_stream, unit) op" where
  "tw_send env k = op_lift (\<lambda>s. case (sl_payload (tw_slots s ! k), sl_output (tw_slots s ! k)) of
       (Some p, Some out) \<Rightarrow> te_send env (tw_log s) out p
     | _ \<Rightarrow> Inl AssertionError)"

definition tw_capture :: "('p, 'o, 't) tw_env \<Rightarrow> (('p, 'o, 't) two_stream, unit) op" where
  "tw_capture env =
     op_bind tw_check_live (\<lambda>_.
     op_bind (op_lift (\<lambda>s. guard (tw_pending s \<or> tw_capture_count s \<noteq> 0) (RuntimeError ''two-stream is not ready for capture''))) (\<lambda>_.
     op_bind (tw_try (op_mapM (\<lambda>k.
       op_bind (tw_emit [CaptureSlot k]) (\<lambda>_.
       op_bind (tw_set_slot k (\<lambda>sl. sl\<lparr>sl_compute_graph := True, sl_send_graph := True, sl_pools := True\<rparr>)) (\<lambda>_.
       op_bind (tw_compute env k) (\<lambda>_.
       op_bind (tw_send env k) (\<lambda>_.
       op_modify (\<lambda>s. s\<lparr>tw_capture_count := tw_capture_count s + 2\<rparr>)))))) [0, 1])) (\<lambda>_.
     op_modify (\<lambda>s. s\<lparr>tw_sequence := 0, tw_replay_count := 0\<rparr>))))"

definition tw_replay :: "('p, 'o, 't) tw_env \<Rightarrow> (('p, 'o, 't) two_stream, unit) op" where
  "tw_replay env = op_bind (op_lift (\<lambda>s. te_replay env (tw_log s))) (\<lambda>_.
     op_modify (\<lambda>s. s\<lparr>tw_replay_count := tw_replay_count s + 1\<rparr>))"

text \<open>One transaction: the slot is taken back from the one before it, then computes and sends.\<close>

definition tw_take_back :: "('p, 'o, 't) tw_env \<Rightarrow> nat \<Rightarrow> ('p, 'o, 't) tw_slot \<Rightarrow> (('p, 'o, 't) two_stream, unit) op" where
  "tw_take_back env k sl =
     op_bind (if sl_submitted sl \<and> \<not> sl_compute_graph sl
       then op_bind (op_lift (\<lambda>s. te_sync env (tw_log s))) (\<lambda>_. op_bind (tw_emit [SyncDone k]) (\<lambda>_. tw_release k))
       else op_return ()) (\<lambda>_.
     if sl_submitted sl then tw_emit [WaitDone k] else op_return ())"

definition tw_compute_send :: "('p, 'o, 't) tw_env \<Rightarrow> nat \<Rightarrow> ('p, 'o, 't) tw_slot \<Rightarrow> (('p, 'o, 't) two_stream, unit) op" where
  "tw_compute_send env k sl =
     op_bind (tw_emit [Compute k]) (\<lambda>_.
     op_bind (if sl_compute_graph sl then tw_replay env else tw_compute env k) (\<lambda>_.
     op_bind (tw_emit [RecordReady k, WaitReady k]) (\<lambda>_.
     op_bind (op_guard (sl_compute_graph sl \<and> \<not> sl_send_graph sl) AssertionError) (\<lambda>_.
     op_bind (tw_emit [SendOut k]) (\<lambda>_.
     op_bind (if sl_compute_graph sl then tw_replay env else tw_send env k) (\<lambda>_.
     tw_emit [RecordDone k]))))))"

definition tw_submit_one :: "('p, 'o, 't) tw_env \<Rightarrow> (('p, 'o, 't) two_stream, unit) op" where
  "tw_submit_one env =
     op_bind (op_get (\<lambda>s. nat (tw_sequence s mod 2))) (\<lambda>k.
     op_bind (op_get (\<lambda>s. tw_slots s ! k)) (\<lambda>sl.
     op_bind (tw_take_back env k sl) (\<lambda>_.
     op_bind (tw_compute_send env k sl) (\<lambda>_.
     op_bind (tw_set_slot k (\<lambda>sl. sl\<lparr>sl_submitted := True\<rparr>)) (\<lambda>_.
     op_modify (\<lambda>s. s\<lparr>tw_sequence := tw_sequence s + 1\<rparr>))))))"

definition tw_submit :: "('p, 'o, 't) tw_env \<Rightarrow> int \<Rightarrow> (('p, 'o, 't) two_stream, unit) op" where
  "tw_submit env count =
     op_bind tw_check_live (\<lambda>_.
     op_bind (op_lift (\<lambda>s. guard (tw_pending s \<or> count < 1) (RuntimeError ''two-stream is not ready for submission''))) (\<lambda>_.
     op_bind (op_modify (\<lambda>s. s\<lparr>tw_pending := True\<rparr>)) (\<lambda>_.
     op_bind (tw_try (op_mapM (\<lambda>_. tw_submit_one env) (py_range 0 count))) (\<lambda>_. op_return ()))))"

text \<open>\<open>wait\<close> is the caller's own wait for an event, if it has one.\<close>

definition tw_complete :: "('p, 'o, 't) tw_env \<Rightarrow> (tw_op list \<Rightarrow> unit result) option \<Rightarrow> (('p, 'o, 't) two_stream, bool) op" where
  "tw_complete env wait =
     op_bind tw_check_live (\<lambda>_.
     op_bind (op_lift (\<lambda>s. guard (\<not> tw_pending s) (RuntimeError ''two-stream has no pending submission''))) (\<lambda>_.
     op_bind (tw_try (case wait of
         None \<Rightarrow> op_bind (op_lift (\<lambda>s. te_sync env (tw_log s))) (\<lambda>_. tw_emit [SyncAll])
       | Some w \<Rightarrow> op_bind (op_lift (\<lambda>s. w (tw_log s))) (\<lambda>_.
           op_bind (op_get (\<lambda>s. nat ((tw_sequence s - 1) mod 2))) (\<lambda>k. tw_emit [SyncDone k])))) (\<lambda>_.
     op_bind (op_modify (\<lambda>s. s\<lparr>tw_pending := False\<rparr>)) (\<lambda>_.
     op_bind (op_get tw_capture_count) (\<lambda>n.
     op_bind (if n = 0 then op_bind (tw_release 0) (\<lambda>_. tw_release 1) else op_return ()) (\<lambda>_.
     op_return True))))))"

definition tw_close_slot :: "nat \<Rightarrow> (('p, 'o, 't) two_stream, unit) op" where
  "tw_close_slot k =
     op_bind (op_get (\<lambda>s. tw_slots s ! k)) (\<lambda>sl.
     op_bind (if sl_compute_graph sl \<or> sl_send_graph sl then tw_emit [ResetGraphs k] else op_return ()) (\<lambda>_.
     op_bind (tw_release k) (\<lambda>_.
     tw_set_slot k (\<lambda>sl. sl\<lparr>sl_compute_graph := False, sl_send_graph := False, sl_pools := False\<rparr>))))"

definition tw_close :: "bool \<Rightarrow> (('p, 'o, 't) two_stream, unit) op" where
  "tw_close receiver_exited = (\<lambda>s.
     if tw_closed s then (s, Inr ())
     else
       op_bind tw_check_live (\<lambda>_.
       op_bind (op_lift (\<lambda>s. guard (tw_pending s \<or> \<not> receiver_exited)
         (RuntimeError ''Two-stream resources require receiver exit and device completion''))) (\<lambda>_.
       op_bind (tw_close_slot 0) (\<lambda>_.
       op_bind (tw_close_slot 1) (\<lambda>_.
       op_modify (\<lambda>s. s\<lparr>tw_slots := [], tw_closed := True\<rparr>))))) s)"

section \<open>What is ordered\<close>

text \<open>The entries that use a slot: its buffers or its graphs.\<close>

fun touches :: "nat \<Rightarrow> tw_op \<Rightarrow> bool" where
  "touches k (Compute j) = (j = k)"
| "touches k (SendOut j) = (j = k)"
| "touches k (Release j) = (j = k)"
| "touches k (ResetGraphs j) = (j = k)"
| "touches k (CaptureSlot j) = (j = k)"
| "touches k _ = False"

definition slots_ordered :: "tw_op list \<Rightarrow> bool" where
  "slots_ordered log \<longleftrightarrow>
     (\<forall>i j k. i < j \<longrightarrow> j < length log \<longrightarrow> touches k (log ! i) \<longrightarrow> touches k (log ! j) \<longrightarrow> tw_before log i j)"

text \<open>Whatever is issued next on \<open>st\<close> comes after the entry: so does everything, if \<open>st\<close> is the host.\<close>

definition behind :: "tw_stream \<Rightarrow> tw_op list \<Rightarrow> nat \<Rightarrow> bool" where
  "behind st log i \<longleftrightarrow> (\<exists>w < length log. (tw_stream_of (log ! w) = st \<or> tw_stream_of (log ! w) = HostThread) \<and> (i = w \<or> tw_before log i w))"

definition done_by :: "tw_op list \<Rightarrow> nat \<Rightarrow> nat \<Rightarrow> bool" where
  "done_by log k i \<longleftrightarrow> (\<exists>d < length log. log ! d = RecordDone k \<and> tw_before log i d)"

definition all_behind :: "tw_stream \<Rightarrow> nat \<Rightarrow> tw_op list \<Rightarrow> bool" where
  "all_behind st k log \<longleftrightarrow> (\<forall>i < length log. touches k (log ! i) \<longrightarrow> behind st log i)"

lemma before_append: "tw_before log i j \<Longrightarrow> tw_before (log @ rest) i j"
proof (induction rule: tw_before.induct)
  case (same i j)
  then show ?case by (intro tw_before.same) (auto simp: nth_append)
next
  case (host i j)
  then show ?case by (intro tw_before.host) (auto simp: nth_append)
next
  case (ready i j k)
  then show ?case by (intro tw_before.ready [where k = k]) (auto simp: nth_append)
next
  case (slot_done i j k)
  then show ?case by (intro tw_before.slot_done [where k = k]) (auto simp: nth_append)
next
  case (all_done i j)
  then show ?case by (intro tw_before.all_done) (auto simp: nth_append)
next
  case (trans i j k)
  then show ?case by (blast intro: tw_before.trans)
qed

lemma behind_append: "behind st log i \<Longrightarrow> behind st (log @ rest) i"
  unfolding behind_def by (auto simp: nth_append intro: before_append)

lemma done_by_append: "done_by log k i \<Longrightarrow> done_by (log @ rest) k i"
proof -
  assume "done_by log k i"
  then obtain d where "d < length log" "log ! d = RecordDone k" "tw_before log i d" by (auto simp: done_by_def)
  then have "d < length (log @ rest)" "(log @ rest) ! d = RecordDone k" "tw_before (log @ rest) i d"
    by (auto simp: nth_append before_append)
  then show ?thesis by (auto simp: done_by_def)
qed

lemma behind_host: "behind HostThread log i \<Longrightarrow> behind st log i"
  by (auto simp: behind_def)

lemma before_next:
  assumes "behind st log i" "tw_stream_of x = st"
  shows "tw_before (log @ [x]) i (length log)"
proof -
  obtain w where w: "w < length log" "tw_stream_of (log ! w) = st \<or> tw_stream_of (log ! w) = HostThread" "i = w \<or> tw_before log i w"
    using assms(1) by (auto simp: behind_def)
  have "tw_before (log @ [x]) w (length log)"
    using w(2)
  proof
    assume "tw_stream_of (log ! w) = st"
    then show ?thesis using w(1) assms(2) by (intro tw_before.same) (simp_all add: nth_append)
  next
    assume "tw_stream_of (log ! w) = HostThread"
    then show ?thesis using w(1) by (intro tw_before.host) (simp_all add: nth_append)
  qed
  then show ?thesis using w(3) before_append tw_before.trans by blast
qed

lemma behind_self: "behind (tw_stream_of x) (log @ [x]) (length log)"
  unfolding behind_def by (rule exI [of _ "length log"]) simp

lemma before_behind: "tw_before (log @ [x]) i (length log) \<Longrightarrow> behind (tw_stream_of x) (log @ [x]) i"
  unfolding behind_def by (rule exI [of _ "length log"]) simp

lemma all_behind_snoc:
  assumes "all_behind st k log" "touches k x \<Longrightarrow> tw_stream_of x = st \<or> tw_stream_of x = HostThread"
  shows "all_behind st k (log @ [x])"
  unfolding all_behind_def
proof (intro allI impI)
  fix i assume i: "i < length (log @ [x])" "touches k ((log @ [x]) ! i)"
  show "behind st (log @ [x]) i"
  proof (cases "i < length log")
    case True
    then show ?thesis using i assms(1) by (simp add: all_behind_def nth_append behind_append)
  next
    case False
    then have il: "i = length log" using i(1) by simp
    then have "touches k x" using i(2) by simp
    with il show ?thesis using assms(2) behind_self [of x log] behind_host by metis
  qed
qed

lemma all_behind_host: "all_behind HostThread k log \<Longrightarrow> all_behind st k log"
  by (simp add: all_behind_def behind_host)

lemma slots_ordered_snoc:
  assumes "slots_ordered log" "\<And>k. touches k x \<Longrightarrow> all_behind (tw_stream_of x) k log"
  shows "slots_ordered (log @ [x])"
  unfolding slots_ordered_def
proof (intro allI impI)
  fix i j k assume a: "i < j" "j < length (log @ [x])" "touches k ((log @ [x]) ! i)" "touches k ((log @ [x]) ! j)"
  show "tw_before (log @ [x]) i j"
  proof (cases "j < length log")
    case True
    then show ?thesis using a assms(1) by (simp add: slots_ordered_def nth_append before_append)
  next
    case False
    then have "j = length log" "touches k x" "i < length log" "touches k (log ! i)" using a by (simp_all add: nth_append)
    then have "behind (tw_stream_of x) log i" using assms(2) [of k] unfolding all_behind_def by blast
    then show ?thesis using before_next \<open>j = length log\<close> by blast
  qed
qed

text \<open>Between calls: nothing pending, so the device is behind the host; or within a submission, where what is not behind the host is
  behind the done event of its own slot and behind that of the slot submitted last.\<close>

definition quiet :: "tw_op list \<Rightarrow> bool" where
  "quiet log \<longleftrightarrow> slots_ordered log \<and> (\<forall>k. all_behind HostThread k log)"

definition rest_done :: "nat \<Rightarrow> bool list \<Rightarrow> tw_op list \<Rightarrow> bool" where
  "rest_done k subs log \<longleftrightarrow>
     (\<forall>i < length log. \<forall>j. j \<noteq> k \<longrightarrow> touches j (log ! i) \<longrightarrow> behind HostThread log i \<or> (j < length subs \<and> subs ! j \<and> done_by log j i))"

definition busy :: "nat \<Rightarrow> bool list \<Rightarrow> tw_op list \<Rightarrow> bool" where
  "busy latest subs log \<longleftrightarrow> slots_ordered log \<and>
     (\<forall>i < length log. \<forall>j. touches j (log ! i) \<longrightarrow>
        behind HostThread log i \<or> (j < length subs \<and> subs ! j \<and> done_by log j i \<and> done_by log latest i))"

lemma rest_done_snoc:
  assumes "rest_done k subs log" "\<And>j. touches j x \<Longrightarrow> j = k"
  shows "rest_done k subs (log @ [x])"
  unfolding rest_done_def
proof (intro allI impI)
  fix i j assume a: "i < length (log @ [x])" "j \<noteq> k" "touches j ((log @ [x]) ! i)"
  then have i: "i < length log" using assms(2) [of j] by (cases "i < length log") (auto simp: nth_append)
  then have "touches j (log ! i)" using a by (simp add: nth_append)
  then show "behind HostThread (log @ [x]) i \<or> j < length subs \<and> subs ! j \<and> done_by (log @ [x]) j i"
    using assms(1) a(2) i behind_append done_by_append unfolding rest_done_def by blast
qed

lemma done_wait:
  assumes "done_by log k i" "x = WaitDone k \<or> x = SyncDone k"
  shows "behind (tw_stream_of x) (log @ [x]) i"
proof -
  obtain d where d: "d < length log" "log ! d = RecordDone k" "tw_before log i d" using assms(1) by (auto simp: done_by_def)
  have "tw_before (log @ [x]) d (length log)"
    using d(1,2) assms(2) by (intro tw_before.slot_done [where k = k]) (auto simp: nth_append)
  then show ?thesis using before_behind before_append [OF d(3)] tw_before.trans by blast
qed

lemma busy_wait:
  assumes "busy latest subs log" "x = WaitDone k \<or> x = SyncDone k"
  shows "all_behind (tw_stream_of x) k (log @ [x])" "rest_done k subs (log @ [x])" "slots_ordered (log @ [x])"
proof -
  have plain: "\<not> touches j x" for j using assms(2) by auto
  show "all_behind (tw_stream_of x) k (log @ [x])"
    unfolding all_behind_def
  proof (intro allI impI)
    fix i assume a: "i < length (log @ [x])" "touches k ((log @ [x]) ! i)"
    then have i: "i < length log" "touches k (log ! i)" using plain [of k] by (auto simp: nth_append less_Suc_eq)
    then have "behind HostThread log i \<or> done_by log k i" using assms(1) unfolding busy_def by blast
    then show "behind (tw_stream_of x) (log @ [x]) i"
      using done_wait [OF _ assms(2)] behind_append [OF behind_host] by blast
  qed
  have "rest_done k subs log" using assms(1) unfolding busy_def rest_done_def by blast
  then show "rest_done k subs (log @ [x])" by (rule rest_done_snoc) (simp add: plain)
  show "slots_ordered (log @ [x])" by (rule slots_ordered_snoc) (use assms(1) plain in \<open>auto simp: busy_def\<close>)
qed

lemma busy_unsubmitted:
  assumes "busy latest subs log" "k < length subs" "\<not> subs ! k"
  shows "all_behind HostThread k log" "rest_done k subs log" "slots_ordered log"
  using assms unfolding busy_def all_behind_def rest_done_def by blast+

lemma all_behind_before:
  assumes "all_behind st k log" "tw_stream_of x = st" "\<not> touches k x" "i < length (log @ [x])" "touches k ((log @ [x]) ! i)"
  shows "tw_before (log @ [x]) i (length log)"
proof -
  have i: "i < length log" "touches k (log ! i)" using assms(3-5) by (auto simp: nth_append less_Suc_eq)
  then show ?thesis using assms(1,2) before_next unfolding all_behind_def by blast
qed

text \<open>Compute, the ready event, its wait on the other stream, the send, the done event.\<close>

lemma ready_crosses:
  assumes "all_behind ComputeStream k log"
  shows "all_behind SendStream k (log @ [RecordReady k, WaitReady k])"
  unfolding all_behind_def
proof (intro allI impI)
  let ?l = "log @ [RecordReady k]"
  fix i assume a: "i < length (log @ [RecordReady k, WaitReady k])" "touches k ((log @ [RecordReady k, WaitReady k]) ! i)"
  then have i: "i < length log" "touches k (log ! i)" by (auto simp: nth_append less_Suc_eq split: if_splits)
  then have "tw_before ?l i (length log)" using all_behind_before [OF assms, of "RecordReady k" i] by (simp add: nth_append)
  then have "tw_before (?l @ [WaitReady k]) i (length log)" by (rule before_append)
  moreover have "tw_before (?l @ [WaitReady k]) (length log) (length ?l)"
    by (intro tw_before.ready [where k = k]) (simp_all add: nth_append)
  ultimately have "tw_before (?l @ [WaitReady k]) i (length ?l)" by (rule tw_before.trans)
  from before_behind [OF this] show "behind SendStream (log @ [RecordReady k, WaitReady k]) i" by simp
qed

lemma send_done:
  assumes "all_behind SendStream k log" "rest_done k subs log" "slots_ordered log" "k < length subs"
  shows "busy k (subs[k := True]) (log @ [RecordDone k])"
  unfolding busy_def
proof (intro conjI allI impI)
  let ?x = "RecordDone k"
  show "slots_ordered (log @ [?x])" by (rule slots_ordered_snoc) (use assms(3) in simp_all)
  fix i j assume a: "i < length (log @ [?x])" "touches j ((log @ [?x]) ! i)"
  then have i: "i < length log" "touches j (log ! i)" by (auto simp: nth_append less_Suc_eq)
  have last: "done_by (log @ [?x]) k i" if "behind SendStream log i"
    using before_next [OF that, of ?x] unfolding done_by_def by (intro exI [of _ "length log"]) simp
  show "behind HostThread (log @ [?x]) i \<or>
      j < length (subs[k := True]) \<and> subs[k := True] ! j \<and> done_by (log @ [?x]) j i \<and> done_by (log @ [?x]) k i"
  proof (cases "j = k")
    case True
    then show ?thesis using last assms(1,4) i by (simp add: all_behind_def)
  next
    case False
    then consider "behind HostThread log i" | "j < length subs" "subs ! j" "done_by log j i"
      using assms(2) i unfolding rest_done_def by blast
    then show ?thesis
    proof cases
      case 1
      then show ?thesis using behind_append by blast
    next
      case 2
      then obtain d where d: "d < length log" "log ! d = RecordDone j" "tw_before log i d" by (auto simp: done_by_def)
      then have "behind SendStream log i" unfolding behind_def by (intro exI [of _ d]) simp
      then show ?thesis using last 2 False done_by_append [OF 2(3)] by simp
    qed
  qed
qed

lemma busy_synced:
  assumes "busy latest subs log" "x = SyncAll \<or> x = SyncDone latest"
  shows "quiet (log @ [x])"
  unfolding quiet_def
proof (intro conjI allI)
  have plain: "\<not> touches j x" and hostx: "tw_stream_of x = HostThread" for j using assms(2) by auto
  show "slots_ordered (log @ [x])" by (rule slots_ordered_snoc) (use assms(1) plain in \<open>auto simp: busy_def\<close>)
  show "all_behind HostThread k (log @ [x])" for k
    unfolding all_behind_def
  proof (intro allI impI)
    fix i assume a: "i < length (log @ [x])" "touches k ((log @ [x]) ! i)"
    then have i: "i < length log" "touches k (log ! i)" using plain [of k] by (auto simp: nth_append less_Suc_eq)
    show "behind HostThread (log @ [x]) i"
      using assms(2)
    proof
      assume "x = SyncAll"
      then have "tw_before (log @ [x]) i (length log)" using i by (intro tw_before.all_done) simp_all
      from before_behind [OF this] show ?thesis by (simp add: hostx)
    next
      assume "x = SyncDone latest"
      moreover have "behind HostThread log i \<or> done_by log latest i" using assms(1) i unfolding busy_def by blast
      ultimately show ?thesis using done_wait [of log latest i x] behind_append hostx by auto
    qed
  qed
qed

lemma quiet_host:
  assumes "quiet log" "tw_stream_of x = HostThread"
  shows "quiet (log @ [x])"
  unfolding quiet_def
  by (intro conjI allI slots_ordered_snoc all_behind_snoc) (use assms in \<open>auto simp: quiet_def\<close>)

lemma quiet_busy: "quiet log \<Longrightarrow> busy latest subs log"
  by (simp add: quiet_def busy_def all_behind_def)

section \<open>What the calls keep\<close>

text \<open>What the ordering depends on besides the log.\<close>

definition tw_frame :: "('p, 'o, 't) two_stream \<Rightarrow> (bool \<times> bool \<times> error option) \<times> bool list \<times> int" where
  "tw_frame s = ((tw_pending s, tw_closed s, tw_failure s), map sl_submitted (tw_slots s), tw_sequence s)"

definition tw_at :: "(bool \<times> bool \<times> error option) \<times> bool list \<times> int \<Rightarrow> (tw_op list \<Rightarrow> bool) \<Rightarrow> ('p, 'o, 't) two_stream \<Rightarrow> bool" where
  "tw_at fr \<Psi> s \<longleftrightarrow> tw_frame s = fr \<and> \<Psi> (tw_log s)"

definition log_ok :: "('p, 'o, 't) two_stream \<Rightarrow> bool" where
  "log_ok s \<longleftrightarrow> slots_ordered (tw_log s)"

lemma map_list_update_same: "f (g (xs ! k)) = f (xs ! k) \<Longrightarrow> map f (xs[k := g (xs ! k)]) = map f xs"
  by (cases "k < length xs") (simp_all add: map_update list_update_same_conv list_update_beyond)

lemma set_slot_keeps: "(\<And>sl. sl_submitted (f sl) = sl_submitted sl) \<Longrightarrow> keeps (tw_at fr \<Psi>) (tw_set_slot k f)"
  by (simp add: tw_set_slot_def keeps_def tw_at_def tw_frame_def map_list_update_same)

lemma compute_keeps: "keeps (tw_at fr \<Psi>) (tw_compute env k)"
  unfolding tw_compute_def by (intro keeps_intros set_slot_keeps) simp_all

lemma send_keeps: "keeps (tw_at fr \<Psi>) (tw_send env k)"
  unfolding tw_send_def by (intro keeps_intros)

lemma replay_keeps: "keeps (tw_at fr \<Psi>) (tw_replay env)"
  unfolding tw_replay_def by (intro keeps_intros) (simp_all add: tw_at_def tw_frame_def)

lemma emit_spec: "(\<And>l. \<Psi> l \<Longrightarrow> \<Phi> (l @ ops)) \<Longrightarrow> op_spec (tw_at fr \<Psi>) (tw_emit ops) (\<lambda>_. tw_at fr \<Phi>) E"
  unfolding tw_emit_def by (rule spec_modify) (simp add: tw_at_def tw_frame_def)

lemma kept_spec: "keeps (tw_at fr \<Psi>) m \<Longrightarrow> (\<And>l. \<Psi> l \<Longrightarrow> slots_ordered l) \<Longrightarrow> op_spec (tw_at fr \<Psi>) m (\<lambda>_. tw_at fr \<Psi>) log_ok"
  by (rule spec_keeps) (auto simp: tw_at_def log_ok_def)

lemma release_spec:
  assumes "\<And>l. \<Psi> l \<Longrightarrow> \<Phi> (l @ [Release k])" "\<And>l. \<Phi> l \<Longrightarrow> slots_ordered l"
  shows "op_spec (tw_at fr \<Psi>) (tw_release k) (\<lambda>_. tw_at fr \<Phi>) log_ok"
  unfolding tw_release_def by (rule spec_bind [OF emit_spec kept_spec]) (use assms in \<open>auto intro: set_slot_keeps\<close>)

text \<open>The stages of one transaction of slot \<open>k\<close>.\<close>

definition at_stage :: "tw_stream \<Rightarrow> nat \<Rightarrow> bool list \<Rightarrow> tw_op list \<Rightarrow> bool" where
  "at_stage st k subs log \<longleftrightarrow> all_behind st k log \<and> rest_done k subs log \<and> slots_ordered log"

lemma at_stage_snoc:
  assumes "at_stage st k subs log" "touches k x \<Longrightarrow> tw_stream_of x = st" "\<And>j. touches j x \<Longrightarrow> j = k"
  shows "at_stage st k subs (log @ [x])"
proof -
  have a: "all_behind st k log" "rest_done k subs log" "slots_ordered log" using assms(1) by (simp_all add: at_stage_def)
  have "slots_ordered (log @ [x])"
  proof (rule slots_ordered_snoc [OF a(3)])
    fix j assume "touches j x"
    with assms(3) [OF this] assms(2) a(1) show "all_behind (tw_stream_of x) j log" by simp
  qed
  then show ?thesis unfolding at_stage_def using all_behind_snoc [OF a(1)] rest_done_snoc [OF a(2) assms(3)] assms(2) by blast
qed

lemma at_stage_host: "at_stage HostThread k subs log \<Longrightarrow> at_stage st k subs log"
  by (simp add: at_stage_def all_behind_host)

lemma at_stage_wait: "busy latest subs log \<Longrightarrow> x = WaitDone k \<or> x = SyncDone k \<Longrightarrow> at_stage (tw_stream_of x) k subs (log @ [x])"
  using busy_wait [of latest subs log x k] by (simp add: at_stage_def)

lemma at_stage_ready: "at_stage ComputeStream k subs log \<Longrightarrow> at_stage SendStream k subs (log @ [RecordReady k, WaitReady k])"
  using ready_crosses [of k log] at_stage_snoc [of ComputeStream k subs log "RecordReady k"]
    rest_done_snoc [of k subs "log @ [RecordReady k]" "WaitReady k"] slots_ordered_snoc [of "log @ [RecordReady k]" "WaitReady k"]
  by (simp add: at_stage_def)

lemma at_stage_done: "at_stage SendStream k subs log \<Longrightarrow> k < length subs \<Longrightarrow> busy k (subs[k := True]) (log @ [RecordDone k])"
  by (simp add: at_stage_def send_done)

lemma at_stage_ok: "at_stage st k subs log \<Longrightarrow> slots_ordered log"
  by (simp add: at_stage_def)

lemma take_back_spec:
  assumes "k < length subs" "sl_submitted sl = subs ! k"
  shows "op_spec (tw_at (fl, subs, seq) (busy latest subs)) (tw_take_back env k sl) (\<lambda>_. tw_at (fl, subs, seq) (at_stage ComputeStream k subs)) log_ok"
proof -
  let ?fr = "(fl, subs, seq)"
  have sync: "op_spec (tw_at ?fr (busy latest subs)) (op_lift (\<lambda>s. te_sync env (tw_log s))) (\<lambda>_. tw_at ?fr (busy latest subs)) log_ok"
    by (intro kept_spec keeps_intros) (simp add: busy_def)
  have emit: "op_spec (tw_at ?fr (busy latest subs)) (tw_emit [SyncDone k]) (\<lambda>_. tw_at ?fr (at_stage HostThread k subs)) log_ok"
    by (rule emit_spec) (use at_stage_wait [of latest subs _ "SyncDone k" k] in simp)
  have release: "op_spec (tw_at ?fr (at_stage HostThread k subs)) (tw_release k) (\<lambda>_. tw_at ?fr (at_stage HostThread k subs)) log_ok"
  proof (rule release_spec)
    fix l assume "at_stage HostThread k subs l"
    then show "at_stage HostThread k subs (l @ [Release k])" "slots_ordered l" by (auto intro: at_stage_snoc at_stage_ok)
  qed
  have free: "op_spec (tw_at ?fr (at_stage HostThread k subs)) (tw_emit [WaitDone k]) (\<lambda>_. tw_at ?fr (at_stage ComputeStream k subs)) log_ok"
    by (rule emit_spec, rule at_stage_snoc [OF at_stage_host]) simp_all
  have wait: "op_spec (tw_at ?fr (busy latest subs)) (tw_emit [WaitDone k]) (\<lambda>_. tw_at ?fr (at_stage ComputeStream k subs)) log_ok"
    by (rule emit_spec) (use at_stage_wait [of latest subs _ "WaitDone k" k] in simp)
  have none: "op_spec (tw_at ?fr (busy latest subs)) (op_return ()) (\<lambda>_. tw_at ?fr (busy latest subs)) log_ok"
    by (rule spec_return)
  consider "sl_submitted sl" "\<not> sl_compute_graph sl" | "sl_submitted sl" "sl_compute_graph sl" | "\<not> sl_submitted sl" by blast
  then show ?thesis
  proof cases
    case 1
    show ?thesis unfolding tw_take_back_def using 1 spec_bind [OF spec_bind [OF sync spec_bind [OF emit release]] free] by simp
  next
    case 2
    show ?thesis unfolding tw_take_back_def using 2 spec_bind [OF none wait] by simp
  next
    case 3
    have "busy latest subs l \<Longrightarrow> at_stage ComputeStream k subs l" for l
      using busy_unsubmitted [of latest subs l k] assms 3 all_behind_host by (simp add: at_stage_def)
    then have "op_spec (tw_at ?fr (busy latest subs)) (op_return ()) (\<lambda>_. tw_at ?fr (at_stage ComputeStream k subs)) log_ok"
      by (intro spec_return) (simp add: tw_at_def)
    then show ?thesis unfolding tw_take_back_def using 3 spec_bind [OF none] by simp
  qed
qed

lemma compute_send_spec:
  assumes "k < length subs"
  shows "op_spec (tw_at fr (at_stage ComputeStream k subs)) (tw_compute_send env k sl) (\<lambda>_. tw_at fr (busy k (subs[k := True]))) log_ok"
proof -
  have emits: "op_spec (tw_at fr (at_stage ComputeStream k subs)) (tw_emit [Compute k]) (\<lambda>_. tw_at fr (at_stage ComputeStream k subs)) log_ok"
    "op_spec (tw_at fr (at_stage ComputeStream k subs)) (tw_emit [RecordReady k, WaitReady k]) (\<lambda>_. tw_at fr (at_stage SendStream k subs)) log_ok"
    "op_spec (tw_at fr (at_stage SendStream k subs)) (tw_emit [SendOut k]) (\<lambda>_. tw_at fr (at_stage SendStream k subs)) log_ok"
    "op_spec (tw_at fr (at_stage SendStream k subs)) (tw_emit [RecordDone k]) (\<lambda>_. tw_at fr (busy k (subs[k := True]))) log_ok"
    using assms by (auto intro!: emit_spec intro: at_stage_snoc at_stage_ready at_stage_done)
  have keep: "op_spec (tw_at fr (at_stage st k subs)) m (\<lambda>_. tw_at fr (at_stage st k subs)) log_ok"
    if "keeps (tw_at fr (at_stage st k subs)) m" for st and m :: "(('a, 'b, 'c) two_stream, unit) op"
    by (rule kept_spec [OF that]) (rule at_stage_ok)
  have work: "op_spec (tw_at fr (at_stage st k subs)) (if cg then tw_replay env else tw_compute env k) (\<lambda>_. tw_at fr (at_stage st k subs)) log_ok"
    "op_spec (tw_at fr (at_stage st k subs)) (if cg then tw_replay env else tw_send env k) (\<lambda>_. tw_at fr (at_stage st k subs)) log_ok"
    "op_spec (tw_at fr (at_stage st k subs)) (op_guard b e :: (('a, 'b, 'c) two_stream, unit) op) (\<lambda>_. tw_at fr (at_stage st k subs)) log_ok" for st cg b e
    by (intro keep keeps_intros replay_keeps compute_keeps send_keeps)+
  show ?thesis
    unfolding tw_compute_send_def
    by (rule spec_bind [OF emits(1)] spec_bind [OF work(1)] spec_bind [OF emits(2)] spec_bind [OF work(3)]
      spec_bind [OF emits(3)] spec_bind [OF work(2)] emits(4))+
qed

lemma submit_one_spec:
  assumes k: "k = nat (seq mod 2)" and len: "length subs = 2"
  shows "op_spec (tw_at (fl, subs, seq) (busy latest subs)) (tw_submit_one env)
    (\<lambda>_. tw_at (fl, subs[k := True], seq + 1) (busy k (subs[k := True]))) log_ok"
proof -
  have kl: "k < length subs" using k len by simp
  have mark: "op_spec (tw_at (fl, subs, seq) \<Psi>) (tw_set_slot k (\<lambda>sl. sl\<lparr>sl_submitted := True\<rparr>)) (\<lambda>_. tw_at (fl, subs[k := True], seq) \<Psi>) log_ok" for \<Psi>
    unfolding tw_set_slot_def by (rule spec_modify) (auto simp: tw_at_def tw_frame_def map_update)
  have advance: "op_spec (tw_at (fl, subs[k := True], seq) \<Psi>) (op_modify (\<lambda>s. s\<lparr>tw_sequence := tw_sequence s + 1\<rparr>))
      (\<lambda>_. tw_at (fl, subs[k := True], seq + 1) \<Psi>) log_ok" for \<Psi>
    by (rule spec_modify) (auto simp: tw_at_def tw_frame_def)
  have go: "op_spec (tw_at (fl, subs, seq) (busy latest subs)) (op_bind (tw_take_back env k sl) (\<lambda>_. op_bind (tw_compute_send env k sl) (\<lambda>_.
     op_bind (tw_set_slot k (\<lambda>sl. sl\<lparr>sl_submitted := True\<rparr>)) (\<lambda>_. op_modify (\<lambda>s. s\<lparr>tw_sequence := tw_sequence s + 1\<rparr>)))))
     (\<lambda>_. tw_at (fl, subs[k := True], seq + 1) (busy k (subs[k := True]))) log_ok" if "sl_submitted sl = subs ! k" for sl
    by (rule spec_bind [OF take_back_spec [OF kl that]] spec_bind [OF compute_send_spec [OF kl]] spec_bind [OF mark] advance)+
  show ?thesis
    unfolding op_spec_def
  proof (intro allI impI)
    fix s :: "('a, 'b, 'c) two_stream" assume s: "tw_at (fl, subs, seq) (busy latest subs) s"
    then have "nat (tw_sequence s mod 2) = k" "sl_submitted (tw_slots s ! k) = subs ! k"
      using k kl by (auto simp: tw_at_def tw_frame_def)
    then show "case tw_submit_one env s of (t, Inl e) \<Rightarrow> log_ok t | (t, Inr x) \<Rightarrow> tw_at (fl, subs[k := True], seq + 1) (busy k (subs[k := True])) t"
      using op_specD [OF go s] by (simp add: tw_submit_one_def op_bind_def)
  qed
qed

text \<open>The session between calls: idle, with work pending, or over.\<close>

definition tw_loop :: "bool \<times> bool \<times> error option \<Rightarrow> ('p, 'o, 't) two_stream \<Rightarrow> bool" where
  "tw_loop fl s \<longleftrightarrow> (\<exists>subs seq. length subs = 2 \<and> tw_at (fl, subs, seq) (busy (nat ((seq - 1) mod 2)) subs) s)"

definition tw_idle :: "('p, 'o, 't) two_stream \<Rightarrow> bool" where
  "tw_idle s \<longleftrightarrow> (\<exists>subs seq. length subs = 2 \<and> tw_at ((False, False, None), subs, seq) quiet s)"

definition tw_over :: "('p, 'o, 't) two_stream \<Rightarrow> bool" where
  "tw_over s \<longleftrightarrow> log_ok s \<and> (tw_failure s \<noteq> None \<or> tw_closed s)"

definition tw_ok :: "('p, 'o, 't) two_stream \<Rightarrow> bool" where
  "tw_ok s \<longleftrightarrow> tw_idle s \<or> tw_loop (True, False, None) s \<or> tw_over s"

lemma tw_loop_ok: "tw_loop fl s \<Longrightarrow> log_ok s"
  by (auto simp: tw_loop_def tw_at_def log_ok_def busy_def)

lemma submit_loop_spec: "op_spec (tw_loop fl) (tw_submit_one env) (\<lambda>_. tw_loop fl) log_ok"
  unfolding op_spec_def
proof (intro allI impI)
  fix s :: "('a, 'b, 'c) two_stream" assume "tw_loop fl s"
  then obtain subs seq where a: "length subs = 2" "tw_at (fl, subs, seq) (busy (nat ((seq - 1) mod 2)) subs) s" by (auto simp: tw_loop_def)
  define k where "k = nat (seq mod 2)"
  have "tw_loop fl t" if "tw_at (fl, subs[k := True], seq + 1) (busy k (subs[k := True])) t" for t :: "('a, 'b, 'c) two_stream"
    unfolding tw_loop_def using that a(1) by (intro exI [of _ "subs[k := True]"] exI [of _ "seq + 1"]) (simp add: k_def)
  then show "case tw_submit_one env s of (t, Inl e) \<Rightarrow> log_ok t | (t, Inr x) \<Rightarrow> tw_loop fl t"
    using op_specD [OF submit_one_spec [OF k_def a(1)] a(2), of env] by (cases "tw_submit_one env s"; cases "snd (tw_submit_one env s)") auto
qed

lemma try_spec: "op_spec P m Q log_ok \<Longrightarrow> op_spec P (tw_try m) Q tw_over"
proof -
  assume m: "op_spec P m Q log_ok"
  show "op_spec P (tw_try m) Q tw_over"
    unfolding op_spec_def
  proof (intro allI impI)
    fix s assume "P s"
    from op_specD [OF m this] show "case tw_try m s of (t, Inl e) \<Rightarrow> tw_over t | (t, Inr x) \<Rightarrow> Q x t"
      by (cases "m s"; cases "snd (m s)") (auto simp: tw_try_def tw_over_def log_ok_def)
  qed
qed

lemma check_live_spec: "op_spec tw_ok tw_check_live (\<lambda>_ s. tw_idle s \<or> tw_loop (True, False, None) s) tw_ok"
  unfolding tw_check_live_def by (rule spec_lift) (auto simp: tw_ok_def tw_over_def guard_def split: if_splits)

lemma tw_pending_cases:
  "tw_idle s \<Longrightarrow> \<not> tw_pending s" "tw_loop (True, False, None) s \<Longrightarrow> tw_pending s"
  by (auto simp: tw_idle_def tw_loop_def tw_at_def tw_frame_def)

lemma idle_guard_spec:
  assumes "\<And>s. tw_pending s \<Longrightarrow> b s"
  shows "op_spec (\<lambda>s. tw_idle s \<or> tw_loop (True, False, None) s) (op_lift (\<lambda>s. guard (b s) e)) (\<lambda>_. tw_idle) tw_ok"
  by (rule spec_lift) (use assms tw_pending_cases in \<open>auto simp: tw_ok_def guard_def split: if_splits\<close>)

lemma over_ok: "op_spec P m Q tw_over \<Longrightarrow> op_spec P m Q tw_ok"
  by (rule spec_weaken [of P m Q tw_over]) (auto simp: tw_ok_def)

lemma submit_ok: "op_spec tw_ok (tw_submit env count) (\<lambda>_. tw_ok) tw_ok"
proof -
  have pend: "op_spec tw_idle (op_modify (\<lambda>s. s\<lparr>tw_pending := True\<rparr>)) (\<lambda>_. tw_loop (True, False, None)) tw_ok"
    by (rule spec_modify) (auto simp: tw_idle_def tw_loop_def tw_at_def tw_frame_def quiet_busy)
  have body: "op_spec (tw_loop (True, False, None)) (tw_try (op_mapM (\<lambda>_. tw_submit_one env) (py_range 0 count))) (\<lambda>_. tw_loop (True, False, None)) tw_ok"
    by (intro over_ok try_spec spec_mapM submit_loop_spec)
  have fin: "op_spec (tw_loop (True, False, None)) (op_return ()) (\<lambda>_. tw_ok) tw_ok" by (rule spec_return) (simp add: tw_ok_def)
  have ready: "op_spec (\<lambda>s. tw_idle s \<or> tw_loop (True, False, None) s) (op_lift (\<lambda>s. guard (tw_pending s \<or> count < 1) e)) (\<lambda>_. tw_idle) tw_ok" for e
    by (rule idle_guard_spec) simp
  show ?thesis unfolding tw_submit_def
    by (rule spec_bind [OF check_live_spec] spec_bind [OF ready] spec_bind [OF pend] spec_bind [OF body] fin)+
qed

lemma idle_keeps:
  assumes "\<And>fr. keeps (tw_at fr quiet) m"
  shows "op_spec tw_idle m (\<lambda>_. tw_idle) log_ok"
proof (rule spec_keeps)
  show "keeps tw_idle m" using assms unfolding keeps_def tw_idle_def by blast
qed (auto simp: tw_idle_def tw_at_def log_ok_def quiet_def)

lemma idle_modify:
  assumes "\<And>fr. keeps (tw_at fr quiet) (op_modify f)"
  shows "op_spec tw_idle (op_modify f) (\<lambda>_. tw_idle) E"
proof (rule spec_modify)
  show "tw_idle s \<Longrightarrow> tw_idle (f s)" for s using assms unfolding tw_idle_def keeps_def op_modify_app fst_conv by blast
qed

lemma idle_emit: "tw_stream_of x = HostThread \<Longrightarrow> op_spec tw_idle (tw_emit [x]) (\<lambda>_. tw_idle) E"
  unfolding tw_emit_def by (rule idle_modify) (auto simp: keeps_def tw_at_def tw_frame_def quiet_host)

lemma idle_set_slot: "(\<And>sl. sl_submitted (f sl) = sl_submitted sl) \<Longrightarrow> op_spec tw_idle (tw_set_slot k f) (\<lambda>_. tw_idle) E"
  unfolding tw_set_slot_def by (rule idle_modify) (rule set_slot_keeps [unfolded tw_set_slot_def])

lemma idle_release: "op_spec tw_idle (tw_release k) (\<lambda>_. tw_idle) E"
  unfolding tw_release_def by (rule spec_bind [OF idle_emit idle_set_slot]) simp_all

lemma idle_return: "op_spec tw_idle (op_return x) (\<lambda>_. tw_idle) E"
  by (rule spec_return)

lemma capture_ok: "op_spec tw_ok (tw_capture env) (\<lambda>_. tw_ok) tw_ok"
proof -
  have count: "op_spec tw_idle (op_modify (\<lambda>s. s\<lparr>tw_capture_count := tw_capture_count s + 2\<rparr>)) (\<lambda>_. tw_idle) log_ok"
    by (rule spec_modify) (auto simp: tw_idle_def tw_at_def tw_frame_def)
  have graphs: "op_spec tw_idle (tw_set_slot k (\<lambda>sl. sl\<lparr>sl_compute_graph := True, sl_send_graph := True, sl_pools := True\<rparr>)) (\<lambda>_. tw_idle) log_ok" for k
    by (rule idle_set_slot) simp
  have ready: "op_spec (\<lambda>s. tw_idle s \<or> tw_loop (True, False, None) s) (op_lift (\<lambda>s. guard (tw_pending s \<or> tw_capture_count s \<noteq> 0) e)) (\<lambda>_. tw_idle) tw_ok" for e
    by (rule idle_guard_spec) simp
  have one: "op_spec tw_idle (op_bind (tw_emit [CaptureSlot k]) (\<lambda>_.
       op_bind (tw_set_slot k (\<lambda>sl. sl\<lparr>sl_compute_graph := True, sl_send_graph := True, sl_pools := True\<rparr>)) (\<lambda>_.
       op_bind (tw_compute env k) (\<lambda>_.
       op_bind (tw_send env k) (\<lambda>_.
       op_modify (\<lambda>s. s\<lparr>tw_capture_count := tw_capture_count s + 2\<rparr>)))))) (\<lambda>_. tw_idle) log_ok" for k
    by (rule spec_bind [OF idle_emit [of "CaptureSlot k", simplified]] spec_bind [OF graphs] spec_bind [OF idle_keeps [OF compute_keeps]]
      spec_bind [OF idle_keeps [OF send_keeps]] count)+
  have reset: "op_spec tw_idle (op_modify (\<lambda>s. s\<lparr>tw_sequence := 0, tw_replay_count := 0\<rparr>)) (\<lambda>_. tw_ok) tw_ok"
    by (rule spec_modify) (auto simp: tw_ok_def tw_idle_def tw_at_def tw_frame_def)
  show ?thesis unfolding tw_capture_def
    by (rule spec_bind [OF check_live_spec] spec_bind [OF ready] spec_bind [OF over_ok [OF try_spec [OF spec_mapM [OF one]]]] reset)+
qed

lemma complete_ok: "op_spec tw_ok (tw_complete env wait) (\<lambda>_. tw_ok) tw_ok"
proof -
  let ?busy = "tw_loop (True, False, None)"
  have due: "op_spec (\<lambda>s. tw_idle s \<or> ?busy s) (op_lift (\<lambda>s. guard (\<not> tw_pending s) e)) (\<lambda>_. ?busy) tw_ok" for e
    by (rule spec_lift) (use tw_pending_cases in \<open>auto simp: tw_ok_def guard_def split: if_splits\<close>)
  define synced where "synced = (\<lambda>s :: ('a, 'b, 'c) two_stream. \<exists>subs seq. length subs = 2 \<and> tw_at ((True, False, None), subs, seq) quiet s)"
  have asked: "op_spec ?busy (op_lift f) (\<lambda>_. ?busy) log_ok" for f :: "('a, 'b, 'c) two_stream \<Rightarrow> unit result"
    by (rule spec_lift) (auto simp: tw_loop_ok)
  have all: "op_spec ?busy (tw_emit [SyncAll]) (\<lambda>_. synced) log_ok"
    unfolding tw_emit_def synced_def
    by (rule spec_modify) (auto simp: tw_loop_def tw_at_def tw_frame_def intro: busy_synced)
  have latest: "op_spec ?busy (op_bind (op_get (\<lambda>s. nat ((tw_sequence s - 1) mod 2))) (\<lambda>k. tw_emit [SyncDone k])) (\<lambda>_. synced) log_ok"
    unfolding tw_emit_def synced_def op_spec_def
    by (auto simp: op_bind_def tw_loop_def tw_at_def tw_frame_def intro: busy_synced)
  have wait: "op_spec ?busy (case wait of
         None \<Rightarrow> op_bind (op_lift (\<lambda>s. te_sync env (tw_log s))) (\<lambda>_. tw_emit [SyncAll])
       | Some w \<Rightarrow> op_bind (op_lift (\<lambda>s. w (tw_log s))) (\<lambda>_.
           op_bind (op_get (\<lambda>s. nat ((tw_sequence s - 1) mod 2))) (\<lambda>k. tw_emit [SyncDone k]))) (\<lambda>_. synced) log_ok"
    using spec_bind [OF asked all] spec_bind [OF asked latest] by (cases wait) simp_all
  have clear: "op_spec synced (op_modify (\<lambda>s. s\<lparr>tw_pending := False\<rparr>)) (\<lambda>_. tw_idle) tw_ok"
    by (rule spec_modify) (auto simp: synced_def tw_idle_def tw_at_def tw_frame_def)
  have count: "op_spec tw_idle (op_get tw_capture_count) (\<lambda>_. tw_idle) tw_ok" by (simp add: op_spec_def)
  have free: "op_spec tw_idle (if n = 0 then op_bind (tw_release 0) (\<lambda>_. tw_release 1) else op_return ()) (\<lambda>_. tw_idle) tw_ok" for n :: int
    by (rule spec_if [OF spec_bind [OF idle_release idle_release] idle_return])
  have fin: "op_spec tw_idle (op_return True) (\<lambda>_. tw_ok) tw_ok" by (rule spec_return) (simp add: tw_ok_def)
  show ?thesis unfolding tw_complete_def
    by (rule spec_bind [OF check_live_spec] spec_bind [OF due] spec_bind [OF over_ok [OF try_spec [OF wait]]]
      spec_bind [OF clear] spec_bind [OF count] spec_bind [OF free] fin)+
qed

lemma close_slot_spec: "op_spec tw_idle (tw_close_slot k) (\<lambda>_. tw_idle) E"
proof -
  have reset: "op_spec tw_idle (if b then tw_emit [ResetGraphs k] else op_return ()) (\<lambda>_. tw_idle) E" for b
    by (rule spec_if [OF idle_emit idle_return]) simp
  have drop: "op_spec tw_idle (tw_set_slot k (\<lambda>sl. sl\<lparr>sl_compute_graph := False, sl_send_graph := False, sl_pools := False\<rparr>)) (\<lambda>_. tw_idle) E"
    by (rule idle_set_slot) simp
  have get: "op_spec tw_idle (op_get f) (\<lambda>_. tw_idle) E" for f :: "('a, 'b, 'c) two_stream \<Rightarrow> ('a, 'b, 'c) tw_slot"
    by (simp add: op_spec_def)
  show ?thesis unfolding tw_close_slot_def
    by (rule spec_bind [OF get] spec_bind [OF reset] spec_bind [OF idle_release] drop)+
qed

lemma close_ok: "op_spec tw_ok (tw_close receiver_exited) (\<lambda>_. tw_ok) tw_ok"
proof -
  have ready: "op_spec (\<lambda>s. tw_idle s \<or> tw_loop (True, False, None) s) (op_lift (\<lambda>s. guard (tw_pending s \<or> \<not> receiver_exited) e)) (\<lambda>_. tw_idle) tw_ok" for e
    by (rule idle_guard_spec) simp
  have fin: "op_spec tw_idle (op_modify (\<lambda>s. s\<lparr>tw_slots := [], tw_closed := True\<rparr>)) (\<lambda>_. tw_ok) tw_ok"
    by (rule spec_modify) (auto simp: tw_ok_def tw_over_def log_ok_def tw_idle_def tw_at_def quiet_def)
  have live: "op_spec tw_ok (op_bind tw_check_live (\<lambda>_. op_bind (op_lift (\<lambda>s. guard (tw_pending s \<or> \<not> receiver_exited)
         (RuntimeError ''Two-stream resources require receiver exit and device completion''))) (\<lambda>_.
       op_bind (tw_close_slot 0) (\<lambda>_. op_bind (tw_close_slot 1) (\<lambda>_. op_modify (\<lambda>s. s\<lparr>tw_slots := [], tw_closed := True\<rparr>)))))) (\<lambda>_. tw_ok) tw_ok"
    by (rule spec_bind [OF check_live_spec] spec_bind [OF ready] spec_bind [OF close_slot_spec] fin)+
  show ?thesis
    unfolding op_spec_def
  proof (intro allI impI)
    fix s :: "('a, 'b, 'c) two_stream" assume "tw_ok s"
    then show "case tw_close receiver_exited s of (t, Inl e) \<Rightarrow> tw_ok t | (t, Inr x) \<Rightarrow> tw_ok t"
      using op_specD [OF live] by (cases "tw_closed s") (simp_all add: tw_close_def)
  qed
qed

section \<open>Properties\<close>

text \<open>What the runner asks of its session, in any order.\<close>

datatype tw_request = Capture | Submit int | Complete "(tw_op list \<Rightarrow> unit result) option" | Close bool

fun tw_request_step :: "('p, 'o, 't) tw_env \<Rightarrow> tw_request \<Rightarrow> ('p, 'o, 't) two_stream \<Rightarrow> ('p, 'o, 't) two_stream" where
  "tw_request_step env Capture s = fst (tw_capture env s)"
| "tw_request_step env (Submit n) s = fst (tw_submit env n s)"
| "tw_request_step env (Complete w) s = fst (tw_complete env w s)"
| "tw_request_step env (Close b) s = fst (tw_close b s)"

lemma spec_fst: "op_spec P m (\<lambda>_. P) P \<Longrightarrow> P s \<Longrightarrow> P (fst (m s))"
  using op_specD [of P m "\<lambda>_. P" P s] by (cases "m s"; cases "snd (m s)") auto

lemma request_keeps_ok: "tw_ok s \<Longrightarrow> tw_ok (tw_request_step env r s)"
  by (cases r) (simp_all add: spec_fst capture_ok submit_ok complete_ok close_ok)

text \<open>C5: a slot's buffers and graphs are never used by two things at once: whatever is asked of a session, whatever
  fails, each use of a slot (receive and compute, send, release, reset, capture) is ordered after all earlier uses of
  it, by the streams, their events and the host.\<close>
theorem two_stream_slots_are_race_free:
  assumes "new_two_stream x cubes vectors = Inr s" "log = tw_log (fold (tw_request_step env) requests s)"
    and "i < j" "j < length log" "touches k (log ! i)" "touches k (log ! j)"
  shows "tw_before log i j"
proof -
  have "tw_at ((False, False, None), [False, False], 0) quiet s"
    using assms(1) by (auto simp: new_two_stream_def new_slot_def tw_at_def tw_frame_def quiet_def slots_ordered_def all_behind_def split: if_splits)
  then have "tw_ok s" unfolding tw_ok_def tw_idle_def by (intro disjI1 exI [of _ "[False, False]"] exI [of _ 0]) simp
  then have "tw_ok (fold (tw_request_step env) requests s)"
    by (induction requests arbitrary: s) (simp_all add: request_keeps_ok)
  then have "slots_ordered log"
    unfolding assms(2) tw_ok_def tw_over_def log_ok_def using tw_loop_ok [unfolded log_ok_def]
    by (auto simp: tw_idle_def tw_at_def quiet_def)
  then show ?thesis using assms(3-6) by (simp add: slots_ordered_def)
qed

text \<open>Once a call has failed on the device, the session is frozen: every later request leaves it as it is, its slots held
  and nothing more issued.\<close>
theorem failed_session_is_frozen:
  assumes "tw_failure (fold (tw_request_step env) before s) \<noteq> None" "\<not> tw_closed (fold (tw_request_step env) before s)"
  shows "fold (tw_request_step env) (before @ after) s = fold (tw_request_step env) before s"
proof -
  have "fold (tw_request_step env) after t = t" if "tw_failure t \<noteq> None" "\<not> tw_closed t" for t
    using that
  proof (induction after)
    case (Cons r after)
    then have "tw_request_step env r t = t"
      by (cases r) (simp_all add: tw_capture_def tw_submit_def tw_complete_def tw_close_def tw_check_live_def op_bind_def)
    then show ?case using Cons by simp
  qed simp
  then show ?thesis using assms by simp
qed

end
