(* ===== verification/Async_Startup.thy ===== *)
theory Async_Startup
  imports AFD_Prelude
begin

text \<open>
  \<open>async_cam_startup.py\<close>: the FFN ranks' graph plans are resolved to one execution mode, and the
  ranks walk through start-up phases together, each publishing keys in a shared store and
  waiting for those of the others.  Ranks step independently; every store access is one step.
\<close>

section \<open>Resolving the plans\<close>

record graph_plan =
  gp_requested :: string
  gp_graph_error :: string
  gp_signature :: string
  gp_layer_ids :: "int list"
  gp_stream_signature :: string
  gp_stream_error :: string

definition all_same :: "'a list \<Rightarrow> bool" where
  "all_same xs \<longleftrightarrow> length (remdups xs) = 1"

definition resolve_ffn_mode :: "graph_plan list \<Rightarrow> string result" where
  "resolve_ffn_mode plans =
     (if plans = [] \<or> \<not> all_same (map gp_requested plans) then Inl (ValueError ''All FFN ranks must request the same execution mode'')
      else if \<not> all_same (map gp_stream_signature plans) then Inl (ValueError ''FFN two-stream execution signatures differ across ranks'')
      else if list_ex (\<lambda>p. gp_stream_error p \<noteq> []) plans then Inl (ValueError ''Async FFN two-stream is unsupported'')
      else
        let mode = gp_requested (plans ! 0) in
        if mode = ''eager'' \<and> gp_stream_signature (plans ! 0) = [] then Inr ''eager''
        else if mode \<noteq> ''eager'' \<and> mode \<noteq> ''full'' then Inl (ValueError ''Unknown Async FFN execution mode'')
        else if list_ex (\<lambda>p. gp_graph_error p \<noteq> []) plans \<or>
          length (remdups (map gp_signature (filter (\<lambda>p. gp_graph_error p = []) plans))) > 1
        then Inl (ValueError ''Async FFN execution is unsupported'')
        else if gp_signature (plans ! 0) = [] \<or> gp_layer_ids (plans ! 0) = []
        then Inl (ValueError ''requires a loaded executor signature'')
        else if \<not> all_same (map gp_layer_ids plans) then Inl (ValueError ''Async FFN layer tables differ across ranks'')
        else Inr mode)"

text \<open>What a rank publishes: its transport signature and, on an FFN rank, its plan.  The JSON text in between is not
  modelled: a plan reads back as it was written.\<close>

type_synonym startup_entry = "string \<times> graph_plan option"

record startup_decision =
  sd_mode :: string
  sd_two_stream :: bool
  sd_warmup_layer :: "int option"

fun plan_of_entry :: "startup_entry \<Rightarrow> graph_plan result" where
  "plan_of_entry (transport, Some p) = Inr p"
| "plan_of_entry (transport, None) = Inl (TypeError ''NoneType'')"

definition decide :: "nat \<Rightarrow> startup_entry list \<Rightarrow> startup_decision result" where
  "decide attn_size entries =
     bind_result (map_result plan_of_entry (drop attn_size entries)) (\<lambda>plans.
     bind_result (resolve_ffn_mode plans) (\<lambda>mode.
     let two = (gp_stream_signature (plans ! 0) \<noteq> []) in
     bind_result (guard ((mode = ''full'' \<or> two) \<and> \<not> all_same (map fst entries))
       (ValueError ''Async CAM graph transport signatures differ'')) (\<lambda>_.
     Inr \<lparr>sd_mode = mode, sd_two_stream = two,
          sd_warmup_layer = (if mode = ''full'' then Some (gp_layer_ids (plans ! 0) ! 0) else None)\<rparr>)))"

section \<open>The ranks\<close>

text \<open>
  \<open>Work\<close> is local work that may raise; the flag tells whether its exception is published by \<open>fail\<close>.
  \<open>CheckFailure\<close> is the \<open>check_failure\<close> of \<open>service_ready\<close>, whose exception is not.  \<open>Publish\<close> sets the rank's key of a stage, \<open>Await\<close> is the
  loop of \<open>_wait\<close> over the keys of the ranks it names, \<open>Decide\<close> reads the plans.
\<close>

datatype instr = Work string bool | CheckFailure | Publish string | Await string "nat set" | Decide

definition phase :: "nat \<Rightarrow> string \<Rightarrow> instr list" where
  "phase world stage = [Publish stage, Await stage {..<world}]"

text \<open>\<open>_negotiate\<close> up to the decision, what follows it, and the callers' phases of a FULL start.\<close>

definition negotiate :: "nat \<Rightarrow> instr list" where
  "negotiate world = phase world ''plan'' @ [Decide]"

definition after_decision :: "nat \<Rightarrow> nat \<Rightarrow> nat \<Rightarrow> startup_decision \<Rightarrow> instr list" where
  "after_decision attn_size world r d =
     (if sd_two_stream d
      then (if r < attn_size then [Work ''validate_attention_streams'' True] else []) @ phase world ''streams-validated'' else []) @
     (if sd_mode d = ''full'' then [Work ''validate_graph_capacity'' True] @ phase world ''validated'' else []) @
     [Work ''init_afd_process_group'' (r \<ge> attn_size)] @
     (if sd_mode d = ''full''
      then [Work ''warmup'' True] @ phase world ''warmup'' @
        (if r < attn_size then phase world ''captured'' @ [Await ''service'' {attn_size..<world}]
         else [Work ''capture'' True] @ phase world ''captured'' @ [CheckFailure, Publish ''service''])
      else [])"

datatype rank_status = Running | Polling | Failing error | Failed error

record rank_state =
  rk_todo :: "instr list"
  rk_passed :: "instr list"
  rk_status :: rank_status
  rk_decision :: "startup_decision option"

record startup_state =
  su_ranks :: "nat \<Rightarrow> rank_state"
  su_published :: "(string \<times> nat) set"
  su_errors :: "nat \<Rightarrow> error option"

definition initial_startup :: "nat \<Rightarrow> startup_state" where
  "initial_startup world =
     \<lparr>su_ranks = (\<lambda>_. \<lparr>rk_todo = negotiate world, rk_passed = [], rk_status = Running, rk_decision = None\<rparr>),
      su_published = {}, su_errors = (\<lambda>_. None)\<rparr>"

definition set_rank :: "nat \<Rightarrow> rank_state \<Rightarrow> startup_state \<Rightarrow> startup_state" where
  "set_rank r k s = s\<lparr>su_ranks := (su_ranks s)(r := k)\<rparr>"

definition pass_instr :: "rank_state \<Rightarrow> rank_state" where
  "pass_instr k = k\<lparr>rk_todo := tl (rk_todo k), rk_passed := rk_passed k @ [hd (rk_todo k)], rk_status := Running\<rparr>"

text \<open>
  One step of rank \<open>r\<close>.  \<open>entry\<close> is what each rank publishes as its plan.  A running rank at an
  \<open>Await\<close> first looks for errors, then polls the keys, and only then may find its deadline passed.
\<close>

inductive startup_step :: "nat \<Rightarrow> nat \<Rightarrow> (nat \<Rightarrow> startup_entry) \<Rightarrow> startup_state \<Rightarrow> startup_state \<Rightarrow> bool"
  for attn_size world entry where
  work: "r < world \<Longrightarrow> su_ranks s r = k \<Longrightarrow> rk_status k = Running \<Longrightarrow> rk_todo k = Work w rep # rest \<Longrightarrow>
    startup_step attn_size world entry s (set_rank r (pass_instr k) s)"
| work_raises: "r < world \<Longrightarrow> su_ranks s r = k \<Longrightarrow> rk_status k = Running \<Longrightarrow> rk_todo k = Work w rep # rest \<Longrightarrow>
    startup_step attn_size world entry s (set_rank r (k\<lparr>rk_status := (if rep then Failing e else Failed e)\<rparr>) s)"
| check_passes: "r < world \<Longrightarrow> su_ranks s r = k \<Longrightarrow> rk_status k = Running \<Longrightarrow> rk_todo k = CheckFailure # rest \<Longrightarrow>
    \<forall>q < world. su_errors s q = None \<Longrightarrow>
    startup_step attn_size world entry s (set_rank r (pass_instr k) s)"
| check_raises: "r < world \<Longrightarrow> su_ranks s r = k \<Longrightarrow> rk_status k = Running \<Longrightarrow> rk_todo k = CheckFailure # rest \<Longrightarrow>
    q < world \<Longrightarrow> su_errors s q = Some e \<Longrightarrow>
    startup_step attn_size world entry s (set_rank r (k\<lparr>rk_status := Failed (RuntimeError ''startup'')\<rparr>) s)"
| publish: "r < world \<Longrightarrow> su_ranks s r = k \<Longrightarrow> rk_status k = Running \<Longrightarrow> rk_todo k = Publish st # rest \<Longrightarrow>
    startup_step attn_size world entry s (set_rank r (pass_instr k) (s\<lparr>su_published := insert (st, r) (su_published s)\<rparr>))"
| no_failure: "r < world \<Longrightarrow> su_ranks s r = k \<Longrightarrow> rk_status k = Running \<Longrightarrow> rk_todo k = Await st R # rest \<Longrightarrow>
    \<forall>q < world. su_errors s q = None \<Longrightarrow>
    startup_step attn_size world entry s (set_rank r (k\<lparr>rk_status := Polling\<rparr>) s)"
| failure_seen: "r < world \<Longrightarrow> su_ranks s r = k \<Longrightarrow> rk_status k = Running \<Longrightarrow> rk_todo k = Await st R # rest \<Longrightarrow>
    q < world \<Longrightarrow> su_errors s q = Some e \<Longrightarrow>
    startup_step attn_size world entry s (set_rank r (k\<lparr>rk_status := Failing (RuntimeError ''startup'')\<rparr>) s)"
| ready: "r < world \<Longrightarrow> su_ranks s r = k \<Longrightarrow> rk_status k = Polling \<Longrightarrow> rk_todo k = Await st R # rest \<Longrightarrow>
    \<forall>q \<in> R. (st, q) \<in> su_published s \<Longrightarrow>
    startup_step attn_size world entry s (set_rank r (pass_instr k) s)"
| poll_again: "r < world \<Longrightarrow> su_ranks s r = k \<Longrightarrow> rk_status k = Polling \<Longrightarrow> rk_todo k = Await st R # rest \<Longrightarrow>
    \<not> (\<forall>q \<in> R. (st, q) \<in> su_published s) \<Longrightarrow>
    startup_step attn_size world entry s (set_rank r (k\<lparr>rk_status := Running\<rparr>) s)"
| timed_out: "r < world \<Longrightarrow> su_ranks s r = k \<Longrightarrow> rk_status k = Polling \<Longrightarrow> rk_todo k = Await st R # rest \<Longrightarrow>
    \<not> (\<forall>q \<in> R. (st, q) \<in> su_published s) \<Longrightarrow>
    startup_step attn_size world entry s (set_rank r (k\<lparr>rk_status := Failing TimeoutError\<rparr>) s)"
| decided: "r < world \<Longrightarrow> su_ranks s r = k \<Longrightarrow> rk_status k = Running \<Longrightarrow> rk_todo k = Decide # rest \<Longrightarrow>
    decide attn_size (map entry [0..<world]) = Inr d \<Longrightarrow>
    startup_step attn_size world entry s
      (set_rank r ((pass_instr k)\<lparr>rk_todo := after_decision attn_size world r d, rk_decision := Some d\<rparr>) s)"
| undecided: "r < world \<Longrightarrow> su_ranks s r = k \<Longrightarrow> rk_status k = Running \<Longrightarrow> rk_todo k = Decide # rest \<Longrightarrow>
    decide attn_size (map entry [0..<world]) = Inl e \<Longrightarrow>
    startup_step attn_size world entry s (set_rank r (k\<lparr>rk_status := Failing e\<rparr>) s)"
| error_published: "r < world \<Longrightarrow> su_ranks s r = k \<Longrightarrow> rk_status k = Failing e \<Longrightarrow>
    startup_step attn_size world entry s (set_rank r (k\<lparr>rk_status := Failed e\<rparr>) (s\<lparr>su_errors := (su_errors s)(r := Some e)\<rparr>))"

inductive startup_reachable :: "nat \<Rightarrow> nat \<Rightarrow> (nat \<Rightarrow> startup_entry) \<Rightarrow> startup_state \<Rightarrow> bool"
  for attn_size world entry where
  start: "startup_reachable attn_size world entry (initial_startup world)"
| move: "startup_reachable attn_size world entry s \<Longrightarrow> startup_step attn_size world entry s t \<Longrightarrow>
    startup_reachable attn_size world entry t"

section \<open>What every start-up keeps\<close>

definition startup_program :: "nat \<Rightarrow> nat \<Rightarrow> nat \<Rightarrow> startup_decision option \<Rightarrow> instr list" where
  "startup_program attn_size world r d =
     negotiate world @ (case d of None \<Rightarrow> [] | Some d \<Rightarrow> after_decision attn_size world r d)"

definition rank_ok :: "nat \<Rightarrow> nat \<Rightarrow> (nat \<Rightarrow> startup_entry) \<Rightarrow> startup_state \<Rightarrow> nat \<Rightarrow> bool" where
  "rank_ok attn_size world entry s r \<longleftrightarrow>
     (let k = su_ranks s r in
      rk_passed k @ rk_todo k = startup_program attn_size world r (rk_decision k) \<and>
      (rk_decision k = None \<longleftrightarrow> Decide \<in> set (rk_todo k)) \<and>
      (\<forall>d. rk_decision k = Some d \<longrightarrow> decide attn_size (map entry [0..<world]) = Inr d) \<and>
      (\<forall>st. (st, r) \<in> su_published s \<longleftrightarrow> Publish st \<in> set (rk_passed k)) \<and>
      (\<forall>st R q. Await st R \<in> set (rk_passed k) \<longrightarrow> q \<in> R \<longrightarrow> (st, q) \<in> su_published s))"

lemma decide_only_once: "Decide \<notin> set (after_decision attn_size world r d)"
  by (auto simp: after_decision_def phase_def)

lemma rank_ok_initial: "rank_ok attn_size world entry (initial_startup world) r"
  by (simp add: rank_ok_def initial_startup_def startup_program_def negotiate_def)

lemma rank_ok_status:
  assumes "rank_ok a w entry s r'" "su_ranks s r = k"
  shows "rank_ok a w entry (set_rank r (k\<lparr>rk_status := x\<rparr>) s) r'"
  using assms by (auto simp: rank_ok_def set_rank_def Let_def)

lemma rank_ok_errors: "rank_ok a w entry (set_rank r k (s\<lparr>su_errors := e\<rparr>)) r' = rank_ok a w entry (set_rank r k s) r'"
  by (simp add: rank_ok_def set_rank_def Let_def)

lemma rank_ok_pass:
  assumes ok: "rank_ok a w entry s r'" and r: "su_ranks s r = k" and todo: "rk_todo k = i # rest" and i: "i \<noteq> Decide"
    and pub: "case i of Publish st \<Rightarrow> pub = insert (st, r) (su_published s) | _ \<Rightarrow> pub = su_published s"
    and aw: "case i of Await st R \<Rightarrow> \<forall>q \<in> R. (st, q) \<in> su_published s | _ \<Rightarrow> True"
  shows "rank_ok a w entry (set_rank r (pass_instr k) (s\<lparr>su_published := pub\<rparr>)) r'"
proof -
  have mono: "su_published s \<subseteq> pub" using pub by (cases i) auto
  show ?thesis
  proof (cases "r' = r")
    case False
    then have "(st, r') \<in> pub \<longleftrightarrow> (st, r') \<in> su_published s" for st using pub by (cases i) auto
    then show ?thesis using ok mono False by (auto simp: rank_ok_def set_rank_def Let_def)
  next
    case True
    have same: "(st, r) \<in> pub \<longleftrightarrow> (st, r) \<in> su_published s \<or> i = Publish st" for st using pub by (cases i) auto
    have await: "i = Await st R \<Longrightarrow> q \<in> R \<Longrightarrow> (st, q) \<in> pub" for st R q using aw mono by auto
    show ?thesis using ok mono same await i r todo
      unfolding rank_ok_def set_rank_def Let_def True pass_instr_def by auto
  qed
qed

lemma rank_ok_decided:
  assumes ok: "rank_ok a w entry s r'" and r: "su_ranks s r = k" and todo: "rk_todo k = Decide # rest"
    and d: "decide a (map entry [0..<w]) = Inr d"
  shows "rank_ok a w entry (set_rank r ((pass_instr k)\<lparr>rk_todo := after_decision a w r d, rk_decision := Some d\<rparr>) s) r'"
proof (cases "r' = r")
  case False
  then show ?thesis using ok by (simp add: rank_ok_def set_rank_def)
next
  case True
  have k: "rank_ok a w entry s r" using ok True by simp
  have none: "rk_decision k = None" using k todo r by (simp add: rank_ok_def Let_def)
  then have prog: "rk_passed k @ Decide # rest = phase w ''plan'' @ [Decide]"
    using k r todo by (simp add: rank_ok_def Let_def startup_program_def negotiate_def)
  have "rest = []"
  proof (rule ccontr)
    assume "rest \<noteq> []"
    then have "butlast (rk_passed k @ Decide # rest) = rk_passed k @ Decide # butlast rest" by (simp add: butlast_append)
    then have "Decide \<in> set (phase w ''plan'')" using prog by (metis append_butlast_last_id butlast_snoc in_set_conv_decomp)
    then show False by (simp add: phase_def)
  qed
  then have "rk_passed k = phase w ''plan''" using prog by simp
  then show ?thesis using k r d True todo decide_only_once
    unfolding rank_ok_def set_rank_def Let_def pass_instr_def by (auto simp: startup_program_def negotiate_def)
qed

lemma rank_ok_step:
  assumes "startup_step a w entry s t" "\<And>r. rank_ok a w entry s r"
  shows "rank_ok a w entry t r'"
  using assms
proof (cases rule: startup_step.cases)
  case (work r k wk rep rest)
  show ?thesis using rank_ok_pass [OF assms(2) work(3,5), where pub = "su_published s"] work(1) by simp
next
  case (publish r k st rest)
  show ?thesis using rank_ok_pass [OF assms(2) publish(3,5)] publish(1) by simp
next
  case (check_passes r k rest)
  show ?thesis using rank_ok_pass [OF assms(2) check_passes(3,5), where pub = "su_published s"] check_passes(1) by simp
next
  case (ready r k st R rest)
  show ?thesis using rank_ok_pass [OF assms(2) ready(3,5), where pub = "su_published s"] ready(1,6) by simp
next
  case (decided r k rest d)
  then show ?thesis using rank_ok_decided [OF assms(2)] by simp
qed (use assms(2) rank_ok_status rank_ok_errors in auto)

lemma reachable_rank_ok: "startup_reachable a w entry s \<Longrightarrow> rank_ok a w entry s r"
proof (induction arbitrary: r rule: startup_reachable.induct)
  case start
  show ?case by (rule rank_ok_initial)
next
  case (move s t)
  then show ?case using rank_ok_step by metis
qed

section \<open>Properties\<close>


lemma remdups_le_one: "length (remdups xs) \<le> 1 \<Longrightarrow> x \<in> set xs \<Longrightarrow> y \<in> set xs \<Longrightarrow> x = y"
proof -
  assume "length (remdups xs) \<le> 1" "x \<in> set xs" "y \<in> set xs"
  then have "x \<in> set (remdups xs)" "y \<in> set (remdups xs)" "length (remdups xs) \<le> 1" by simp_all
  then show "x = y" by (cases "remdups xs") auto
qed

lemma all_sameD: "all_same xs \<Longrightarrow> x \<in> set xs \<Longrightarrow> y \<in> set xs \<Longrightarrow> x = y"
  using remdups_le_one [of xs x y] by (simp add: all_same_def)

lemma all_same_mapD: "all_same (map f xs) \<Longrightarrow> x \<in> set xs \<Longrightarrow> y \<in> set xs \<Longrightarrow> f x = f y"
  by (rule all_sameD [of "map f xs"]) (simp_all only: set_map imageI)

text \<open>What a mode other than plain eager tells of the plans.\<close>

definition plans_agree :: "graph_plan \<Rightarrow> graph_plan \<Rightarrow> bool" where
  "plans_agree p p' \<longleftrightarrow> gp_requested p = gp_requested p' \<and> gp_signature p = gp_signature p' \<and> gp_layer_ids p = gp_layer_ids p' \<and>
     gp_stream_signature p = gp_stream_signature p'"

lemma resolved:
  assumes "resolve_ffn_mode plans = Inr mode"
  shows "all_same (map gp_requested plans)" "all_same (map gp_stream_signature plans)"
    "list_all (\<lambda>p. gp_stream_error p = []) plans" "mode = gp_requested (plans ! 0)"
proof -
  note unf = assms [unfolded resolve_ffn_mode_def Let_def]
  show req: "all_same (map gp_requested plans)" using unf by (rule contrapos_pp) simp
  show str: "all_same (map gp_stream_signature plans)" using unf req by (cases "all_same (map gp_stream_signature plans)") (simp_all split: if_splits)
  show serr: "list_all (\<lambda>p. gp_stream_error p = []) plans"
    using unf req str by (cases "list_ex (\<lambda>p. gp_stream_error p \<noteq> []) plans") (simp_all add: list_ex_iff list_all_iff split: if_splits)
  show "mode = gp_requested (plans ! 0)" using unf by (simp split: if_splits)
qed

lemma resolved_strict:
  assumes "resolve_ffn_mode plans = Inr mode" "mode = ''full'' \<or> gp_stream_signature (plans ! 0) \<noteq> []"
  shows "list_all (\<lambda>p. gp_graph_error p = []) plans"
    "length (remdups (map gp_signature (filter (\<lambda>p. gp_graph_error p = []) plans))) \<le> 1"
    "gp_layer_ids (plans ! 0) \<noteq> []" "all_same (map gp_layer_ids plans)"
proof -
  have all: "\<not> (list_ex (\<lambda>p. gp_graph_error p \<noteq> []) plans \<or>
      length (remdups (map gp_signature (filter (\<lambda>p. gp_graph_error p = []) plans))) > 1) \<and>
    gp_layer_ids (plans ! 0) \<noteq> [] \<and> all_same (map gp_layer_ids plans)"
    using assms(1) [unfolded resolve_ffn_mode_def Let_def] assms(2) resolved(4) [OF assms(1)]
    by (simp split: if_split_asm)
  show "list_all (\<lambda>p. gp_graph_error p = []) plans" using all by (metis (mono_tags, lifting) list_all_iff list_ex_iff)
  show "length (remdups (map gp_signature (filter (\<lambda>p. gp_graph_error p = []) plans))) \<le> 1" using all by linarith
  show "gp_layer_ids (plans ! 0) \<noteq> []" "all_same (map gp_layer_ids plans)" using all by blast+
qed

lemma resolve_sound:
  assumes "resolve_ffn_mode plans = Inr mode" "p \<in> set plans" "p' \<in> set plans"
  shows "gp_requested p = mode" "gp_stream_signature p = gp_stream_signature (plans ! 0)" "gp_stream_error p = []"
    "mode = ''full'' \<or> gp_stream_signature (plans ! 0) \<noteq> [] \<Longrightarrow> plans_agree p p' \<and> gp_graph_error p = [] \<and> gp_layer_ids p \<noteq> []"
proof -
  have ne: "plans \<noteq> []" using assms(2) by auto
  then have p0: "plans ! 0 \<in> set plans" by simp
  note req = resolved(1) [OF assms(1)] and str = resolved(2) [OF assms(1)] and serr = resolved(3) [OF assms(1)] and mode = resolved(4) [OF assms(1)]
  have same: "x \<in> set plans \<Longrightarrow> y \<in> set plans \<Longrightarrow> gp_requested x = gp_requested y \<and> gp_stream_signature x = gp_stream_signature y" for x y
    using all_same_mapD [OF req] all_same_mapD [OF str] by blast
  show "gp_requested p = mode" "gp_stream_signature p = gp_stream_signature (plans ! 0)" using same [OF assms(2) p0] mode by simp_all
  show "gp_stream_error p = []" using serr assms(2) by (simp add: list_all_iff)
  assume strict: "mode = ''full'' \<or> gp_stream_signature (plans ! 0) \<noteq> []"
  note gerr = resolved_strict(1) [OF assms(1) strict] and sig = resolved_strict(2) [OF assms(1) strict]
    and some = resolved_strict(3) [OF assms(1) strict] and lay = resolved_strict(4) [OF assms(1) strict]
  have "filter (\<lambda>p. gp_graph_error p = []) plans = plans" using gerr by (simp add: list_all_iff filter_id_conv)
  then have "gp_signature p = gp_signature p'" using sig remdups_le_one [of "map gp_signature plans"] assms(2,3) by simp
  moreover have "gp_layer_ids p = gp_layer_ids p'" "gp_layer_ids p = gp_layer_ids (plans ! 0)"
    using all_same_mapD [OF lay] assms(2,3) p0 by blast+
  ultimately show "plans_agree p p' \<and> gp_graph_error p = [] \<and> gp_layer_ids p \<noteq> []"
    using same [OF assms(2,3)] gerr assms(2) some by (simp add: plans_agree_def list_all_iff)
qed

lemma decide_sound:
  assumes "decide a entries = Inr d" "sd_mode d = ''full'' \<or> sd_two_stream d"
  shows "x \<in> set entries \<Longrightarrow> y \<in> set entries \<Longrightarrow> fst x = fst y"
    "x \<in> set (drop a entries) \<Longrightarrow> y \<in> set (drop a entries) \<Longrightarrow>
      \<exists>p p'. snd x = Some p \<and> snd y = Some p' \<and> plans_agree p p' \<and> gp_graph_error p = [] \<and> gp_stream_error p = [] \<and> gp_layer_ids p \<noteq> []"
proof -
  obtain plans mode where pl: "map_result plan_of_entry (drop a entries) = Inr plans" "resolve_ffn_mode plans = Inr mode"
    and d: "sd_mode d = mode" "sd_two_stream d = (gp_stream_signature (plans ! 0) \<noteq> [])"
    and tr: "\<not> ((mode = ''full'' \<or> gp_stream_signature (plans ! 0) \<noteq> []) \<and> \<not> all_same (map fst entries))"
    using assms(1) by (auto simp: decide_def Let_def bind_result_Inr guard_def split: if_splits)
  have strict: "mode = ''full'' \<or> gp_stream_signature (plans ! 0) \<noteq> []" using assms(2) d by simp
  show "x \<in> set entries \<Longrightarrow> y \<in> set entries \<Longrightarrow> fst x = fst y"
    using tr strict all_same_mapD [of fst entries] by blast
  have mem: "\<exists>p \<in> set plans. snd e = Some p" if "e \<in> set (drop a entries)" for e
  proof -
    have "\<exists>p \<in> set ps. snd e = Some p" if "map_result plan_of_entry es = Inr ps" "e \<in> set es" for es ps
      using that
    proof (induction es arbitrary: ps)
      case (Cons e' es)
      then show ?case by (cases e' rule: plan_of_entry.cases) (auto simp: bind_result_Inr)
    qed simp
    then show ?thesis using pl(1) that by blast
  qed
  show "x \<in> set (drop a entries) \<Longrightarrow> y \<in> set (drop a entries) \<Longrightarrow>
      \<exists>p p'. snd x = Some p \<and> snd y = Some p' \<and> plans_agree p p' \<and> gp_graph_error p = [] \<and> gp_stream_error p = [] \<and> gp_layer_ids p \<noteq> []"
    using mem [of x] mem [of y] resolve_sound [OF pl(2)] strict by metis
qed


end
