(* ===== verification/Async_Ffn_Runner.thy ===== *)
theory Async_Ffn_Runner
  imports Async_Two_Stream Async_Startup
begin

text \<open>
  The asynchronous FFN runner of \<open>async_ffn_model_runner.py\<close> and the loop of the NPU worker that
  drives it: the plan a rank publishes, the life of its captured graph or of its two-stream
  session, its eager loop over the connector, and a stop that waits for the receiver.
\<close>

section \<open>The plan\<close>

text \<open>\<open>str(exc)\<close>, for the exceptions that carry a message.\<close>

fun exc_text :: "error \<Rightarrow> string" where
  "exc_text (ValueError m) = m"
| "exc_text (RuntimeError m) = m"
| "exc_text (TypeError m) = m"
| "exc_text _ = []"

text \<open>What the layered executor depends on: the layers whose weights the target and the draft model can give, the device and
  the connector's options.  \<open>lq_ops\<close> is \<open>ensure_cam_async_ops_available\<close>.\<close>

record layered_query =
  lq_requested :: bool
  lq_cam_connector :: bool
  lq_gate_on_attention :: bool
  lq_target :: "int list"
  lq_draft :: "int list option"
  lq_a3 :: bool
  lq_dynamic_quant :: int
  lq_ops :: "unit result"

definition layered_layers :: "layered_query \<Rightarrow> int list" where
  "layered_layers q = (case lq_draft q of None \<Rightarrow> lq_target q
     | Some d \<Rightarrow> if lq_target q = [] then [] else if d = [] then [] else lq_target q @ d)"

text \<open>\<open>_initialize_layered_executor\<close>: the layers of the executor, or none when the legacy loop is used.\<close>

definition initialize_layered_executor :: "layered_query \<Rightarrow> int list \<Rightarrow> int list option result" where
  "initialize_layered_executor q layer_ids =
     (if \<not> lq_requested q \<or> \<not> lq_cam_connector q \<or> \<not> lq_gate_on_attention q \<or> layered_layers q = [] then Inr None
      else if \<not> lq_a3 q then Inl (ValueError ''layered GMM requires Ascend 910C/A3'')
      else if lq_dynamic_quant q \<noteq> 1 then Inl (ValueError ''layered GMM requires dynamicQuant=1'')
      else if sort (layered_layers q) \<noteq> layer_ids then Inl (ValueError ''layered GMM weights do not cover the remote MoE layer IDs'')
      else bind_result (lq_ops q) (\<lambda>_. Inr (Some (layered_layers q))))"

text \<open>The layer ids of target and draft, and the \<open>repr\<close> of the stream parameters.\<close>

definition remote_layer_ids :: "int list \<Rightarrow> int list \<Rightarrow> int list result" where
  "remote_layer_ids target draft =
     (if \<not> distinct (target @ draft) then Inl (ValueError ''Target and draft remote MoE layer IDs overlap'') else Inr (sort (target @ draft)))"

definition stream_signature_of :: "async_extra \<Rightarrow> string" where
  "stream_signature_of x = ''(1, 2, '' @ py_str_int (ax_compute_aic x) @ '', '' @ py_str_int (ax_compute_aiv x) @ '', '' @
     py_str_int (ax_combine_aiv x) @ '')''"

text \<open>What \<open>initialize_afd_connector\<close> settles before it connects: the executor, the session and the plan.  \<open>sig\<close> is the
  executor's \<open>graph_signature\<close>, \<open>session\<close> what constructing the session gives.\<close>

definition prepare_async_ffn ::
  "layered_query \<Rightarrow> async_extra \<Rightarrow> string \<Rightarrow> (int list \<Rightarrow> string) \<Rightarrow> ('p, 'o, 't) two_stream result \<Rightarrow> int list \<Rightarrow>
   (int list option \<times> ('p, 'o, 't) two_stream option \<times> graph_plan) result" where
  "prepare_async_ffn q x requested sig session layer_ids =
     (let found = initialize_layered_executor q layer_ids;
          stream_error = (case found of Inl e \<Rightarrow> exc_text e | Inr _ \<Rightarrow> []);
          executor = (case found of Inl _ \<Rightarrow> None | Inr ex \<Rightarrow> ex) in
      bind_result (case found of Inl e \<Rightarrow> if ax_two_stream x then Inr () else Inl e | Inr _ \<Rightarrow> Inr ()) (\<lambda>_.
      let made = (if stream_error \<noteq> [] then Inl (ValueError stream_error)
            else if executor = None then Inl (ValueError ''FFN two-stream requires layered W4A8/W8A8'') else session) in
      Inr (executor,
           if ax_two_stream x then (case made of Inl _ \<Rightarrow> None | Inr t \<Rightarrow> Some t) else None,
           \<lparr>gp_requested = requested,
            gp_graph_error = (if executor = None then ''requires layered W4A8/W8A8 (AFD_ASYNC_CAM_LAYERED_GMM=1)'' else []),
            gp_signature = (case executor of None \<Rightarrow> [] | Some ls \<Rightarrow> sig ls),
            gp_layer_ids = layer_ids,
            gp_stream_signature = (if ax_two_stream x then stream_signature_of x else []),
            gp_stream_error = (if ax_two_stream x then (case made of Inl e \<Rightarrow> exc_text e | Inr _ \<Rightarrow> []) else stream_error)\<rparr>)))"

section \<open>State\<close>

datatype ar_event = Warmed | PhasePassed string | GraphCaptured | ServiceReady | Replayed | Synced
  | GraphReset | ConnectorClosed | ModelFreed

record ('p, 'o, 't) async_runner =
  ar_loaded :: bool
  ar_connected :: bool
  ar_layer_ids :: "int list"
  ar_executor :: "int list option"
  ar_plan :: "graph_plan option"
  ar_two :: "('p, 'o, 't) two_stream option"
  ar_mode :: string
  ar_graph :: bool
  ar_capture_count :: int
  ar_replay_count :: int
  ar_pending :: bool
  ar_closed :: bool
  ar_receiver_exited :: bool
  ar_graph_failure :: "error option"
  ar_failure :: "error option"
  ar_announced :: bool
  ar_shutdown :: bool
  ar_log :: "ar_event list"

text \<open>What the runner calls, answering by what it has done so far.\<close>

record ('p, 'o, 't) ar_env =
  ae_query :: layered_query
  ae_extra :: async_extra
  ae_requested :: string
  ae_signature :: "int list \<Rightarrow> string"
  ae_session :: "('p, 'o, 't) two_stream result"
  ae_target_ids :: "int list"
  ae_draft_ids :: "int list"
  ae_connect :: "ar_event list \<Rightarrow> string result"
  ae_chunks :: "int result"
  ae_eager :: "ar_event list \<Rightarrow> unit result"
  ae_wait :: "ar_event list \<Rightarrow> unit result"
  ae_phase :: "ar_event list \<Rightarrow> string \<Rightarrow> unit result"
  ae_capture :: "ar_event list \<Rightarrow> unit result"
  ae_replay :: "ar_event list \<Rightarrow> unit result"
  ae_sync :: "ar_event list \<Rightarrow> unit result"
  ae_service :: "ar_event list \<Rightarrow> unit result"
  ae_two :: "('p, 'o, 't) tw_env"

definition new_async_runner :: "('p, 'o, 't) async_runner" where
  "new_async_runner =
     \<lparr>ar_loaded = True, ar_connected = False, ar_layer_ids = [], ar_executor = None, ar_plan = None, ar_two = None, ar_mode = ''eager'',
      ar_graph = False, ar_capture_count = 0, ar_replay_count = 0, ar_pending = False, ar_closed = False, ar_receiver_exited = False,
      ar_graph_failure = None, ar_failure = None, ar_announced = False, ar_shutdown = False, ar_log = []\<rparr>"

section \<open>The graph\<close>

definition ar_emit :: "ar_event \<Rightarrow> (('p, 'o, 't) async_runner, unit) op" where
  "ar_emit x = op_modify (\<lambda>s. s\<lparr>ar_log := ar_log s @ [x]\<rparr>)"

definition ar_try :: "(('p, 'o, 't) async_runner, 'a) op \<Rightarrow> (('p, 'o, 't) async_runner, 'a) op" where
  "ar_try m = (\<lambda>s. case m s of (t, Inl e) \<Rightarrow> (t\<lparr>ar_graph_failure := Some e\<rparr>, Inl e) | (t, Inr x) \<Rightarrow> (t, Inr x))"

text \<open>A call of the session.\<close>

definition on_session :: "(('p, 'o, 't) two_stream, 'a) op \<Rightarrow> (('p, 'o, 't) async_runner, 'a) op" where
  "on_session m = (\<lambda>s. case ar_two s of
     None \<Rightarrow> (s, Inl AssertionError)
   | Some w \<Rightarrow> (case m w of (w', r) \<Rightarrow> (s\<lparr>ar_two := Some w'\<rparr>, r)))"

definition check_graph_live :: "(('p, 'o, 't) async_runner, unit) op" where
  "check_graph_live = op_lift (\<lambda>s.
     if ar_graph_failure s \<noteq> None then Inl (RuntimeError ''Async FFN graph failed; retain resources'')
     else guard (ar_closed s) (RuntimeError ''Async FFN graph is closed''))"

definition capture_graph :: "('p, 'o, 't) ar_env \<Rightarrow> (('p, 'o, 't) async_runner, unit) op" where
  "capture_graph env =
     op_bind check_graph_live (\<lambda>_.
     op_bind (op_get (\<lambda>s. ar_two s \<noteq> None)) (\<lambda>two.
     if two then
       op_bind (on_session (tw_capture (ae_two env))) (\<lambda>_.
       op_modify (\<lambda>s. s\<lparr>ar_capture_count := tw_capture_count (the (ar_two s))\<rparr>))
     else
       op_bind (op_lift (\<lambda>s. guard (ar_graph s) (RuntimeError ''Async FFN may only capture once''))) (\<lambda>_.
       op_bind (op_lift (\<lambda>s. guard (ar_executor s = None) AssertionError)) (\<lambda>_.
       op_bind (op_modify (\<lambda>s. s\<lparr>ar_graph := True\<rparr>)) (\<lambda>_.
       ar_try (op_bind (op_lift (\<lambda>s. ae_capture env (ar_log s))) (\<lambda>_.
         op_bind (ar_emit GraphCaptured) (\<lambda>_.
         op_modify (\<lambda>s. s\<lparr>ar_capture_count := 1\<rparr>)))))))))"

definition submit_graph :: "('p, 'o, 't) ar_env \<Rightarrow> int \<Rightarrow> (('p, 'o, 't) async_runner, unit) op" where
  "submit_graph env count =
     op_bind check_graph_live (\<lambda>_.
     op_bind (op_get (\<lambda>s. ar_two s \<noteq> None)) (\<lambda>two.
     if two then
       op_bind (op_lift (\<lambda>s. guard (ar_pending s \<or> ar_receiver_exited s) (RuntimeError ''Async FFN graph is not ready for replay''))) (\<lambda>_.
       op_bind (op_modify (\<lambda>s. s\<lparr>ar_pending := True\<rparr>)) (\<lambda>_.
       op_bind (on_session (tw_submit (ae_two env) count)) (\<lambda>_.
       op_modify (\<lambda>s. s\<lparr>ar_replay_count := tw_sequence (the (ar_two s))\<rparr>))))
     else
       op_bind (op_lift (\<lambda>s. guard (\<not> ar_graph s \<or> ar_capture_count s \<noteq> 1 \<or> ar_pending s \<or> ar_receiver_exited s \<or> count < 1)
         (RuntimeError ''Async FFN graph is not ready for replay''))) (\<lambda>_.
       op_bind (op_modify (\<lambda>s. s\<lparr>ar_pending := True\<rparr>)) (\<lambda>_.
       op_bind (ar_try (op_mapM (\<lambda>_.
         op_bind (ar_emit Replayed) (\<lambda>_.
         op_bind (op_lift (\<lambda>s. ae_replay env (ar_log s))) (\<lambda>_.
         op_modify (\<lambda>s. s\<lparr>ar_replay_count := ar_replay_count s + 1\<rparr>)))) (py_range 0 count))) (\<lambda>_. op_return ())))))"

definition complete_graph :: "('p, 'o, 't) ar_env \<Rightarrow> (('p, 'o, 't) async_runner, bool) op" where
  "complete_graph env =
     op_bind check_graph_live (\<lambda>_.
     op_bind (op_get (\<lambda>s. ar_two s \<noteq> None)) (\<lambda>two.
     if two then
       op_bind (on_session (tw_complete (ae_two env) None)) (\<lambda>b.
       op_bind (op_modify (\<lambda>s. s\<lparr>ar_pending := False\<rparr>)) (\<lambda>_. op_return b))
     else
       op_bind (op_lift (\<lambda>s. guard (\<not> ar_pending s) (RuntimeError ''Async FFN has no pending replay''))) (\<lambda>_.
       op_bind (ar_try (op_bind (op_lift (\<lambda>s. ae_sync env (ar_log s))) (\<lambda>_. ar_emit Synced))) (\<lambda>_.
       op_bind (op_modify (\<lambda>s. s\<lparr>ar_pending := False\<rparr>)) (\<lambda>_. op_return True)))))"

definition close_graph :: "(('p, 'o, 't) async_runner, unit) op" where
  "close_graph = (\<lambda>s.
     if ar_closed s then (s, Inr ())
     else
       op_bind check_graph_live (\<lambda>_.
       op_bind (op_get (\<lambda>s. ar_two s \<noteq> None)) (\<lambda>two.
       if two then
         op_bind (on_session (tw_close (ar_receiver_exited s))) (\<lambda>_. op_modify (\<lambda>s. s\<lparr>ar_closed := True\<rparr>))
       else
         op_bind (op_lift (\<lambda>s. guard (ar_pending s \<or> \<not> ar_receiver_exited s)
           (RuntimeError ''Async graph resources require receiver exit and device completion''))) (\<lambda>_.
         op_bind (op_lift (\<lambda>s. guard (\<not> ar_graph s) AssertionError)) (\<lambda>_.
         op_bind (ar_emit GraphReset) (\<lambda>_.
         op_modify (\<lambda>s. s\<lparr>ar_graph := False, ar_closed := True\<rparr>)))))) s)"

section \<open>Running\<close>

text \<open>\<open>_ffn_forward_connector_driven\<close>; its two eager loops are those of the next section.\<close>

definition ffn_forward_connector_driven :: "('p, 'o, 't) ar_env \<Rightarrow> bool \<Rightarrow> (('p, 'o, 't) async_runner, unit) op" where
  "ffn_forward_connector_driven env single =
     op_bind (op_lift (\<lambda>s. guard (\<not> ar_loaded s) AssertionError)) (\<lambda>_.
     op_bind (op_get (\<lambda>s. ar_two s \<noteq> None)) (\<lambda>two.
     if two then
       op_bind (op_get (\<lambda>s. if single then 1 else int (length (ar_layer_ids s)))) (\<lambda>n.
       op_bind (op_get ar_log) (\<lambda>log.
       op_bind (on_session (tw_submit (ae_two env) n)) (\<lambda>_.
       op_bind (on_session (tw_complete (ae_two env) (if single then Some (\<lambda>_. ae_wait env log) else None))) (\<lambda>_.
       op_return ()))))
     else op_lift (\<lambda>s. ae_eager env (ar_log s))))"

definition execute_connector_driven_step :: "('p, 'o, 't) ar_env \<Rightarrow> (('p, 'o, 't) async_runner, bool) op" where
  "execute_connector_driven_step env =
     op_bind (op_get (\<lambda>s. \<not> ar_graph s \<and> ar_two s = None)) (\<lambda>eager.
     if eager then op_bind (ffn_forward_connector_driven env False) (\<lambda>_. op_return True)
     else
       op_bind (op_get ar_announced) (\<lambda>announced.
       op_bind (if announced then op_return ()
         else op_bind (op_lift (\<lambda>s. ae_service env (ar_log s))) (\<lambda>_.
           op_bind (ar_emit ServiceReady) (\<lambda>_. op_modify (\<lambda>s. s\<lparr>ar_announced := True\<rparr>)))) (\<lambda>_.
       op_bind (op_get (\<lambda>s. int (length (ar_layer_ids s)))) (\<lambda>n.
       op_bind (submit_graph env n) (\<lambda>_.
       complete_graph env)))))"

text \<open>The part of \<open>initialize_afd_connector\<close> whose failure is kept and published.\<close>

definition start_async_ffn :: "('p, 'o, 't) ar_env \<Rightarrow> (('p, 'o, 't) async_runner, unit) op" where
  "start_async_ffn env =
     op_bind (op_lift (\<lambda>s. ae_connect env (ar_log s))) (\<lambda>mode.
     op_bind (op_modify (\<lambda>s. s\<lparr>ar_connected := True, ar_mode := mode\<rparr>)) (\<lambda>_.
     if mode \<noteq> ''full'' then op_return ()
     else
       op_bind (op_lift (\<lambda>s. guard (ar_executor s = None) AssertionError)) (\<lambda>_.
       op_bind (op_lift (\<lambda>_. ae_chunks env)) (\<lambda>chunks.
       op_bind (op_mapM (\<lambda>_. ffn_forward_connector_driven env True) (py_range 0 chunks)) (\<lambda>_.
       op_bind (op_lift (\<lambda>s. ae_wait env (ar_log s))) (\<lambda>_.
       op_bind (ar_emit Warmed) (\<lambda>_.
       op_bind (op_lift (\<lambda>s. ae_phase env (ar_log s) ''warmup'')) (\<lambda>_.
       op_bind (ar_emit (PhasePassed ''warmup'')) (\<lambda>_.
       op_bind (capture_graph env) (\<lambda>_.
       op_bind (op_lift (\<lambda>s. ae_phase env (ar_log s) ''captured'')) (\<lambda>_.
       ar_emit (PhasePassed ''captured''))))))))))))"

definition initialize_async_ffn :: "('p, 'o, 't) ar_env \<Rightarrow> (('p, 'o, 't) async_runner, unit) op" where
  "initialize_async_ffn env =
     op_bind (op_lift (\<lambda>s. guard (ar_failure s \<noteq> None) (RuntimeError ''Async graph startup failed; retain resources''))) (\<lambda>_.
     op_bind (op_get ar_connected) (\<lambda>connected.
     if connected then op_return ()
     else
       op_bind (op_lift (\<lambda>s. guard (\<not> ar_loaded s) AssertionError)) (\<lambda>_.
       op_bind (op_lift (\<lambda>_. remote_layer_ids (ae_target_ids env) (ae_draft_ids env))) (\<lambda>ids.
       op_bind (op_modify (\<lambda>s. s\<lparr>ar_layer_ids := ids\<rparr>)) (\<lambda>_.
       op_bind (op_lift (\<lambda>_. prepare_async_ffn (ae_query env) (ae_extra env) (ae_requested env) (ae_signature env) (ae_session env) ids)) (\<lambda>(ex, two, p).
       op_bind (op_modify (\<lambda>s. s\<lparr>ar_executor := ex, ar_two := two, ar_plan := Some p\<rparr>)) (\<lambda>_.
       (\<lambda>s. case start_async_ffn env s of (t, Inl e) \<Rightarrow> (t\<lparr>ar_failure := Some e\<rparr>, Inl e) | (t, Inr x) \<Rightarrow> (t, Inr x)))))))))"

definition ar_do_shutdown :: "(('p, 'o, 't) async_runner, unit) op" where
  "ar_do_shutdown = (\<lambda>s.
     if ar_shutdown s then (s, Inr ())
     else if ar_failure s \<noteq> None then (s, Inl (RuntimeError ''Failed graph startup retains resources''))
     else
       op_bind (if ar_two s \<noteq> None then op_bind (on_session (tw_close (ar_receiver_exited s))) (\<lambda>_. op_modify (\<lambda>s. s\<lparr>ar_two := None\<rparr>))
         else if ar_graph s then close_graph else op_return ()) (\<lambda>_.
       op_bind (op_modify (\<lambda>s. s\<lparr>ar_connected := False\<rparr>)) (\<lambda>_.
       op_bind (ar_emit ConnectorClosed) (\<lambda>_.
       op_bind (op_modify (\<lambda>s. s\<lparr>ar_executor := None, ar_loaded := False\<rparr>)) (\<lambda>_.
       op_bind (ar_emit ModelFreed) (\<lambda>_.
       op_modify (\<lambda>s. s\<lparr>ar_shutdown := True\<rparr>)))))) s)"

section \<open>The eager loops\<close>

text \<open>One round of each; \<open>outs\<close> is what the receive operator hands out, one entry per layer of the rank.  \<open>compute\<close> is
  \<open>compute_ffn_output\<close>, told whether the draft model holds the layer, and \<open>layered\<close> the layered executor.\<close>

definition legacy_round ::
  "(bool \<Rightarrow> 'd work_item \<Rightarrow> 'd list result) \<Rightarrow> 'd \<Rightarrow> int list \<Rightarrow> int \<Rightarrow> 'd cam_received \<Rightarrow> ('d cam, 'd list) op" where
  "legacy_round compute zero draft_ids max_num_tokens out =
     op_bind (recv_ffn_work_item out 0 max_num_tokens) (\<lambda>item.
     op_bind (op_lift (\<lambda>_. compute (wi_layer_idx item \<in> set draft_ids) item)) (\<lambda>rows.
     send_ffn_work_item_output zero item rows))"

definition layered_round ::
  "('d list \<Rightarrow> 'd list option \<Rightarrow> int list option \<Rightarrow> int list option \<Rightarrow> 'd list result) \<Rightarrow> 'd cam_received \<Rightarrow> ('d cam, 'd list) op" where
  "layered_round layered out =
     op_bind (op_get cm_max_tokens) (\<lambda>mt.
     op_bind (cam_recv_attn_output out 0 (if mt \<noteq> 0 then mt else 1) 0) (\<lambda>(rows, m, st).
     op_bind (op_lift (\<lambda>_. layered rows (as_scales st) (as_group_list st) (as_batch_info st))) (\<lambda>output.
     op_bind (cam_send_ffn_output output st 0) (\<lambda>_.
     op_return output))))"

definition legacy_loop ::
  "(bool \<Rightarrow> 'd work_item \<Rightarrow> 'd list result) \<Rightarrow> 'd \<Rightarrow> int list \<Rightarrow> int \<Rightarrow> 'd cam_received list \<Rightarrow> ('d cam, 'd list list) op" where
  "legacy_loop compute zero draft_ids max_num_tokens outs = op_mapM (legacy_round compute zero draft_ids max_num_tokens) outs"

definition layered_loop ::
  "('d list \<Rightarrow> 'd list option \<Rightarrow> int list option \<Rightarrow> int list option \<Rightarrow> 'd list result) \<Rightarrow> 'd cam_received list \<Rightarrow> ('d cam, 'd list list) op" where
  "layered_loop layered outs = op_mapM (layered_round layered) outs"

section \<open>The worker\<close>

text \<open>The receive loop runs in a thread.  \<open>aw_in_step\<close>: it has seen the event clear and is in its step; \<open>aw_stopping\<close>: a
  stop is waiting in \<open>join\<close>.\<close>

record ('p, 'o, 't) async_worker =
  aw_runner :: "('p, 'o, 't) async_runner"
  aw_event :: "bool option"
  aw_thread :: bool
  aw_alive :: bool
  aw_in_step :: bool
  aw_stopping :: bool
  aw_error :: "error option"

definition new_async_worker :: "('p, 'o, 't) async_worker" where
  "new_async_worker = \<lparr>aw_runner = new_async_runner, aw_event = None, aw_thread = False, aw_alive = False, aw_in_step = False,
     aw_stopping = False, aw_error = None\<rparr>"

definition requires_async_drain :: "('p, 'o, 't) async_worker \<Rightarrow> bool" where
  "requires_async_drain w \<longleftrightarrow> ar_mode (aw_runner w) = ''full'' \<or> ar_two (aw_runner w) \<noteq> None"

definition on_runner :: "(('p, 'o, 't) async_runner, 'a) op \<Rightarrow> (('p, 'o, 't) async_worker, 'a) op" where
  "on_runner m = (\<lambda>w. case m (aw_runner w) of (r, x) \<Rightarrow> (w\<lparr>aw_runner := r\<rparr>, x))"

definition raise_loop_error :: "(('p, 'o, 't) async_worker, unit) op" where
  "raise_loop_error = (\<lambda>w. case aw_error w of
     None \<Rightarrow> (w, Inr ())
   | Some e \<Rightarrow> (if requires_async_drain w then w else w\<lparr>aw_error := None\<rparr>, Inl (RuntimeError ''AFD NPU FFN worker loop failed'')))"

definition start_server_loop :: "('p, 'o, 't) ar_env \<Rightarrow> (('p, 'o, 't) async_worker, unit) op" where
  "start_server_loop env =
     op_bind (op_get (\<lambda>w. aw_thread w \<and> aw_alive w)) (\<lambda>running.
     if running then raise_loop_error
     else
       op_bind raise_loop_error (\<lambda>_.
       op_bind (op_get (\<lambda>w. ar_connected (aw_runner w))) (\<lambda>connected.
       op_bind (if connected then op_return () else on_runner (initialize_async_ffn env)) (\<lambda>_.
       op_modify (\<lambda>w. w\<lparr>aw_event := Some False, aw_error := None, aw_thread := True, aw_alive := True, aw_in_step := False\<rparr>)))))"

text \<open>One move of the thread: it looks at the event, or runs its step.\<close>

definition thread_move :: "('p, 'o, 't) ar_env \<Rightarrow> ('p, 'o, 't) async_worker \<Rightarrow> ('p, 'o, 't) async_worker" where
  "thread_move env w =
     (let exits = (\<lambda>w. w\<lparr>aw_alive := False, aw_in_step := False,
            aw_runner := (if requires_async_drain w then (aw_runner w)\<lparr>ar_receiver_exited := True\<rparr> else aw_runner w)\<rparr>);
          fails = (\<lambda>w e. w\<lparr>aw_alive := False, aw_in_step := False,
            aw_error := (if \<not> requires_async_drain w \<and> aw_event w = Some True then aw_error w else Some e)\<rparr>) in
      if \<not> aw_alive w then w
      else if \<not> aw_in_step w then (if aw_event w = Some False then w\<lparr>aw_in_step := True\<rparr> else exits w)
      else (case execute_connector_driven_step env (aw_runner w) of
          (r, Inl e) \<Rightarrow> fails (w\<lparr>aw_runner := r\<rparr>) e
        | (r, Inr False) \<Rightarrow> exits (w\<lparr>aw_runner := r\<rparr>)
        | (r, Inr True) \<Rightarrow>
            if ar_mode r = ''eager'' \<and> ar_two r = None
            then (case ae_sync env (ar_log r) of
                Inl e \<Rightarrow> fails (w\<lparr>aw_runner := r\<rparr>) e
              | Inr _ \<Rightarrow> w\<lparr>aw_runner := r, aw_in_step := False\<rparr>)
            else w\<lparr>aw_runner := r, aw_in_step := False\<rparr>))"

text \<open>\<open>stop_ffn_server_loop\<close> up to the \<open>join\<close>, and from its return.  Without a drain the connector is closed first, which
  is what unblocks a receive.\<close>

definition stop_begins :: "('p, 'o, 't) async_worker \<Rightarrow> ('p, 'o, 't) async_worker" where
  "stop_begins w =
     (let w' = w\<lparr>aw_event := map_option (\<lambda>_. True) (aw_event w), aw_stopping := True\<rparr> in
      if requires_async_drain w then w'
      else w'\<lparr>aw_runner := (aw_runner w)\<lparr>ar_connected := False, ar_log := ar_log (aw_runner w) @ [ConnectorClosed]\<rparr>\<rparr>)"

definition stop_joins :: "(('p, 'o, 't) async_worker, unit) op" where
  "stop_joins =
     op_bind (op_get requires_async_drain) (\<lambda>drain.
     op_bind (op_get (\<lambda>w. aw_thread w \<and> aw_alive w)) (\<lambda>alive.
     op_bind (op_modify (\<lambda>w. w\<lparr>aw_stopping := False\<rparr>)) (\<lambda>_.
     if drain then
       op_bind (op_guard alive (RuntimeError ''Async graph receive is pending; retain resources'')) (\<lambda>_.
       op_bind raise_loop_error (\<lambda>_.
       op_bind (on_runner ar_do_shutdown) (\<lambda>_.
       op_modify (\<lambda>w. w\<lparr>aw_thread := False, aw_event := None\<rparr>))))
     else
       op_bind (op_guard alive (RuntimeError ''AFD NPU FFN worker loop did not stop after connector close'')) (\<lambda>_.
       op_bind (op_modify (\<lambda>w. w\<lparr>aw_thread := False, aw_event := None\<rparr>)) (\<lambda>_.
       raise_loop_error)))))"

datatype aw_move = InitConnector | StartLoop | ThreadMove | StopBegins | StopJoins

fun aw_enabled :: "aw_move \<Rightarrow> ('p, 'o, 't) async_worker \<Rightarrow> bool" where
  "aw_enabled ThreadMove w = aw_alive w"
| "aw_enabled StopJoins w = aw_stopping w"
| "aw_enabled _ w = (\<not> aw_stopping w)"

fun aw_perform :: "('p, 'o, 't) ar_env \<Rightarrow> aw_move \<Rightarrow> ('p, 'o, 't) async_worker \<Rightarrow> ('p, 'o, 't) async_worker" where
  "aw_perform env InitConnector w = fst (on_runner (initialize_async_ffn env) w)"
| "aw_perform env StartLoop w = fst (start_server_loop env w)"
| "aw_perform env ThreadMove w = thread_move env w"
| "aw_perform env StopBegins w = stop_begins w"
| "aw_perform env StopJoins w = fst (stop_joins w)"

inductive aw_reachable :: "('p, 'o, 't) ar_env \<Rightarrow> ('p, 'o, 't) async_worker \<Rightarrow> bool" for env where
  init: "aw_reachable env new_async_worker"
| move: "aw_reachable env w \<Longrightarrow> aw_enabled m w \<Longrightarrow> aw_reachable env (aw_perform env m w)"

section \<open>What the eager loops send\<close>

text \<open>The calls of a round: a receive and the answer to it.\<close>

definition round_calls :: "'d cam_received \<Rightarrow> 'd list \<Rightarrow> (int \<times> 'd cam_call) list" where
  "round_calls out rows = [(0, DispatchRecv), (0, CombineSend rows (cr_batch_info out))]"

lemma legacy_round_calls:
  assumes "legacy_round compute zero draft_ids max_num_tokens out s = (t, Inr rows)"
  shows "cm_calls t = cm_calls s @ round_calls out rows"
proof -
  obtain u item x where i: "recv_ffn_work_item out 0 max_num_tokens s = (u, Inr item)"
    "send_ffn_work_item_output zero item x u = (t, Inr rows)"
    using assms by (auto simp: legacy_round_def op_bind_Inr)
  note f = recv_item_fields [OF i(1)]
  show ?thesis using i(2) send_item_fields [OF f(9,5), of zero x] f(6,8) by (auto simp: round_calls_def)
qed

lemma layered_round_calls:
  assumes "layered_round layered out s = (t, Inr rows)"
  shows "cm_calls t = cm_calls s @ round_calls out rows"
  using assms
  by (auto simp: layered_round_def cam_recv_attn_output_def cam_send_ffn_output_def cam_require_initialized_def cam_issue_def
    op_bind_Inr guard_def round_calls_def new_async_state_def split: if_splits)

lemma rounds_calls:
  assumes "\<And>out s t rows. round out s = (t, Inr rows) \<Longrightarrow> cm_calls t = cm_calls s @ round_calls out rows"
    and "op_mapM round outs s = (t, Inr answers)"
  shows "length answers = length outs \<and> cm_calls t = cm_calls s @ concat (map2 round_calls outs answers)"
  using assms(2)
proof (induction outs arbitrary: s answers)
  case (Cons out outs)
  then obtain u rows rest where "round out s = (u, Inr rows)" "op_mapM round outs u = (t, Inr rest)" "answers = rows # rest"
    by (auto simp: op_bind_Inr)
  then show ?case using Cons.IH [of u rest] assms(1) [of out s u rows] by simp
qed simp

text \<open>C12: the eager loops answer what they receive in the order they receive it, each batch before the next is received and
  under the metadata it came with.\<close>
theorem eager_loops_answer_in_order:
  assumes "legacy_loop compute zero draft_ids max_num_tokens outs s = (t, Inr answers) \<or> layered_loop layered outs s = (t, Inr answers)"
  shows "length answers = length outs \<and> cm_calls t = cm_calls s @ concat (map2 round_calls outs answers)"
  using assms unfolding legacy_loop_def layered_loop_def
proof
  assume "op_mapM (legacy_round compute zero draft_ids max_num_tokens) outs s = (t, Inr answers)"
  then show ?thesis by (rule rounds_calls [rotated]) (rule legacy_round_calls)
next
  assume "op_mapM (layered_round layered) outs s = (t, Inr answers)"
  then show ?thesis by (rule rounds_calls [rotated]) (rule layered_round_calls)
qed

section \<open>What a plan tells\<close>

text \<open>C13: a rank is only ever asked for a graph, or for two streams, that it can serve: if the ranks resolve their plans to FULL, this
  one has an executor for exactly its layers; if they settle on two streams, it has constructed its session.\<close>
theorem resolved_plan_is_served:
  assumes "prepare_async_ffn q x requested sig session ids = Inr (ex, two, p)" "resolve_ffn_mode plans = Inr mode" "p \<in> set plans"
    and "\<forall>e. session = Inl e \<longrightarrow> exc_text e \<noteq> []"
  shows "(mode = ''full'' \<longrightarrow> (\<exists>ls. ex = Some ls \<and> sort ls = ids)) \<and>
    (gp_stream_signature (plans ! 0) \<noteq> [] \<longrightarrow> two \<noteq> None \<and> ex \<noteq> None)"
proof
  have found: "sort ls = ids" if "ex = Some ls" for ls
    using assms(1) that by (auto simp: prepare_async_ffn_def Let_def bind_result_Inr initialize_layered_executor_def split: if_splits sum.splits)
  have error: "gp_graph_error p = [] \<Longrightarrow> ex \<noteq> None"
    using assms(1) by (auto simp: prepare_async_ffn_def Let_def bind_result_Inr split: if_splits sum.splits)
  show "mode = ''full'' \<longrightarrow> (\<exists>ls. ex = Some ls \<and> sort ls = ids)"
    using resolve_sound(4) [OF assms(2,3,3)] error found by blast
  show "gp_stream_signature (plans ! 0) \<noteq> [] \<longrightarrow> two \<noteq> None \<and> ex \<noteq> None"
  proof
    assume sg: "gp_stream_signature (plans ! 0) \<noteq> []"
    then have "gp_stream_signature p \<noteq> []" "gp_stream_error p = []" "gp_graph_error p = []"
      using resolve_sound [OF assms(2,3,3)] by simp_all
    then show "two \<noteq> None \<and> ex \<noteq> None"
      using error assms(1,4) by (auto simp: prepare_async_ffn_def Let_def bind_result_Inr split: if_splits sum.splits)
  qed
qed

section \<open>What every start, step and stop keeps\<close>

definition idle_log :: "ar_event list \<Rightarrow> bool" where
  "idle_log l \<longleftrightarrow> (\<forall>i < length l. l ! i = Replayed \<longrightarrow> (\<exists>j. i < j \<and> j < length l \<and> l ! j = Synced))"

lemma idle_log_snoc: "idle_log l \<Longrightarrow> x \<noteq> Replayed \<Longrightarrow> idle_log (l @ [x])"
  unfolding idle_log_def
proof (intro allI impI)
  fix i assume a: "\<forall>i < length l. l ! i = Replayed \<longrightarrow> (\<exists>j. i < j \<and> j < length l \<and> l ! j = Synced)" "x \<noteq> Replayed"
    and i: "i < length (l @ [x])" "(l @ [x]) ! i = Replayed"
  then have "i < length l" "l ! i = Replayed" by (auto simp: nth_append less_Suc_eq)
  then obtain j where "i < j" "j < length l" "l ! j = Synced" using a(1) by blast
  then show "\<exists>j. i < j \<and> j < length (l @ [x]) \<and> (l @ [x]) ! j = Synced" by (intro exI [of _ j]) (simp add: nth_append)
qed

lemma idle_log_synced: "idle_log (l @ [Synced])"
  unfolding idle_log_def
proof (intro allI impI)
  fix i assume "i < length (l @ [Synced])" "(l @ [Synced]) ! i = Replayed"
  then have "i < length l" by (cases "i = length l") simp_all
  then show "\<exists>j. i < j \<and> j < length (l @ [Synced]) \<and> (l @ [Synced]) ! j = Synced" by (intro exI [of _ "length l"]) simp
qed

definition freed_ok :: "ar_event list \<Rightarrow> bool" where
  "freed_ok l \<longleftrightarrow> (\<exists>before after. l = before @ ModelFreed # after \<and> idle_log before \<and> ModelFreed \<notin> set before \<and>
     Replayed \<notin> set after \<and> ModelFreed \<notin> set after)"

lemma freed_ok_first: "idle_log l \<Longrightarrow> ModelFreed \<notin> set l \<Longrightarrow> freed_ok (l @ [ModelFreed])"
  unfolding freed_ok_def by (intro exI [of _ l] exI [of _ "[]"]) simp

lemma freed_ok_snoc: "freed_ok l \<Longrightarrow> x \<noteq> Replayed \<Longrightarrow> x \<noteq> ModelFreed \<Longrightarrow> freed_ok (l @ [x])"
  unfolding freed_ok_def
proof -
  assume "\<exists>before after. l = before @ ModelFreed # after \<and> idle_log before \<and> ModelFreed \<notin> set before \<and> Replayed \<notin> set after \<and> ModelFreed \<notin> set after"
    and x: "x \<noteq> Replayed" "x \<noteq> ModelFreed"
  then obtain b a where "l = b @ ModelFreed # a" "idle_log b" "ModelFreed \<notin> set b" "Replayed \<notin> set a" "ModelFreed \<notin> set a" by blast
  then show "\<exists>before after. l @ [x] = before @ ModelFreed # after \<and> idle_log before \<and> ModelFreed \<notin> set before \<and> Replayed \<notin> set after \<and> ModelFreed \<notin> set after"
    using x by (intro exI [of _ b] exI [of _ "a @ [x]"]) auto
qed

text \<open>Until it is shut down, and afterwards.\<close>

definition ar_base :: "('p, 'o, 't) async_runner \<Rightarrow> bool" where
  "ar_base r \<longleftrightarrow> ModelFreed \<notin> set (ar_log r) \<and> \<not> ar_shutdown r \<and> (ar_graph r \<longrightarrow> ar_mode r = ''full'') \<and>
     (ar_pending r \<longrightarrow> ar_graph r \<or> ar_two r \<noteq> None) \<and> (\<not> ar_pending r \<or> ar_two r \<noteq> None \<longrightarrow> idle_log (ar_log r))"

definition ar_connected_ok :: "('p, 'o, 't) async_runner \<Rightarrow> bool" where
  "ar_connected_ok r \<longleftrightarrow> ar_failure r \<noteq> None \<or> ar_connected r \<or> (\<not> ar_graph r \<and> ar_two r = None)"

definition ar_running :: "('p, 'o, 't) async_runner \<Rightarrow> bool" where
  "ar_running r \<longleftrightarrow> ar_base r \<and> ar_connected_ok r"

definition ar_calm :: "('p, 'o, 't) async_runner \<Rightarrow> bool" where
  "ar_calm r \<longleftrightarrow> ar_running r \<and> \<not> ar_pending r"

definition ar_gone :: "('p, 'o, 't) async_runner \<Rightarrow> bool" where
  "ar_gone r \<longleftrightarrow> ar_shutdown r \<and> \<not> ar_loaded r \<and> \<not> ar_connected r \<and> freed_ok (ar_log r)"

lemmas ar_defs = ar_base_def ar_connected_ok_def ar_running_def ar_calm_def

lemma keeps_session:
  assumes "\<And>s w. P s \<Longrightarrow> ar_two s \<noteq> None \<Longrightarrow> P (s\<lparr>ar_two := Some w\<rparr>)"
  shows "keeps P (on_session m)"
  unfolding keeps_def on_session_def
proof (intro allI impI)
  fix s assume "P s"
  then show "P (fst (case ar_two s of None \<Rightarrow> (s, Inl AssertionError) | Some w \<Rightarrow> (case m w of (w', r) \<Rightarrow> (s\<lparr>ar_two := Some w'\<rparr>, r))))"
    using assms [of s] by (auto split: option.split prod.split)
qed

lemma keeps_ar_try:
  assumes "keeps P m" "\<And>s e. P s \<Longrightarrow> P (s\<lparr>ar_graph_failure := Some e\<rparr>)"
  shows "keeps P (ar_try m)"
  using assms unfolding keeps_def ar_try_def by (auto split: prod.split sum.split)

lemma keeps_emit: "(\<And>s. P s \<Longrightarrow> P (s\<lparr>ar_log := ar_log s @ [x]\<rparr>)) \<Longrightarrow> keeps P (ar_emit x)"
  unfolding ar_emit_def by (rule keeps_modify)

lemma forward_keeps:
  assumes "\<And>s w. P s \<Longrightarrow> ar_two s \<noteq> None \<Longrightarrow> P (s\<lparr>ar_two := Some w\<rparr>)"
  shows "keeps P (ffn_forward_connector_driven env single)"
  unfolding ffn_forward_connector_driven_def by (intro keeps_intros keeps_session assms) auto

text \<open>Starting.\<close>

definition ar_starting :: "('p, 'o, 't) async_runner \<Rightarrow> bool" where
  "ar_starting r \<longleftrightarrow> ar_base r \<and> \<not> ar_pending r \<and> ar_connected r \<and> ar_mode r = ''full''"

lemma starting_capture: "keeps ar_starting (capture_graph env)"
  unfolding capture_graph_def check_graph_live_def
  by (intro keeps_intros keeps_session keeps_ar_try keeps_emit)
    (auto simp: ar_starting_def ar_base_def idle_log_snoc)

definition ar_fresh :: "('p, 'o, 't) async_runner \<Rightarrow> bool" where
  "ar_fresh r \<longleftrightarrow> ar_base r \<and> \<not> ar_pending r \<and> \<not> ar_graph r"

definition ar_started :: "('p, 'o, 't) async_runner \<Rightarrow> bool" where
  "ar_started r \<longleftrightarrow> ar_base r \<and> \<not> ar_pending r"

lemma start_spec: "op_spec ar_fresh (start_async_ffn env) (\<lambda>_ r. ar_started r \<and> ar_connected r) ar_started"
proof -
  have connect: "op_spec ar_fresh (op_lift (\<lambda>s. ae_connect env (ar_log s))) (\<lambda>_. ar_fresh) ar_started"
    by (rule spec_lift) (auto simp: ar_fresh_def ar_started_def)
  have keep: "op_spec ar_starting m (\<lambda>_. ar_starting) ar_started" if "keeps ar_starting m" for m :: "(('a, 'b, 'c) async_runner, 'd) op"
    by (rule spec_keeps [OF that]) (simp add: ar_starting_def ar_started_def)
  have keep_unit: "op_spec ar_starting m (\<lambda>_. ar_starting) ar_started" if "keeps ar_starting m" for m :: "(('a, 'b, 'c) async_runner, unit) op"
    by (rule spec_keeps [OF that]) (simp add: ar_starting_def ar_started_def)
  have emit: "keeps ar_starting (ar_emit x :: (('a, 'b, 'c) async_runner, unit) op)" if "x \<noteq> Replayed" "x \<noteq> ModelFreed" for x
    by (rule keeps_emit) (use that in \<open>auto simp: ar_starting_def ar_base_def idle_log_snoc\<close>)
  have forward: "keeps ar_starting (ffn_forward_connector_driven env b)" for b
    by (rule forward_keeps) (auto simp: ar_starting_def ar_base_def)
  have full: "op_spec ar_starting
       (op_bind (op_lift (\<lambda>s. guard (ar_executor s = None) AssertionError)) (\<lambda>_.
       op_bind (op_lift (\<lambda>_. ae_chunks env)) (\<lambda>chunks.
       op_bind (op_mapM (\<lambda>_. ffn_forward_connector_driven env True) (py_range 0 chunks)) (\<lambda>_.
       op_bind (op_lift (\<lambda>s. ae_wait env (ar_log s))) (\<lambda>_.
       op_bind (ar_emit Warmed) (\<lambda>_.
       op_bind (op_lift (\<lambda>s. ae_phase env (ar_log s) ''warmup'')) (\<lambda>_.
       op_bind (ar_emit (PhasePassed ''warmup'')) (\<lambda>_.
       op_bind (capture_graph env) (\<lambda>_.
       op_bind (op_lift (\<lambda>s. ae_phase env (ar_log s) ''captured'')) (\<lambda>_.
       ar_emit (PhasePassed ''captured'')))))))))))
     (\<lambda>_. ar_starting) ar_started"
    by (rule keep_unit) (intro keeps_intros emit forward starting_capture; simp)
  have eager: "op_spec (\<lambda>r. ar_fresh r \<and> ar_connected r) (op_return ()) (\<lambda>_ r. ar_started r \<and> ar_connected r) ar_started"
    by (rule spec_return) (auto simp: ar_fresh_def ar_started_def)
  have go: "op_spec ar_fresh (op_bind (op_modify (\<lambda>s. s\<lparr>ar_connected := True, ar_mode := mode\<rparr>)) (\<lambda>_. if mode \<noteq> ''full'' then op_return () else m))
      (\<lambda>_ r. ar_started r \<and> ar_connected r) ar_started"
    if m: "op_spec ar_starting m (\<lambda>_. ar_starting) ar_started" for mode and m :: "(('a, 'b, 'c) async_runner, unit) op"
  proof (cases "mode = ''full''")
    case True
    have set: "op_spec ar_fresh (op_modify (\<lambda>s. s\<lparr>ar_connected := True, ar_mode := mode\<rparr>)) (\<lambda>_. ar_starting) ar_started"
      by (rule spec_modify) (use True in \<open>auto simp: ar_fresh_def ar_starting_def ar_base_def\<close>)
    have "op_spec ar_starting m (\<lambda>_ r. ar_started r \<and> ar_connected r) ar_started"
      by (rule spec_weaken [OF m]) (auto simp: ar_starting_def ar_started_def)
    then show ?thesis using spec_bind [OF set] True by simp
  next
    case False
    have set: "op_spec ar_fresh (op_modify (\<lambda>s. s\<lparr>ar_connected := True, ar_mode := mode\<rparr>)) (\<lambda>_ r. ar_fresh r \<and> ar_connected r) ar_started"
      by (rule spec_modify) (auto simp: ar_fresh_def ar_base_def)
    show ?thesis using spec_bind [OF set eager] False by simp
  qed
  show ?thesis unfolding start_async_ffn_def by (rule spec_bind [OF connect go [OF full]])
qed

lemma initialize_running:
  assumes "ar_running r"
  shows "ar_running (fst (initialize_async_ffn env r)) \<and> (\<not> ar_pending r \<longrightarrow> \<not> ar_pending (fst (initialize_async_ffn env r))) \<and>
    (ar_pending r \<longrightarrow> fst (initialize_async_ffn env r) = r)"
proof (cases "ar_failure r = None \<and> \<not> ar_connected r \<and> ar_loaded r")
  case False
  then have "fst (initialize_async_ffn env r) = r"
    by (auto simp: initialize_async_ffn_def op_bind_def guard_def)
  then show ?thesis using assms by simp
next
  case True
  then have fresh: "\<not> ar_graph r" "ar_two r = None" "\<not> ar_pending r" using assms by (auto simp: ar_defs)
  have none: "ar_running (r\<lparr>ar_layer_ids := ids\<rparr>) \<and> \<not> ar_pending (r\<lparr>ar_layer_ids := ids\<rparr>)" for ids using assms fresh by (simp add: ar_defs)
  show ?thesis
  proof (cases "remote_layer_ids (ae_target_ids env) (ae_draft_ids env)")
    case (Inl e)
    then have "fst (initialize_async_ffn env r) = r" using True by (simp add: initialize_async_ffn_def op_bind_def guard_def)
    then show ?thesis using assms by simp
  next
    case (Inr ids)
    show ?thesis
    proof (cases "prepare_async_ffn (ae_query env) (ae_extra env) (ae_requested env) (ae_signature env) (ae_session env) ids")
      case (Inl e)
      then have "fst (initialize_async_ffn env r) = r\<lparr>ar_layer_ids := ids\<rparr>" using True Inr by (simp add: initialize_async_ffn_def op_bind_def guard_def)
      then show ?thesis using none fresh by simp
    next
      case prep: (Inr x)
      obtain ex two p where x: "x = (ex, two, p)" by (cases x)
      let ?s = "r\<lparr>ar_layer_ids := ids, ar_executor := ex, ar_two := two, ar_plan := Some p\<rparr>"
      have "ar_fresh ?s" using assms fresh by (simp add: ar_defs ar_fresh_def)
      note st = op_specD [OF start_spec this, of env]
      obtain t y where t: "start_async_ffn env ?s = (t, y)" by fastforce
      have run: "initialize_async_ffn env r = (case y of Inl e \<Rightarrow> (t\<lparr>ar_failure := Some e\<rparr>, Inl e) | Inr x \<Rightarrow> (t, Inr x))"
        using True Inr prep x t by (cases y) (simp_all add: initialize_async_ffn_def op_bind_def guard_def)
      show ?thesis
        using st t run fresh(3) by (cases y) (auto simp: ar_started_def ar_running_def ar_connected_ok_def ar_base_def)
    qed
  qed
qed

lemma initialize_gone: "ar_gone r \<Longrightarrow> fst (initialize_async_ffn env r) = r \<and> isl (snd (initialize_async_ffn env r))"
  by (auto simp: ar_gone_def initialize_async_ffn_def op_bind_def guard_def)

text \<open>A step.\<close>

definition ar_busy :: "('p, 'o, 't) async_runner \<Rightarrow> bool" where
  "ar_busy r \<longleftrightarrow> ar_running r \<and> ar_pending r"

lemma check_graph_spec: "op_spec P check_graph_live (\<lambda>_. P) P"
  unfolding check_graph_live_def by (rule spec_lift)

lemma submit_graph_spec:
  fixes env :: "('p, 'o, 't) ar_env"
  shows "op_spec ar_calm (submit_graph env n) (\<lambda>_. ar_busy) ar_running"
proof -
  have two: "op_spec (\<lambda>r. ar_calm r \<and> ar_two r \<noteq> None)
      (op_bind (op_lift (\<lambda>s. guard (ar_pending s \<or> ar_receiver_exited s) (RuntimeError ''Async FFN graph is not ready for replay''))) (\<lambda>_.
       op_bind (op_modify (\<lambda>s. s\<lparr>ar_pending := True\<rparr>)) (\<lambda>_.
       op_bind (on_session (tw_submit (ae_two env) n)) (\<lambda>_.
       op_modify (\<lambda>s. s\<lparr>ar_replay_count := tw_sequence (the (ar_two s))\<rparr>))))) (\<lambda>_. ar_busy) ar_running"
  proof -
    have a: "op_spec (\<lambda>r. ar_calm r \<and> ar_two r \<noteq> None) (op_lift (\<lambda>s. guard (ar_pending s \<or> ar_receiver_exited s) e))
      (\<lambda>_ r. ar_calm r \<and> ar_two r \<noteq> None) ar_running" for e by (rule spec_lift) (auto simp: ar_calm_def)
    have b: "op_spec (\<lambda>r. ar_calm r \<and> ar_two r \<noteq> None) (op_modify (\<lambda>s. s\<lparr>ar_pending := True\<rparr>)) (\<lambda>_. ar_busy) ar_running"
      by (rule spec_modify) (auto simp: ar_defs ar_busy_def)
    have c: "op_spec ar_busy (on_session (tw_submit (ae_two env) n)) (\<lambda>_. ar_busy) ar_running"
      by (rule spec_keeps [OF keeps_session]) (auto simp: ar_busy_def ar_defs)
    have d: "op_spec ar_busy (op_modify (\<lambda>s. s\<lparr>ar_replay_count := tw_sequence (the (ar_two s))\<rparr>)) (\<lambda>_. ar_busy) ar_running"
      by (rule spec_modify) (auto simp: ar_busy_def ar_defs)
    show ?thesis by (rule spec_bind [OF a] spec_bind [OF b] spec_bind [OF c] d)+
  qed
  define held where "held = (\<lambda>r :: ('p, 'o, 't) async_runner. ar_busy r \<and> ar_graph r \<and> ar_two r = None)"
  have one: "op_spec (\<lambda>r :: ('p, 'o, 't) async_runner. ar_calm r \<and> ar_two r = None)
      (op_bind (op_lift (\<lambda>s. guard (\<not> ar_graph s \<or> ar_capture_count s \<noteq> 1 \<or> ar_pending s \<or> ar_receiver_exited s \<or> n < 1)
         (RuntimeError ''Async FFN graph is not ready for replay''))) (\<lambda>_.
       op_bind (op_modify (\<lambda>s. s\<lparr>ar_pending := True\<rparr>)) (\<lambda>_.
       op_bind (ar_try (op_mapM (\<lambda>_.
         op_bind (ar_emit Replayed) (\<lambda>_.
         op_bind (op_lift (\<lambda>s. ae_replay env (ar_log s))) (\<lambda>_.
         op_modify (\<lambda>s. s\<lparr>ar_replay_count := ar_replay_count s + 1\<rparr>)))) (py_range 0 n))) (\<lambda>_. op_return ())))) (\<lambda>_. ar_busy) ar_running"
  proof -
    have a: "op_spec (\<lambda>r. ar_calm r \<and> ar_two r = None)
      (op_lift (\<lambda>s. guard (\<not> ar_graph s \<or> ar_capture_count s \<noteq> 1 \<or> ar_pending s \<or> ar_receiver_exited s \<or> n < 1) e))
      (\<lambda>_ r. ar_calm r \<and> ar_two r = None \<and> ar_graph r) ar_running" for e
      by (rule spec_lift) (auto simp: ar_calm_def guard_def split: if_splits)
    have b: "op_spec (\<lambda>r. ar_calm r \<and> ar_two r = None \<and> ar_graph r) (op_modify (\<lambda>s. s\<lparr>ar_pending := True\<rparr>)) (\<lambda>_. held) ar_running"
      by (rule spec_modify) (auto simp: ar_defs ar_busy_def held_def)
    have c: "keeps held (ar_try (op_mapM (\<lambda>_. op_bind (ar_emit Replayed) (\<lambda>_.
         op_bind (op_lift (\<lambda>s. ae_replay env (ar_log s))) (\<lambda>_.
         op_modify (\<lambda>s. s\<lparr>ar_replay_count := ar_replay_count s + 1\<rparr>)))) (py_range 0 n)))"
      by (intro keeps_ar_try keeps_intros keeps_emit) (auto simp: held_def ar_busy_def ar_defs)
    have d: "op_spec held (op_return ()) (\<lambda>_. ar_busy) ar_running" by (rule spec_return) (simp add: held_def)
    have c': "op_spec held (ar_try (op_mapM (\<lambda>_. op_bind (ar_emit Replayed) (\<lambda>_.
         op_bind (op_lift (\<lambda>s. ae_replay env (ar_log s))) (\<lambda>_.
         op_modify (\<lambda>s. s\<lparr>ar_replay_count := ar_replay_count s + 1\<rparr>)))) (py_range 0 n))) (\<lambda>_. held) ar_running"
      by (rule spec_keeps [OF c]) (auto simp: held_def ar_busy_def)
    show ?thesis by (rule spec_bind [OF a] spec_bind [OF b] spec_bind [OF c'] d)+
  qed
  show ?thesis
    unfolding op_spec_def
  proof (intro allI impI)
    fix r :: "('p, 'o, 't) async_runner" assume r: "ar_calm r"
    show "case submit_graph env n r of (t, Inl e) \<Rightarrow> ar_running t | (t, Inr x) \<Rightarrow> ar_busy t"
    proof (cases "snd (check_graph_live r)")
      case (Inl e)
      then have "submit_graph env n r = (r, Inl e)" by (simp add: submit_graph_def op_bind_def check_graph_live_def)
      then show ?thesis using r by (simp add: ar_calm_def)
    next
      case (Inr u)
      show ?thesis
      proof (cases "ar_two r = None")
        case True
        then show ?thesis using op_specD [OF one, of r] r Inr by (simp add: submit_graph_def op_bind_def check_graph_live_def)
      next
        case False
        then show ?thesis using op_specD [OF two, of r] r Inr by (simp add: submit_graph_def op_bind_def check_graph_live_def)
      qed
    qed
  qed
qed

lemma complete_graph_spec:
  fixes env :: "('p, 'o, 't) ar_env"
  shows "op_spec ar_busy (complete_graph env) (\<lambda>_. ar_calm) ar_running"
proof -
  have fin: "op_spec ar_calm (op_return b) (\<lambda>_. ar_calm) ar_running" for b :: bool by (rule spec_return)
  have two: "op_spec (\<lambda>r. ar_busy r \<and> ar_two r \<noteq> None) (op_bind (on_session (tw_complete (ae_two env) None)) (\<lambda>b.
       op_bind (op_modify (\<lambda>s. s\<lparr>ar_pending := False\<rparr>)) (\<lambda>_. op_return b))) (\<lambda>_. ar_calm) ar_running"
  proof -
    have a: "op_spec (\<lambda>r. ar_busy r \<and> ar_two r \<noteq> None) (on_session (tw_complete (ae_two env) None)) (\<lambda>_ r. ar_busy r \<and> ar_two r \<noteq> None) ar_running"
      by (rule spec_keeps [OF keeps_session]) (auto simp: ar_busy_def ar_defs)
    have b: "op_spec (\<lambda>r. ar_busy r \<and> ar_two r \<noteq> None) (op_modify (\<lambda>s. s\<lparr>ar_pending := False\<rparr>)) (\<lambda>_. ar_calm) ar_running"
      by (rule spec_modify) (auto simp: ar_busy_def ar_defs)
    show ?thesis by (rule spec_bind [OF a] spec_bind [OF b] fin)+
  qed
  define synced where "synced = (\<lambda>r :: ('p, 'o, 't) async_runner. ar_busy r \<and> idle_log (ar_log r))"
  have one: "op_spec (\<lambda>r :: ('p, 'o, 't) async_runner. ar_busy r \<and> ar_two r = None)
      (op_bind (op_lift (\<lambda>s. guard (\<not> ar_pending s) (RuntimeError ''Async FFN has no pending replay''))) (\<lambda>_.
       op_bind (ar_try (op_bind (op_lift (\<lambda>s. ae_sync env (ar_log s))) (\<lambda>_. ar_emit Synced))) (\<lambda>_.
       op_bind (op_modify (\<lambda>s. s\<lparr>ar_pending := False\<rparr>)) (\<lambda>_. op_return True)))) (\<lambda>_. ar_calm) ar_running"
  proof -
    have a: "op_spec (\<lambda>r :: ('p, 'o, 't) async_runner. ar_busy r \<and> ar_two r = None) (op_lift (\<lambda>s. guard (\<not> ar_pending s) e))
        (\<lambda>_ r. ar_busy r \<and> ar_two r = None) ar_running" for e
      by (rule spec_lift) (auto simp: ar_busy_def)
    have b: "op_spec (\<lambda>r :: ('p, 'o, 't) async_runner. ar_busy r \<and> ar_two r = None)
        (ar_try (op_bind (op_lift (\<lambda>s. ae_sync env (ar_log s))) (\<lambda>_. ar_emit Synced))) (\<lambda>_. synced) ar_running"
      unfolding op_spec_def ar_try_def ar_emit_def synced_def
      by (auto simp: op_bind_def ar_busy_def ar_defs idle_log_synced split: sum.splits)
    have c: "op_spec synced (op_modify (\<lambda>s. s\<lparr>ar_pending := False\<rparr>)) (\<lambda>_. ar_calm) ar_running"
      by (rule spec_modify) (auto simp: synced_def ar_busy_def ar_defs)
    show ?thesis by (rule spec_bind [OF a] spec_bind [OF b] spec_bind [OF c] fin)+
  qed
  show ?thesis
    unfolding op_spec_def
  proof (intro allI impI)
    fix r :: "('p, 'o, 't) async_runner" assume r: "ar_busy r"
    show "case complete_graph env r of (t, Inl e) \<Rightarrow> ar_running t | (t, Inr x) \<Rightarrow> ar_calm t"
    proof (cases "snd (check_graph_live r)")
      case (Inl e)
      then have "complete_graph env r = (r, Inl e)" by (simp add: complete_graph_def op_bind_def check_graph_live_def)
      then show ?thesis using r by (simp add: ar_busy_def)
    next
      case (Inr u)
      show ?thesis
      proof (cases "ar_two r = None")
        case True
        then show ?thesis using op_specD [OF one, of r] r Inr by (simp add: complete_graph_def op_bind_def check_graph_live_def)
      next
        case False
        then show ?thesis using op_specD [OF two, of r] r Inr by (simp add: complete_graph_def op_bind_def check_graph_live_def)
      qed
    qed
  qed
qed

lemma execute_spec:
  fixes env :: "('p, 'o, 't) ar_env"
  shows "op_spec ar_calm (execute_connector_driven_step env) (\<lambda>_. ar_calm) ar_running"
proof -
  have eager: "op_spec ar_calm (op_bind (ffn_forward_connector_driven env False) (\<lambda>_. op_return True)) (\<lambda>_. ar_calm) ar_running"
  proof (rule spec_bind)
    show "op_spec ar_calm (ffn_forward_connector_driven env False) (\<lambda>_. ar_calm) ar_running"
      by (rule spec_keeps [OF forward_keeps]) (auto simp: ar_defs)
  qed (rule spec_return)
  have announce: "op_spec ar_calm (if announced then op_return ()
         else op_bind (op_lift (\<lambda>s. ae_service env (ar_log s))) (\<lambda>_.
           op_bind (ar_emit ServiceReady) (\<lambda>_. op_modify (\<lambda>s. s\<lparr>ar_announced := True\<rparr>)))) (\<lambda>_ r :: ('p, 'o, 't) async_runner. ar_calm r) ar_running" for announced
  proof (rule spec_keeps)
    show "keeps ar_calm (if announced then op_return ()
         else op_bind (op_lift (\<lambda>s. ae_service env (ar_log s))) (\<lambda>_.
           op_bind (ar_emit ServiceReady) (\<lambda>_. op_modify (\<lambda>s :: ('p, 'o, 't) async_runner. s\<lparr>ar_announced := True\<rparr>))))"
      by (intro keeps_intros keeps_emit) (auto simp: ar_defs idle_log_snoc)
  qed (simp add: ar_calm_def)
  have get: "op_spec ar_calm (op_get f) (\<lambda>_ r :: ('p, 'o, 't) async_runner. ar_calm r) ar_running" for f :: "('p, 'o, 't) async_runner \<Rightarrow> 'b"
    by (simp add: op_spec_def)
  have geti: "op_spec ar_calm (op_get f) (\<lambda>_ r :: ('p, 'o, 't) async_runner. ar_calm r) ar_running" for f :: "('p, 'o, 't) async_runner \<Rightarrow> int"
    by (simp add: op_spec_def)
  have getb: "op_spec ar_calm (op_get f) (\<lambda>_ r :: ('p, 'o, 't) async_runner. ar_calm r) ar_running" for f :: "('p, 'o, 't) async_runner \<Rightarrow> bool"
    by (simp add: op_spec_def)
  have graph: "op_spec ar_calm (op_bind (op_get ar_announced) (\<lambda>announced.
       op_bind (if announced then op_return ()
         else op_bind (op_lift (\<lambda>s. ae_service env (ar_log s))) (\<lambda>_.
           op_bind (ar_emit ServiceReady) (\<lambda>_. op_modify (\<lambda>s. s\<lparr>ar_announced := True\<rparr>)))) (\<lambda>_.
       op_bind (op_get (\<lambda>s. int (length (ar_layer_ids s)))) (\<lambda>n.
       op_bind (submit_graph env n) (\<lambda>_. complete_graph env))))) (\<lambda>_. ar_calm) ar_running"
    by (rule spec_bind [OF getb] spec_bind [OF announce] spec_bind [OF geti] spec_bind [OF submit_graph_spec] complete_graph_spec)+
  show ?thesis unfolding execute_connector_driven_step_def
    by (rule spec_bind [OF getb]) (rule spec_if [OF eager graph])
qed

text \<open>A shutdown.\<close>

lemma shutdown_first:
  assumes "ar_calm r" "ar_failure r = None"
    and "(if ar_two r \<noteq> None then op_bind (on_session (tw_close (ar_receiver_exited r))) (\<lambda>_. op_modify (\<lambda>s. s\<lparr>ar_two := None\<rparr>))
         else if ar_graph r then close_graph else op_return ()) r = (t, x)"
  shows "case x of Inl e \<Rightarrow> ar_calm t | Inr _ \<Rightarrow> ModelFreed \<notin> set (ar_log t) \<and> idle_log (ar_log t)"
proof (cases "ar_two r")
  case None
  then show ?thesis using assms
    by (auto simp: close_graph_def check_graph_live_def guard_def op_bind_def ar_emit_def ar_defs idle_log_snoc split: if_splits)
next
  case (Some w)
  obtain w' y where "tw_close (ar_receiver_exited r) w = (w', y)" by fastforce
  then show ?thesis using assms Some by (cases y) (auto simp: on_session_def op_bind_def ar_defs)
qed

lemma shutdown_spec: "op_spec ar_calm ar_do_shutdown (\<lambda>_. ar_gone) ar_calm"
proof -
  have "case ar_do_shutdown r of (t, Inl e) \<Rightarrow> ar_calm t | (t, Inr x) \<Rightarrow> ar_gone t" if r: "ar_calm r" for r :: "('a, 'b, 'c) async_runner"
  proof (cases "ar_failure r")
    case (Some e)
    then show ?thesis using r by (simp add: ar_do_shutdown_def ar_defs)
  next
    case None
    let ?m = "if ar_two r \<noteq> None then op_bind (on_session (tw_close (ar_receiver_exited r))) (\<lambda>_. op_modify (\<lambda>s. s\<lparr>ar_two := None\<rparr>))
         else if ar_graph r then close_graph else op_return ()"
    obtain t x where m: "?m r = (t, x)" by fastforce
    note first = shutdown_first [OF r None m]
    have live: "\<not> ar_shutdown r" using r by (simp add: ar_defs)
    show ?thesis
    proof (cases x)
      case (Inl e)
      then show ?thesis using first m live None by (simp add: ar_do_shutdown_def op_bind_run(2) [of ?m r t e])
    next
      case (Inr u)
      then have "idle_log (ar_log t @ [ConnectorClosed])" "ModelFreed \<notin> set (ar_log t @ [ConnectorClosed])" using first by (simp_all add: idle_log_snoc)
      then have "freed_ok (ar_log t @ [ConnectorClosed, ModelFreed])" using freed_ok_first by fastforce
      then show ?thesis using Inr m live None
        by (simp add: ar_do_shutdown_def op_bind_run(1) [of ?m r t u] ar_emit_def op_bind_def ar_gone_def)
    qed
  qed
  then show ?thesis by (simp add: op_spec_def)
qed

section \<open>Stopping\<close>

text \<open>Of the worker: its loop runs in a thread of its own; work is left pending only by a step that raised, and that error is kept.\<close>

definition worker_ok :: "('p, 'o, 't) async_worker \<Rightarrow> bool" where
  "worker_ok w \<longleftrightarrow> (aw_alive w \<longrightarrow> aw_thread w) \<and>
     ((ar_gone (aw_runner w) \<and> \<not> aw_alive w) \<or>
      (ar_running (aw_runner w) \<and> (ar_pending (aw_runner w) \<longrightarrow> \<not> aw_alive w \<and> aw_error w \<noteq> None)))"

lemma no_drain_calm: "ar_running (aw_runner w) \<Longrightarrow> \<not> requires_async_drain w \<Longrightarrow> \<not> ar_pending (aw_runner w) \<and> \<not> ar_graph (aw_runner w)"
  by (auto simp: requires_async_drain_def ar_defs)

lemma ar_exited_running: "ar_running (r\<lparr>ar_receiver_exited := b\<rparr>) = ar_running r"
  by (simp add: ar_defs)

lemma thread_move_ok:
  assumes "worker_ok w" "aw_alive w"
  shows "worker_ok (thread_move env w)"
proof -
  have r: "ar_running (aw_runner w)" "\<not> ar_pending (aw_runner w)" "aw_thread w" using assms by (auto simp: worker_ok_def)
  show ?thesis
  proof (cases "aw_in_step w")
    case False
    then show ?thesis using r assms(2) by (auto simp: thread_move_def Let_def worker_ok_def ar_exited_running)
  next
    case True
    obtain t x where x: "execute_connector_driven_step env (aw_runner w) = (t, x)" by fastforce
    have calm: "ar_calm (aw_runner w)" using r by (simp add: ar_calm_def)
    note st = op_specD [OF execute_spec calm, of env, unfolded x]
    have drain: "\<not> requires_async_drain (w\<lparr>aw_runner := t\<rparr>) \<Longrightarrow> ar_running t \<Longrightarrow> \<not> ar_pending t"
      using no_drain_calm [of "w\<lparr>aw_runner := t\<rparr>"] by simp
    show ?thesis
    proof (cases x)
      case (Inl e)
      then show ?thesis using st r True assms(2) x drain by (auto simp: thread_move_def Let_def worker_ok_def)
    next
      case (Inr b)
      then have t: "ar_running t" "\<not> ar_pending t" using st by (simp_all add: ar_calm_def)
      show ?thesis
        using Inr t r True assms(2) x
        by (cases b; cases "ae_sync env (ar_log t)") (auto simp: thread_move_def Let_def worker_ok_def ar_exited_running)
    qed
  qed
qed

lemma stop_begins_ok:
  assumes "worker_ok w"
  shows "worker_ok (stop_begins w)"
proof (cases "requires_async_drain w")
  case True
  then show ?thesis using assms by (auto simp: stop_begins_def Let_def worker_ok_def)
next
  case False
  let ?r = "(aw_runner w)\<lparr>ar_connected := False, ar_log := ar_log (aw_runner w) @ [ConnectorClosed]\<rparr>"
  have "ar_gone (aw_runner w) \<Longrightarrow> ar_gone ?r" by (auto simp: ar_gone_def freed_ok_snoc)
  moreover have "ar_running ?r \<and> \<not> ar_pending ?r" if run: "ar_running (aw_runner w)"
  proof -
    have "ar_two (aw_runner w) = None" using False by (simp add: requires_async_drain_def)
    then show ?thesis using run no_drain_calm [OF run False] by (auto simp: ar_defs idle_log_snoc)
  qed
  ultimately show ?thesis using assms False by (auto simp: stop_begins_def Let_def worker_ok_def)
qed

lemma raise_loop_error_run:
  "raise_loop_error w = (case aw_error w of None \<Rightarrow> (w, Inr ())
     | Some e \<Rightarrow> (if requires_async_drain w then w else w\<lparr>aw_error := None\<rparr>, Inl (RuntimeError ''AFD NPU FFN worker loop failed'')))"
  by (simp add: raise_loop_error_def)

lemma raise_loop_error_ok: "worker_ok w \<Longrightarrow> worker_ok (fst (raise_loop_error w))"
  using no_drain_calm [of w] by (auto simp: raise_loop_error_def worker_ok_def split: option.split)

lemma initialize_ok:
  assumes "worker_ok w"
  shows "worker_ok (fst (on_runner (initialize_async_ffn env) w))"
proof -
  let ?r = "fst (initialize_async_ffn env (aw_runner w))"
  have f: "fst (on_runner (initialize_async_ffn env) w) = w\<lparr>aw_runner := ?r\<rparr>" by (simp add: on_runner_def split: prod.split)
  show ?thesis
  proof (cases "ar_gone (aw_runner w)")
    case True
    then show ?thesis using assms initialize_gone [OF True, of env] by (simp add: f worker_ok_def)
  next
    case False
    then have "ar_running (aw_runner w)" using assms by (simp add: worker_ok_def)
    from initialize_running [OF this, of env] show ?thesis using assms False by (auto simp: f worker_ok_def)
  qed
qed

lemma start_ok:
  assumes "worker_ok w"
  shows "worker_ok (fst (start_server_loop env w))"
proof (cases "(aw_thread w \<and> aw_alive w) \<or> aw_error w \<noteq> None")
  case True
  then have "fst (start_server_loop env w) = fst (raise_loop_error w)"
    by (auto simp: start_server_loop_def op_bind_def raise_loop_error_def split: option.splits)
  then show ?thesis using raise_loop_error_ok [OF assms] by simp
next
  case False
  then have err: "aw_error w = None" and dead: "\<not> aw_alive w" using assms by (auto simp: worker_ok_def)
  let ?go = "\<lambda>w. w\<lparr>aw_event := Some False, aw_error := None, aw_thread := True, aw_alive := True, aw_in_step := False\<rparr>"
  have go: "worker_ok (?go v)" if "ar_running (aw_runner v)" "\<not> ar_pending (aw_runner v)" for v using that by (simp add: worker_ok_def)
  show ?thesis
  proof (cases "ar_connected (aw_runner w)")
    case True
    then have "\<not> ar_gone (aw_runner w)" by (simp add: ar_gone_def)
    then have "ar_running (aw_runner w)" "\<not> ar_pending (aw_runner w)" using assms err by (auto simp: worker_ok_def)
    moreover have "fst (start_server_loop env w) = ?go w"
      using True False err by (auto simp: start_server_loop_def op_bind_def raise_loop_error_def)
    ultimately show ?thesis using go by simp
  next
    case conn: False
    obtain r x where i: "initialize_async_ffn env (aw_runner w) = (r, x)" by fastforce
    have run: "fst (start_server_loop env w) = (case x of Inl e \<Rightarrow> w\<lparr>aw_runner := r\<rparr> | Inr _ \<Rightarrow> ?go (w\<lparr>aw_runner := r\<rparr>))"
      using conn False err i by (auto simp: start_server_loop_def op_bind_def raise_loop_error_def on_runner_def split: sum.split)
    show ?thesis
    proof (cases x)
      case (Inl e)
      then have "fst (start_server_loop env w) = fst (on_runner (initialize_async_ffn env) w)" using run i by (simp add: on_runner_def)
      then show ?thesis using initialize_ok [OF assms] by simp
    next
      case (Inr u)
      then have "\<not> ar_gone (aw_runner w)" using initialize_gone [of "aw_runner w" env] i by auto
      then have "ar_running (aw_runner w)" "\<not> ar_pending (aw_runner w)" using assms err by (auto simp: worker_ok_def)
      then have "ar_running r" "\<not> ar_pending r" using initialize_running [of "aw_runner w" env] i by simp_all
      then show ?thesis using go [of "w\<lparr>aw_runner := r\<rparr>"] run Inr by simp
    qed
  qed
qed

lemma stop_joins_ok:
  assumes "worker_ok w"
  shows "worker_ok (fst (stop_joins w))"
proof -
  let ?w = "w\<lparr>aw_stopping := False\<rparr>"
  have ok: "worker_ok ?w" using assms by (simp add: worker_ok_def)
  have drain: "requires_async_drain ?w = requires_async_drain w" by (simp add: requires_async_drain_def)
  show ?thesis
  proof (cases "aw_thread w \<and> aw_alive w")
    case True
    then have "fst (stop_joins w) = ?w" by (simp add: stop_joins_def op_bind_def op_guard_def)
    then show ?thesis using ok by simp
  next
    case False
    then have dead: "\<not> aw_alive w" using assms by (auto simp: worker_ok_def)
    show ?thesis
    proof (cases "requires_async_drain w")
      case no: False
      let ?v = "?w\<lparr>aw_thread := False, aw_event := None\<rparr>"
      have "fst (stop_joins w) = fst (raise_loop_error ?v)"
        using False no by (auto simp: stop_joins_def op_bind_def op_guard_def split: prod.split sum.split)
      moreover have "worker_ok ?v" using ok dead by (simp add: worker_ok_def)
      ultimately show ?thesis using raise_loop_error_ok by simp
    next
      case yes: True
      show ?thesis
      proof (cases "aw_error w")
        case (Some e)
        then have "fst (stop_joins w) = ?w"
          using False yes drain by (simp add: stop_joins_def op_bind_def op_guard_def raise_loop_error_def)
        then show ?thesis using ok by simp
      next
        case None
        obtain r x where s: "ar_do_shutdown (aw_runner w) = (r, x)" by fastforce
        have run: "fst (stop_joins w) = (case x of Inl e \<Rightarrow> ?w\<lparr>aw_runner := r\<rparr> | Inr _ \<Rightarrow> ?w\<lparr>aw_runner := r, aw_thread := False, aw_event := None\<rparr>)"
          using False yes None s by (auto simp: stop_joins_def op_bind_def op_guard_def raise_loop_error_def on_runner_def split: sum.split)
        have "ar_gone r \<or> ar_calm r"
        proof (cases "ar_gone (aw_runner w)")
          case True
          then show ?thesis using s by (simp add: ar_do_shutdown_def ar_gone_def)
        next
          case False
          then have "ar_calm (aw_runner w)" using assms None by (auto simp: worker_ok_def ar_calm_def)
          from op_specD [OF shutdown_spec this] show ?thesis using s by (cases x) auto
        qed
        then show ?thesis using run dead by (cases x) (auto simp: worker_ok_def ar_calm_def)
      qed
    qed
  qed
qed


end
