(* ===== verification/Async_Samples.thy ===== *)
theory Async_Samples
  imports Async_Ffn_Runner
begin

text \<open>
  Concrete runs of the asynchronous CAM connector, its start-up, its sessions and its FFN worker, on which the properties of
  the four theories are applied.
\<close>

section \<open>The connector\<close>

definition sample_extra :: async_extra where
  "sample_extra = \<lparr>ax_dynamic_quant = 1, ax_attn_ranks_per_dp = 2, ax_hccl_buffer_size = Some 512, ax_two_stream = True,
     ax_compute_aic = 8, ax_compute_aiv = 16, ax_combine_aiv = 24\<rparr>"

theorem async_extra_roundtrip_witness:
  "async_extra_from_mapping (PDict (async_extra_to_mapping sample_extra)) = Inr sample_extra"
  by (rule async_extra_roundtrip) (simp_all add: sample_extra_def)

definition sample_async_config :: afd_config where
  "sample_async_config = default_config\<lparr>num_attention_ranks := 4, num_ffn_ranks := 2\<rparr>"

theorem async_world_is_attention_first_witness:
  "concat (map (\<lambda>f. async_experts (projr (build_async_topology (sample_async_config\<lparr>role := PStr ''ffn''\<rparr>) f (Some 6)))) (py_range 0 2)) =
   py_range 0 6"
  using async_world_is_attention_first [of sample_async_config 6] by (simp add: sample_async_config_def)

definition sample_cam :: "int list cam" where
  "sample_cam = \<lparr>cm_initialized = True, cm_topk = 2, cm_max_tokens = 16, cm_tp_size = 1, cm_pending = [], cm_states = (\<lambda>_. None),
     cm_calls = []\<rparr>"

definition sample_ids :: "int \<Rightarrow> int \<Rightarrow> int list tensor" where
  "sample_ids n x = \<lparr>tn_shape = [n, 2], tn_data = [x]\<rparr>"

text \<open>Two dispatches of one stage and one of another, a combine refused for its context, and two combines.\<close>

definition sample_calls :: "int list attn_call list" where
  "sample_calls =
     [SendAttn 0 \<lparr>layer_idx = 3, stage_idx = 0, seq_lens = [5]\<rparr> [5, 8] (Some (sample_ids 5 10)) (Some (sample_ids 5 11)),
      SendAttn 1 \<lparr>layer_idx = 3, stage_idx = 1, seq_lens = [4]\<rparr> [4, 8] (Some (sample_ids 4 20)) (Some (sample_ids 4 21)),
      SendAttn 2 \<lparr>layer_idx = 4, stage_idx = 0, seq_lens = [6]\<rparr> [6, 8] (Some (sample_ids 6 30)) (Some (sample_ids 6 31)),
      RecvFfn 0 (Some 2), RecvFfn 0 (Some 0), RecvFfn 1 None]"

definition sample_tokens :: "nat \<Rightarrow> int" where
  "sample_tokens c = (if c = 0 then 5 else if c = 1 then 4 else 6)"


definition sample_received :: "int list cam_received" where
  "sample_received = \<lparr>cr_rows = [[1], [2], [3], [0]], cr_scales = None, cr_batch_info = [6, 2, 3], cr_group_list = [1, 2]\<rparr>"

theorem work_item_is_answered_witness:
  "\<exists>item. snd (recv_ffn_work_item sample_received 0 8 sample_cam) = Inr item \<and> wi_rows item = [[1], [2], [3]] \<and>
    snd (send_ffn_work_item_output [9] item (map (map uminus) (wi_rows item)) (fst (recv_ffn_work_item sample_received 0 8 sample_cam))) =
      Inr [[- 1], [- 2], [- 3]]"
proof -
  obtain t item where r: "recv_ffn_work_item sample_received 0 8 sample_cam = (t, Inr item)"
  proof (cases "recv_ffn_work_item sample_received 0 8 sample_cam")
    case (Pair t x)
    have "isl (snd (recv_ffn_work_item sample_received 0 8 sample_cam)) = False" by code_simp
    then show ?thesis using that Pair by (cases x) auto
  qed
  have "case snd (recv_ffn_work_item sample_received 0 8 sample_cam) of Inl _ \<Rightarrow> False | Inr i \<Rightarrow> wi_rows i = [[1], [2], [3]]" by code_simp
  then have "wi_rows item = [[1], [2], [3]]" by (simp add: r)
  then show ?thesis using work_item_is_answered [OF r, of "map (map uminus)" "[9]"] r by auto
qed

section \<open>Start-up\<close>

text \<open>One step of a rank when nothing goes wrong, or none.\<close>

definition startup_go :: "nat \<Rightarrow> nat \<Rightarrow> (nat \<Rightarrow> startup_entry) \<Rightarrow> nat \<Rightarrow> startup_state \<Rightarrow> startup_state" where
  "startup_go attn_size world entry r s =
     (let k = su_ranks s r; well = list_all (\<lambda>q. su_errors s q = None) [0..<world] in
      if world \<le> r then s
      else case (rk_status k, rk_todo k) of
        (Running, Work w rep # rest) \<Rightarrow> set_rank r (pass_instr k) s
      | (Running, CheckFailure # rest) \<Rightarrow> if well then set_rank r (pass_instr k) s else s
      | (Running, Publish st # rest) \<Rightarrow> set_rank r (pass_instr k) (s\<lparr>su_published := insert (st, r) (su_published s)\<rparr>)
      | (Running, Await st R # rest) \<Rightarrow> if well then set_rank r (k\<lparr>rk_status := Polling\<rparr>) s else s
      | (Polling, Await st R # rest) \<Rightarrow> if \<forall>q \<in> R. (st, q) \<in> su_published s then set_rank r (pass_instr k) s else s
      | (Running, Decide # rest) \<Rightarrow>
          (case decide attn_size (map entry [0..<world]) of
             Inl e \<Rightarrow> s
           | Inr d \<Rightarrow> set_rank r ((pass_instr k)\<lparr>rk_todo := after_decision attn_size world r d, rk_decision := Some d\<rparr>) s)
      | _ \<Rightarrow> s)"

lemma startup_go_reachable:
  assumes "startup_reachable attn_size world entry s"
  shows "startup_reachable attn_size world entry (startup_go attn_size world entry r s)"
proof (cases "r < world")
  case False
  then show ?thesis using assms by (simp add: startup_go_def Let_def)
next
  case True
  define k where "k = su_ranks s r"
  note k = k_def [symmetric]
  note step = startup_reachable.move [OF assms]
  have well: "list_all (\<lambda>q. su_errors s q = None) [0..<world] \<longleftrightarrow> (\<forall>q < world. su_errors s q = None)" by (auto simp: list_all_iff)
  show ?thesis
  proof (cases "rk_status k")
    case Running
    show ?thesis
    proof (cases "rk_todo k")
      case Nil
      then show ?thesis using assms Running True by (simp add: startup_go_def Let_def k)
    next
      case (Cons i rest)
      show ?thesis
      proof (cases i)
        case (Work w rep)
        then show ?thesis using step [OF startup_step.work [OF True k]] Running Cons True by (simp add: startup_go_def Let_def k)
      next
        case CheckFailure
        then show ?thesis using step [OF startup_step.check_passes [OF True k]] assms Running Cons True
          by (simp add: startup_go_def Let_def k well)
      next
        case (Publish st)
        then show ?thesis using step [OF startup_step.publish [OF True k]] Running Cons True by (simp add: startup_go_def Let_def k)
      next
        case (Await st R)
        then show ?thesis using step [OF startup_step.no_failure [OF True k]] assms Running Cons True
          by (simp add: startup_go_def Let_def k well)
      next
        case Decide
        then show ?thesis using step [OF startup_step.decided [OF True k]] assms Running Cons True
          by (cases "decide attn_size (map entry [0..<world])") (simp_all add: startup_go_def Let_def k)
      qed
    qed
  next
    case Polling
    show ?thesis
    proof (cases "\<exists>st R rest. rk_todo k = Await st R # rest")
      case True
      then obtain st R rest where "rk_todo k = Await st R # rest" by blast
      then show ?thesis using step [OF startup_step.ready [OF \<open>r < world\<close> k Polling]] assms Polling \<open>r < world\<close>
        by (simp add: startup_go_def Let_def k)
    next
      case False
      then have "startup_go attn_size world entry r s = s"
        using Polling by (simp add: startup_go_def Let_def k split: list.split instr.split)
      then show ?thesis using assms by simp
    qed
  qed (use assms in \<open>simp_all add: startup_go_def Let_def k\<close>)
qed

lemma startup_run_reachable:
  "startup_reachable attn_size world entry (fold (startup_go attn_size world entry) rs (initial_startup world))"
proof -
  have "startup_reachable attn_size world entry s \<Longrightarrow> startup_reachable attn_size world entry (fold (startup_go attn_size world entry) rs s)" for s
    by (induction rs arbitrary: s) (simp_all add: startup_go_reachable)
  then show ?thesis using startup_reachable.start by blast
qed

text \<open>One Attention and one FFN rank that start in FULL mode, to the end of it.\<close>

definition sample_entry :: "nat \<Rightarrow> startup_entry" where
  "sample_entry r = (''transport'', if r = 0 then None else
     Some \<lparr>gp_requested = ''full'', gp_graph_error = [], gp_signature = ''sig'', gp_layer_ids = [3, 4],
       gp_stream_signature = [], gp_stream_error = []\<rparr>)"

definition sample_startup :: startup_state where
  "sample_startup = fold (startup_go 1 2 sample_entry) (concat (replicate 24 [0, 1])) (initial_startup 2)"

definition full_decision :: startup_decision where
  "full_decision = \<lparr>sd_mode = ''full'', sd_two_stream = False, sd_warmup_layer = Some 3\<rparr>"

lemma sample_startup_reachable: "startup_reachable 1 2 sample_entry sample_startup"
  unfolding sample_startup_def by (rule startup_run_reachable)

lemma sample_startup_decided:
  "rk_decision (su_ranks sample_startup 0) = Some full_decision" "rk_decision (su_ranks sample_startup 1) = Some full_decision"
  by code_simp+



section \<open>The session\<close>

definition sample_tw_env :: "(nat, nat, nat) tw_env" where
  "sample_tw_env = \<lparr>te_recv = (\<lambda>l. Inr (length l)), te_exec = (\<lambda>l p. ([p], Inr (p + 1))), te_send = (\<lambda>l out p. Inr ()),
     te_replay = (\<lambda>l. if length l > 40 then Inl (RuntimeError ''replay'') else Inr ()), te_sync = (\<lambda>l. Inr ())\<rparr>"

definition sample_session :: "(nat, nat, nat) two_stream" where
  "sample_session = projr (new_two_stream sample_extra 24 48)"

lemma sample_session_new: "new_two_stream sample_extra 24 48 = Inr sample_session"
  by (simp add: sample_session_def new_two_stream_def sample_extra_def)

text \<open>Three eager transactions, a capture, four replayed ones, and the close.\<close>

definition sample_requests :: "tw_request list" where
  "sample_requests = [Submit 3, Complete None, Capture, Submit 4, Complete (Some (\<lambda>_. Inr ())), Close True]"

definition sample_tw_log :: "tw_op list" where
  "sample_tw_log = tw_log (fold (tw_request_step sample_tw_env) sample_requests sample_session)"

theorem two_stream_slots_are_race_free_witness:
  "sample_tw_log ! 2 = WaitReady 0 \<and> sample_tw_log ! 3 = SendOut 0 \<and> sample_tw_log ! 13 = Compute 0 \<and> tw_before sample_tw_log 3 13"
proof -
  have e: "length sample_tw_log > 13" "sample_tw_log ! 2 = WaitReady 0" "sample_tw_log ! 3 = SendOut 0" "sample_tw_log ! 13 = Compute 0"
    by code_simp+
  have "tw_before sample_tw_log 3 13"
    by (rule two_stream_slots_are_race_free [OF sample_session_new, where k = 0 and env = sample_tw_env and requests = sample_requests])
      (simp_all add: sample_tw_log_def [symmetric] e)
  with e show ?thesis by simp
qed

text \<open>The capture done, a replay fails; the close that follows is refused and the graphs are kept.\<close>

theorem failed_session_is_frozen_witness:
  "fold (tw_request_step sample_tw_env) ([Submit 4, Complete None, Capture, Submit 9] @ [Complete None, Close True]) sample_session =
   fold (tw_request_step sample_tw_env) [Submit 4, Complete None, Capture, Submit 9] sample_session"
  by (rule failed_session_is_frozen) code_simp+

section \<open>The runner\<close>

definition sample_query :: layered_query where
  "sample_query = \<lparr>lq_requested = True, lq_cam_connector = True, lq_gate_on_attention = True, lq_target = [3], lq_draft = Some [4],
     lq_a3 = True, lq_dynamic_quant = 1, lq_ops = Inr ()\<rparr>"

definition sample_prepared :: "int list option \<times> (nat, nat, nat) two_stream option \<times> graph_plan" where
  "sample_prepared = projr (prepare_async_ffn sample_query sample_extra ''full'' (\<lambda>ls. ''layers'') (Inr sample_session) [3, 4])"

theorem resolved_plan_is_served_witness:
  "fst sample_prepared = Some [3, 4] \<and> fst (snd sample_prepared) \<noteq> None"
proof -
  obtain ex two p where s: "sample_prepared = (ex, two, p)" by (cases sample_prepared)
  have "isl (prepare_async_ffn sample_query sample_extra ''full'' (\<lambda>ls. ''layers'') (Inr sample_session) [3, 4]) = False" by code_simp
  then have prep: "prepare_async_ffn sample_query sample_extra ''full'' (\<lambda>ls. ''layers'') (Inr sample_session) [3, 4] = Inr (ex, two, p)"
    unfolding s [symmetric] sample_prepared_def
    by (cases "prepare_async_ffn sample_query sample_extra ''full'' (\<lambda>ls. ''layers'') (Inr sample_session) [3, 4]") simp_all
  have "resolve_ffn_mode [snd (snd sample_prepared)] = Inr ''full''" "gp_stream_signature (snd (snd sample_prepared)) \<noteq> []"
    "fst sample_prepared = Some [3, 4]" by code_simp+
  then have "resolve_ffn_mode [p] = Inr ''full''" "gp_stream_signature ([p] ! 0) \<noteq> []" "ex = Some [3, 4]" by (simp_all add: s)
  then show ?thesis using resolved_plan_is_served [OF prep, of "[p]" "''full''"] by (simp add: s)
qed

theorem eager_loops_answer_in_order_witness:
  "\<exists>t. legacy_loop (\<lambda>draft item. Inr (map (map uminus) (wi_rows item))) [9] [4] 8 [sample_received, sample_received] sample_cam =
      (t, Inr [[[- 1], [- 2], [- 3]], [[- 1], [- 2], [- 3]]]) \<and>
    map snd (cm_calls t) = [DispatchRecv, CombineSend [[- 1], [- 2], [- 3]] [6, 2, 3], DispatchRecv, CombineSend [[- 1], [- 2], [- 3]] [6, 2, 3]]"
proof -
  let ?m = "legacy_loop (\<lambda>draft item. Inr (map (map uminus) (wi_rows item))) [9] [4] 8 [sample_received, sample_received] sample_cam"
  obtain t r where m: "?m = (t, r)" by fastforce
  have "snd ?m = Inr [[[- 1], [- 2], [- 3]], [[- 1], [- 2], [- 3]]]" by code_simp
  then have r: "r = Inr [[[- 1], [- 2], [- 3]], [[- 1], [- 2], [- 3]]]" by (simp add: m)
  from eager_loops_answer_in_order [OF disjI1, OF m [unfolded r]]
  show ?thesis using m r by (simp add: round_calls_def sample_received_def sample_cam_def)
qed

text \<open>A rank in FULL mode without two streams: one step of two replays, then a stop while the thread is in its second.\<close>

definition sample_ar_env :: "(nat, nat, nat) ar_env" where
  "sample_ar_env = \<lparr>ae_query = sample_query, ae_extra = sample_extra\<lparr>ax_two_stream := False\<rparr>, ae_requested = ''full'', ae_signature = (\<lambda>ls. ''layers''),
     ae_session = Inl AssertionError, ae_target_ids = [3], ae_draft_ids = [4], ae_connect = (\<lambda>_. Inr ''full''), ae_chunks = Inr 1,
     ae_eager = (\<lambda>_. Inr ()), ae_wait = (\<lambda>_. Inr ()), ae_phase = (\<lambda>_ _. Inr ()), ae_capture = (\<lambda>_. Inr ()), ae_replay = (\<lambda>_. Inr ()),
     ae_sync = (\<lambda>_. Inr ()), ae_service = (\<lambda>_. Inr ()), ae_two = sample_tw_env\<rparr>"

definition sample_moves :: "aw_move list" where
  "sample_moves = [InitConnector, StartLoop, ThreadMove, ThreadMove, ThreadMove, StopBegins, ThreadMove, ThreadMove, StopJoins]"

fun aw_possible :: "('p, 'o, 't) ar_env \<Rightarrow> aw_move list \<Rightarrow> ('p, 'o, 't) async_worker \<Rightarrow> bool" where
  "aw_possible env [] w = True"
| "aw_possible env (m # ms) w = (aw_enabled m w \<and> aw_possible env ms (aw_perform env m w))"

lemma aw_possible_reachable: "aw_possible env ms w \<Longrightarrow> aw_reachable env w \<Longrightarrow> aw_reachable env (fold (aw_perform env) ms w)"
  by (induction ms arbitrary: w) (auto intro: aw_reachable.move)

definition sample_stopped :: "(nat, nat, nat) async_worker" where
  "sample_stopped = fold (aw_perform sample_ar_env) sample_moves new_async_worker"


end
