(* ===== verification/Attention_Runner.thy ===== *)
theory Attention_Runner
  imports Metadata
begin

text \<open>
  The Attention side of a step: \<open>v1/worker/attention_metadata.py\<close>, which builds the sidecar of a
  transaction and publishes its control payload, and the scopes that
  \<open>v1/worker/attention_model_runner_v2.py\<close> puts around vLLM's own execution and graph capture.
  vLLM is a program that calls the hooks installed in a scope, in an order of its own.
\<close>

section \<open>Data\<close>

record afd_sidecar =
  sc_tokens_start_loc :: "int list"
  sc_requests_start_loc :: "int list"
  sc_stage_idx :: int
  sc_tokens_lens :: "int list"
  sc_num_stages :: int
  sc_transaction_id :: string
  sc_tokens_unpadded_lens :: "int list"

record ubatch_slice =
  ub_token_start :: int
  ub_token_stop :: int
  ub_request_start :: int
  ub_num_tokens :: int

text \<open>What is read of vLLM's forward context; the sidecar is its \<open>additional_kwargs["afd_metadata"]\<close>.\<close>

record attn_context =
  ac_ubatch_slices :: "ubatch_slice list option"
  ac_dp_metadata :: "stage_metadata option"
  ac_descriptor_tokens :: "int option"
  ac_full_graph :: bool
  ac_attn_metadata :: bool
  ac_sidecar :: "afd_sidecar option"

record graph_desc =
  gd_num_reqs :: int
  gd_num_tokens :: int
  gd_num_ubatches :: int
  gd_full :: bool

text \<open>The events a capture still expects, and how many it has seen.\<close>

record capture_tracker =
  ct_expected :: "(graph_desc \<times> bool) list"
  ct_index :: nat

datatype attn_event = Published control_payload | ContextReady attn_context | Prepared "attn_context list" | Replay graph_desc

text \<open>The runner: whether its connector has a control plane, the flags and the sidecar of the transaction under way.  The last two
  are what the hooks of the current scope close over: a capture's tracker, and the real token count of a replay hook.\<close>

record attn_runner =
  an_control_plane :: bool
  an_dp_size :: int
  an_dp_rank :: int
  an_warmup :: bool
  an_capturing :: bool
  an_replaying :: bool
  an_profile :: bool
  an_counter :: int
  an_pending :: "afd_sidecar option"
  an_suppress :: bool
  an_log :: "attn_event list"
  an_tracker :: "capture_tracker option"
  an_replay_hook :: "int option"

section \<open>Building metadata\<close>

definition next_transaction_id :: "(attn_runner, string) op" where
  "next_transaction_id =
     op_bind (op_get an_counter) (\<lambda>n.
     op_bind (op_modify (\<lambda>s. s\<lparr>an_counter := n + 1\<rparr>)) (\<lambda>_.
     op_return (''afd-'' @ py_str_int n)))"

text \<open>Several stages only when there are at least two slices.\<close>

definition many_slices :: "ubatch_slice list option \<Rightarrow> ubatch_slice list option" where
  "many_slices slices = (case slices of Some ubs \<Rightarrow> if length ubs > 1 then Some ubs else None | None \<Rightarrow> None)"

definition build_afd_metadata :: "ubatch_slice list option \<Rightarrow> int \<Rightarrow> (attn_runner, afd_sidecar) op" where
  "build_afd_metadata slices num_tokens_unpadded =
     op_bind next_transaction_id (\<lambda>t.
     op_return (case many_slices slices of
         Some ubs \<Rightarrow>
           \<lparr>sc_tokens_start_loc = map ub_token_start ubs, sc_requests_start_loc = map ub_request_start ubs, sc_stage_idx = 0,
            sc_tokens_lens = map ub_num_tokens ubs, sc_num_stages = int (length ubs), sc_transaction_id = t,
            sc_tokens_unpadded_lens = map ub_num_tokens ubs\<rparr>
       | None \<Rightarrow>
           \<lparr>sc_tokens_start_loc = [0], sc_requests_start_loc = [0], sc_stage_idx = 0, sc_tokens_lens = [num_tokens_unpadded],
            sc_num_stages = 1, sc_transaction_id = t, sc_tokens_unpadded_lens = [num_tokens_unpadded]\<rparr>))"

text \<open>\<open>DPMetadata.make\<close> is vLLM's: a native object carries the counts it was made of.\<close>

definition build_ubatch_dp_metadata_list :: "int \<Rightarrow> ubatch_slice list \<Rightarrow> stage_metadata list result" where
  "build_ubatch_dp_metadata_list dp_size ubs =
     map_result (\<lambda>ub.
       if dp_size \<le> 1 then bind_result (make_dp_metadata [ub_num_tokens ub] (Some (ub_num_tokens ub))) (\<lambda>d. Inr (AfdDP d))
       else bind_result (as_tensor32 (replicate (nat dp_size) (ub_num_tokens ub))) (\<lambda>t. Inr (NativeDP t))) ubs"

definition ensure_dp_metadata :: "stage_metadata option \<Rightarrow> (attn_runner, stage_metadata) op" where
  "ensure_dp_metadata d = op_lift (\<lambda>s. case d of
       Some m \<Rightarrow> Inr m
     | None \<Rightarrow>
         if an_dp_size s \<noteq> 1 then Inl (RuntimeError ''AFD expected vLLM DPMetadata for attention DP > 1'')
         else (case an_pending s of
             None \<Rightarrow> Inl (RuntimeError ''AFD metadata is not available for DP metadata fallback'')
           | Some p \<Rightarrow>
               if length (sc_tokens_lens p) \<noteq> 1 then Inl (RuntimeError ''AFD DP=1 fallback only supports one stage'')
               else bind_result (make_dp_metadata [sc_tokens_lens p ! 0] None) (\<lambda>m. Inr (AfdDP m))))"

definition build_capture_dp_metadata :: "int \<Rightarrow> int \<Rightarrow> stage_metadata result" where
  "build_capture_dp_metadata dp_size num_tokens =
     (let counts = replicate (nat dp_size) num_tokens in
      if dp_size > 1 then bind_result (as_tensor32 counts) (\<lambda>t. Inr (NativeDP t))
      else bind_result (make_dp_metadata counts None) (\<lambda>d. Inr (AfdDP d)))"

section \<open>Publishing\<close>

text \<open>\<open>plane\<close> is the connector's control plane: whether it takes the payload, by what went before.\<close>

type_synonym attn_plane = "attn_event list \<Rightarrow> control_payload \<Rightarrow> unit result"

definition attn_emit :: "attn_event \<Rightarrow> (attn_runner, unit) op" where
  "attn_emit x = op_modify (\<lambda>s. s\<lparr>an_log := an_log s @ [x]\<rparr>)"

definition stage_list :: "stage_metadata option \<Rightarrow> ubatch_slice list option \<Rightarrow> (attn_runner, (int \<times> stage_metadata) list) op" where
  "stage_list d slices = (case many_slices slices of
       Some ubs \<Rightarrow> op_bind (op_lift (\<lambda>s. build_ubatch_dp_metadata_list (an_dp_size s) ubs)) (\<lambda>ms.
         op_return (zip (map int [0..<length ms]) ms))
     | None \<Rightarrow> op_bind (ensure_dp_metadata d) (\<lambda>m. op_return [(0, m)]))"

definition attn_send_dp_metadata :: "attn_plane \<Rightarrow> stage_metadata option \<Rightarrow> ubatch_slice list option \<Rightarrow> (attn_runner, unit) op" where
  "attn_send_dp_metadata plane d slices =
     op_bind (op_lift (\<lambda>s. guard (\<not> an_control_plane s) AssertionError)) (\<lambda>_.
     op_bind (stage_list d slices) (\<lambda>stages.
     op_bind (op_lift (\<lambda>s. make_control_payload stages (an_capturing s) (an_warmup s) (an_replaying s) (an_profile s))) (\<lambda>p.
     op_bind (op_lift (\<lambda>s. plane (an_log s) p)) (\<lambda>_.
     attn_emit (Published p)))))"

text \<open>One sidecar for each of the stages vLLM has prepared.\<close>

definition stage_sidecar :: "afd_sidecar \<Rightarrow> nat \<Rightarrow> afd_sidecar" where
  "stage_sidecar m i = m\<lparr>sc_stage_idx := int i, sc_tokens_start_loc := [sc_tokens_start_loc m ! i],
     sc_requests_start_loc := [sc_requests_start_loc m ! i], sc_tokens_lens := [sc_tokens_lens m ! i],
     sc_tokens_unpadded_lens := [sc_tokens_unpadded_lens m ! i]\<rparr>"

definition unpadded_lens :: "ubatch_slice list \<Rightarrow> int \<Rightarrow> int list" where
  "unpadded_lens ubs n = map (\<lambda>ub. max 0 (min (ub_token_stop ub) n - ub_token_start ub)) ubs"

definition install_mrv2_ubatch_metadata ::
  "ubatch_slice list \<Rightarrow> attn_context list \<Rightarrow> int \<Rightarrow> (attn_runner, attn_context list) op" where
  "install_mrv2_ubatch_metadata ubs ctxs n =
     op_bind (op_guard (length ubs \<noteq> length ctxs) AssertionError) (\<lambda>_.
     op_bind (build_afd_metadata (Some ubs) n) (\<lambda>m.
     let m = m\<lparr>sc_tokens_unpadded_lens := unpadded_lens ubs n\<rparr> in
     op_bind (op_guard (\<exists>i < length ctxs. length (sc_tokens_start_loc m) \<le> i) IndexError) (\<lambda>_.
     op_bind (op_modify (\<lambda>s. s\<lparr>an_pending := Some m, an_suppress := True\<rparr>)) (\<lambda>_.
     op_return (map (\<lambda>(i, c). c\<lparr>ac_sidecar := Some (stage_sidecar m i)\<rparr>) (zip [0..<length ctxs] ctxs))))))"

definition is_ubatch_child :: "attn_context \<Rightarrow> afd_sidecar \<Rightarrow> bool" where
  "is_ubatch_child c m \<longleftrightarrow> ac_ubatch_slices c = None \<and> (if sc_num_stages m = 0 then 1 else sc_num_stages m) > 1 \<and> length (sc_tokens_lens m) = 1"

text \<open>\<open>_full_cudagraph_padded_tokens\<close>, and the count a context is taken to have by the GPU runner.\<close>

definition full_cudagraph_padded_tokens :: "attn_context \<Rightarrow> int option" where
  "full_cudagraph_padded_tokens c =
     (if \<not> ac_full_graph c then None else map_option (\<lambda>n. max 1 n) (ac_descriptor_tokens c))"

definition num_tokens_for_context :: "attn_context \<Rightarrow> int result" where
  "num_tokens_for_context c = (case ac_descriptor_tokens c of
     None \<Rightarrow> Inl (RuntimeError ''AFD ModelRunnerV2 requires a native eager BatchDescriptor'') | Some n \<Rightarrow> Inr n)"

text \<open>The shared base class takes it from the DP metadata if there is any.\<close>

definition forward_context_num_tokens :: "attn_context \<Rightarrow> int \<Rightarrow> int result" where
  "forward_context_num_tokens c dp_rank = (case ac_dp_metadata c of
       Some m \<Rightarrow> bind_result (py_get (case m of NativeDP ns \<Rightarrow> ns | AfdDP d \<Rightarrow> num_tokens_across_dp_cpu d) dp_rank) (\<lambda>n. Inr (max 1 n))
     | None \<Rightarrow> (case ac_descriptor_tokens c of
           None \<Rightarrow> Inl (RuntimeError ''AFD requires a native BatchDescriptor'') | Some n \<Rightarrow> Inr (max 1 n)))"

definition install_on_context :: "attn_plane \<Rightarrow> attn_context \<Rightarrow> (attn_runner, attn_context) op" where
  "install_on_context plane c =
     (if (case ac_sidecar c of None \<Rightarrow> False | Some m \<Rightarrow> is_ubatch_child c m) then op_return c
      else
        op_bind (op_get an_pending) (\<lambda>pending.
        op_bind (case pending of
            Some m \<Rightarrow> op_return m
          | None \<Rightarrow> op_bind (op_lift (\<lambda>_. num_tokens_for_context c)) (\<lambda>n.
              op_bind (build_afd_metadata (ac_ubatch_slices c) n) (\<lambda>m.
              op_bind (op_modify (\<lambda>s. s\<lparr>an_pending := Some m\<rparr>)) (\<lambda>_. op_return m)))) (\<lambda>m.
        let c = c\<lparr>ac_sidecar := Some m\<rparr> in
        op_bind (op_get (\<lambda>s. \<not> an_control_plane s \<or> an_suppress s)) (\<lambda>silent.
        if silent then op_return c
        else
          op_bind (case full_cudagraph_padded_tokens c of
              Some n \<Rightarrow> (if ac_ubatch_slices c = None \<or> ac_ubatch_slices c = Some []
                 then op_bind (op_lift (\<lambda>s. build_capture_dp_metadata (an_dp_size s) n)) (\<lambda>d. op_return (Some d))
                 else op_return (ac_dp_metadata c))
            | None \<Rightarrow> op_return (ac_dp_metadata c)) (\<lambda>d.
          op_bind (attn_send_dp_metadata plane d (ac_ubatch_slices c)) (\<lambda>_. op_return c))))))"

text \<open>The GPU runner leaves contexts for KV transfers alone.\<close>

definition install_afd_metadata_on_forward_context :: "attn_plane \<Rightarrow> attn_context \<Rightarrow> (attn_runner, attn_context) op" where
  "install_afd_metadata_on_forward_context plane c =
     (if ac_descriptor_tokens c = None \<and> \<not> ac_attn_metadata c then op_return c else install_on_context plane c)"

section \<open>Hooks\<close>

definition expected_events :: "graph_desc list \<Rightarrow> (graph_desc \<times> bool) list" where
  "expected_events descs = concat (map (\<lambda>d. [(d, True), (d, False)]) descs)"

definition tracker_consume :: "int \<Rightarrow> int \<Rightarrow> int \<Rightarrow> (attn_runner, graph_desc \<times> bool) op" where
  "tracker_consume num_reqs num_tokens num_ubatches = (\<lambda>s. case an_tracker s of
       None \<Rightarrow> (s, Inl AssertionError)
     | Some t \<Rightarrow>
         if length (ct_expected t) \<le> ct_index t then (s, Inl (RuntimeError ''observed extra capture input preparation''))
         else
           let (d, w) = ct_expected t ! ct_index t; s' = s\<lparr>an_tracker := Some (t\<lparr>ct_index := ct_index t + 1\<rparr>)\<rparr> in
           if (num_reqs, num_tokens, num_ubatches) \<noteq> (gd_num_reqs d, gd_num_tokens d, gd_num_ubatches d)
           then (s', Inl (RuntimeError ''capture descriptor/order drift''))
           else (s', Inr (d, w)))"

definition tracker_assert_complete :: "(attn_runner, unit) op" where
  "tracker_assert_complete = op_lift (\<lambda>s. case an_tracker s of
       None \<Rightarrow> Inl AssertionError
     | Some t \<Rightarrow> guard (ct_index t \<noteq> length (ct_expected t)) (RuntimeError ''input-preparation call count drift''))"

text \<open>What vLLM does inside a scope: it creates a forward context, prepares microbatches (the number of requests, of tokens and of
  tokens after padding, and whether a FULL graph is run), replays a graph, prepares the inputs of a capture, or raises.\<close>

datatype native_call =
    NewContext attn_context
  | PrepareUbatches "ubatch_slice list" "attn_context list" int int int bool
  | RunFullgraph graph_desc
  | PrepareCapture int int
  | NativeRaises error

definition set_capture_flags :: "bool \<Rightarrow> (attn_runner, unit) op" where
  "set_capture_flags warm = op_modify (\<lambda>s. s\<lparr>an_warmup := warm, an_capturing := \<not> warm, an_replaying := False\<rparr>)"

definition hook_prepare ::
  "attn_plane \<Rightarrow> ubatch_slice list \<Rightarrow> attn_context list \<Rightarrow> int \<Rightarrow> int \<Rightarrow> int \<Rightarrow> bool \<Rightarrow> (attn_runner, unit) op" where
  "hook_prepare plane ubs ctxs num_reqs num_tokens padded full =
     op_bind (op_get (\<lambda>s. an_tracker s \<noteq> None)) (\<lambda>tracked.
     op_bind (if tracked
       then op_bind (tracker_consume num_reqs padded (int (length ubs))) (\<lambda>(d, w). set_capture_flags w)
       else op_modify (\<lambda>s. s\<lparr>an_replaying := full\<rparr>)) (\<lambda>_.
     op_bind (install_mrv2_ubatch_metadata ubs ctxs num_tokens) (\<lambda>ready.
     op_bind (op_get an_control_plane) (\<lambda>control.
     op_bind (if control then attn_send_dp_metadata plane None (Some ubs) else op_return ()) (\<lambda>_.
     attn_emit (Prepared ready))))))"

definition hook_prepare_capture :: "attn_plane \<Rightarrow> int \<Rightarrow> int \<Rightarrow> (attn_runner, unit) op" where
  "hook_prepare_capture plane num_reqs num_tokens =
     op_bind (tracker_consume num_reqs num_tokens 1) (\<lambda>(d, w).
     op_bind (set_capture_flags w) (\<lambda>_.
     op_bind (build_afd_metadata None (gd_num_tokens d)) (\<lambda>m.
     op_bind (op_modify (\<lambda>s. s\<lparr>an_pending := Some m\<rparr>)) (\<lambda>_.
     op_bind (op_lift (\<lambda>s. build_capture_dp_metadata (an_dp_size s) (gd_num_tokens d))) (\<lambda>c.
     op_bind (attn_send_dp_metadata plane (Some c) None) (\<lambda>_.
     op_modify (\<lambda>s. s\<lparr>an_suppress := True\<rparr>)))))))"

definition hook_run_fullgraph :: "attn_plane \<Rightarrow> int \<Rightarrow> graph_desc \<Rightarrow> (attn_runner, unit) op" where
  "hook_run_fullgraph plane real_tokens d =
     (if gd_num_ubatches d > 1 then
        op_bind (op_lift (\<lambda>s. case an_pending s of None \<Rightarrow> Inl AssertionError
          | Some m \<Rightarrow> guard (sc_num_stages m \<noteq> gd_num_ubatches d) AssertionError)) (\<lambda>_.
        attn_emit (Replay d))
      else (\<lambda>s.
        let (t, r) =
          op_bind (build_afd_metadata None real_tokens) (\<lambda>m.
          op_bind (op_modify (\<lambda>s. s\<lparr>an_pending := Some (m\<lparr>sc_tokens_lens := [gd_num_tokens d]\<rparr>), an_suppress := True,
            an_warmup := False, an_capturing := False, an_replaying := True\<rparr>)) (\<lambda>_.
          op_bind (op_lift (\<lambda>s. build_capture_dp_metadata (an_dp_size s) (gd_num_tokens d))) (\<lambda>c.
          op_bind (attn_send_dp_metadata plane (Some c) None) (\<lambda>_.
          attn_emit (Replay d))))) s
        in (t\<lparr>an_replaying := an_replaying s\<rparr>, r)))"

text \<open>A call of vLLM's with the hooks of the current scope; without one it does its own work only.\<close>

fun native_step :: "attn_plane \<Rightarrow> native_call \<Rightarrow> (attn_runner, unit) op" where
  "native_step plane (NewContext c) =
     op_bind (install_afd_metadata_on_forward_context plane c) (\<lambda>c. attn_emit (ContextReady c))"
| "native_step plane (PrepareUbatches ubs ctxs num_reqs num_tokens padded full) = hook_prepare plane ubs ctxs num_reqs num_tokens padded full"
| "native_step plane (RunFullgraph d) =
     op_bind (op_get an_replay_hook) (\<lambda>hook. case hook of None \<Rightarrow> attn_emit (Replay d) | Some n \<Rightarrow> hook_run_fullgraph plane n d)"
| "native_step plane (PrepareCapture num_reqs num_tokens) =
     op_bind (op_get (\<lambda>s. an_tracker s \<noteq> None)) (\<lambda>tracked.
     if tracked then hook_prepare_capture plane num_reqs num_tokens else op_return ())"
| "native_step plane (NativeRaises e) = op_raise e"

fun native_run :: "attn_plane \<Rightarrow> native_call list \<Rightarrow> (attn_runner, unit) op" where
  "native_run plane [] = op_return ()"
| "native_run plane (c # cs) = op_bind (native_step plane c) (\<lambda>_. native_run plane cs)"

section \<open>Scopes\<close>

text \<open>What a scope puts back on every way out of it.\<close>

definition restore_transaction :: "attn_runner \<Rightarrow> attn_runner \<Rightarrow> attn_runner" where
  "restore_transaction s t = t\<lparr>an_pending := an_pending s, an_suppress := an_suppress s, an_warmup := an_warmup s,
     an_capturing := an_capturing s, an_replaying := an_replaying s, an_tracker := an_tracker s, an_replay_hook := an_replay_hook s\<rparr>"

text \<open>\<open>full_decode\<close>: the graph mode is FULL_DECODE_ONLY and there is a graph manager.\<close>

definition attn_execute_model :: "attn_plane \<Rightarrow> bool \<Rightarrow> int \<Rightarrow> native_call list \<Rightarrow> (attn_runner, unit) op" where
  "attn_execute_model plane full_decode scheduled calls = (\<lambda>s.
     let (t, r) =
       (if full_decode \<and> an_replay_hook s \<noteq> None then (s, Inl (RuntimeError ''AFD FULL graph replay hook is already active''))
        else native_run plane calls (s\<lparr>an_replaying := False, an_replay_hook := (if full_decode then Some scheduled else an_replay_hook s)\<rparr>))
     in (restore_transaction s t, r))"

definition attn_capture_model :: "attn_plane \<Rightarrow> graph_desc list \<Rightarrow> nat option \<Rightarrow> native_call list \<Rightarrow> (attn_runner, unit) op" where
  "attn_capture_model plane descs max_full calls = (\<lambda>s.
     let descs = (case max_full of None \<Rightarrow> descs | Some n \<Rightarrow> take n descs) in
     if descs = [] then (s, Inl (RuntimeError ''expected at least one FULL capture descriptor''))
     else if list_ex (\<lambda>d. \<not> gd_full d) descs then (s, Inl (RuntimeError ''expected only FULL capture descriptors''))
     else
       let (t, r) = op_bind (native_run plane calls) (\<lambda>_. tracker_assert_complete)
         (s\<lparr>an_tracker := Some \<lparr>ct_expected = expected_events descs, ct_index = 0\<rparr>\<rparr>)
       in (restore_transaction s t, r))"

section \<open>What is published\<close>

fun published :: "attn_event list \<Rightarrow> control_payload list" where
  "published [] = []"
| "published (Published p # l) = p # published l"
| "published (_ # l) = published l"

lemma published_append [simp]: "published (l @ l') = published l @ published l'"
  by (induction l rule: published.induct) simp_all

text \<open>The flags of a payload and the stages it is about.\<close>

definition payload_kind :: "control_payload \<Rightarrow> bool \<times> bool \<times> bool \<times> int list" where
  "payload_kind p = (is_warmup p, is_graph_capturing p, is_graph_replaying p, map fst (dp_metadata_list p))"

definition stage_count :: "ubatch_slice list option \<Rightarrow> nat" where
  "stage_count slices = (case many_slices slices of Some ubs \<Rightarrow> length ubs | None \<Rightarrow> 1)"

lemma stage_list_Inr:
  assumes "stage_list d slices s = (t, Inr l)"
  shows "t = s" "map fst l = map int [0..<stage_count slices]" "many_slices slices = None \<Longrightarrow> d = Some m \<Longrightarrow> l = [(0, m)]"
proof -
  have len: "build_ubatch_dp_metadata_list n ubs = Inr ms \<Longrightarrow> length ms = length ubs" for n ubs ms
    by (simp add: build_ubatch_dp_metadata_list_def map_result_Inr list_all2_lengthD)
  show "t = s" "map fst l = map int [0..<stage_count slices]" "many_slices slices = None \<Longrightarrow> d = Some m \<Longrightarrow> l = [(0, m)]"
    using assms len by (auto simp: stage_list_def op_bind_Inr stage_count_def ensure_dp_metadata_def split: option.splits)
qed

lemma control_payload_stages: "make_control_payload l c w r pr = Inr p \<Longrightarrow>
  map fst (dp_metadata_list p) = map fst l \<and> is_graph_capturing p = c \<and> is_warmup p = w \<and> is_graph_replaying p = r \<and>
  list_all2 (\<lambda>x y. ensure_afd_dp_metadata (snd x) = Inr (snd y)) l (dp_metadata_list p)"
proof -
  assume a: "make_control_payload l c w r pr = Inr p"
  have stages: "list_all2 (\<lambda>x y. (case x of (s, m) \<Rightarrow> bind_result (ensure_afd_dp_metadata m) (\<lambda>d. Inr (s, d))) = Inr y) l xs \<Longrightarrow>
      map fst xs = map fst l \<and> list_all2 (\<lambda>x y. ensure_afd_dp_metadata (snd x) = Inr (snd y)) l xs" for xs
    by (induction l xs rule: list_all2_induct) (auto simp: bind_result_Inr)
  obtain xs where "map_result (\<lambda>(s, m). bind_result (ensure_afd_dp_metadata m) (\<lambda>d. Inr (s, d))) l = Inr xs"
    "p = \<lparr>dp_metadata_list = xs, is_graph_capturing = c, is_warmup = w, is_graph_replaying = r, is_profile = pr\<rparr>"
    using a unfolding make_control_payload_def bind_result_Inr by auto
  then show ?thesis using stages [of xs] unfolding map_result_Inr by simp
qed

lemma send_Inr:
  assumes "attn_send_dp_metadata plane d slices s = (t, Inr ())"
  shows "\<exists>p. t = s\<lparr>an_log := an_log s @ [Published p]\<rparr> \<and> payload_kind p = (an_warmup s, an_capturing s, an_replaying s, map int [0..<stage_count slices]) \<and>
    (\<forall>m. many_slices slices = None \<longrightarrow> d = Some m \<longrightarrow> (\<exists>x. ensure_afd_dp_metadata m = Inr x \<and> dp_metadata_list p = [(0, x)]))"
proof -
  from assms obtain l p where l: "stage_list d slices s = (s, Inr l)" "make_control_payload l (an_capturing s) (an_warmup s) (an_replaying s) (an_profile s) = Inr p"
    "t = s\<lparr>an_log := an_log s @ [Published p]\<rparr>"
    using stage_list_Inr(1) by (auto simp: attn_send_dp_metadata_def attn_emit_def op_bind_Inr) metis
  note st = stage_list_Inr(2,3) [OF l(1)] and cp = control_payload_stages [OF l(2)]
  have "dp_metadata_list p = [(0, x)] \<and> ensure_afd_dp_metadata m = Inr x"
    if "l = [(0, m)]" "dp_metadata_list p = [y]" "x = snd y" for m y x using cp that by (cases y) auto
  then show ?thesis using l(3) st cp
    by (intro exI [of _ p]) (auto simp: payload_kind_def list_all2_Cons1)
qed

lemma send_Inl: "attn_send_dp_metadata plane d slices s = (t, Inl e) \<Longrightarrow> t = s"
  by (auto simp: attn_send_dp_metadata_def attn_emit_def op_bind_def stage_list_def ensure_dp_metadata_def split: sum.splits option.splits prod.splits)

text \<open>Building metadata takes a transaction id and nothing else.\<close>

lemma build_run: "\<exists>m. build_afd_metadata slices n s = (s\<lparr>an_counter := an_counter s + 1\<rparr>, Inr m) \<and>
    sc_transaction_id m = ''afd-'' @ py_str_int (an_counter s) \<and> sc_num_stages m = int (stage_count slices) \<and>
    sc_tokens_lens m = (case many_slices slices of Some ubs \<Rightarrow> map ub_num_tokens ubs | None \<Rightarrow> [n])"
  by (auto simp: build_afd_metadata_def next_transaction_id_def op_bind_def stage_count_def split: option.split)

section \<open>Captures\<close>

definition event_kind :: "graph_desc \<times> bool \<Rightarrow> bool \<times> bool \<times> bool \<times> int list" where
  "event_kind = (\<lambda>(d, w). (w, \<not> w, False, map int [0..<nat (gd_num_ubatches d)]))"

definition capture_at :: "(bool \<times> bool \<times> bool \<times> int list) list \<Rightarrow> (graph_desc \<times> bool) list \<Rightarrow> nat \<Rightarrow> attn_runner \<Rightarrow> bool" where
  "capture_at base events k s \<longleftrightarrow> an_tracker s = Some \<lparr>ct_expected = events, ct_index = k\<rparr> \<and> k \<le> length events \<and> an_control_plane s \<and>
     an_replay_hook s = None \<and> map payload_kind (published (an_log s)) = base @ map event_kind (take k events)"

fun prepares :: "native_call \<Rightarrow> bool" where
  "prepares (PrepareUbatches _ _ _ _ _ _) = True"
| "prepares (PrepareCapture _ _) = True"
| "prepares _ = False"

lemma consume_at:
  assumes "capture_at base events k s" "tracker_consume r n u s = (t, Inr (d, w))"
  shows "k < length events" "events ! k = (d, w)" "gd_num_ubatches d = u" "t = s\<lparr>an_tracker := Some \<lparr>ct_expected = events, ct_index = k + 1\<rparr>\<rparr>"
  using assms by (auto simp: capture_at_def tracker_consume_def Let_def split: if_splits prod.splits)

lemma take_published:
  assumes "k < length events" "map payload_kind ps = base @ map event_kind (take k events)" "payload_kind p = event_kind (events ! k)"
  shows "map payload_kind (ps @ [p]) = base @ map event_kind (take (Suc k) events)"
  using assms by (simp add: take_Suc_conv_app_nth)

lemma prepare_capture_step:
  assumes at: "capture_at base events k s" and run: "hook_prepare_capture plane r n s = (t, Inr ())"
  shows "capture_at base events (Suc k) t \<and> an_suppress t"
proof -
  obtain d w u where c: "tracker_consume r n 1 s = (u, Inr (d, w))"
    using run by (auto simp: hook_prepare_capture_def op_bind_Inr)
  note k = consume_at [OF at c]
  define v where "v = u\<lparr>an_warmup := w, an_capturing := \<not> w, an_replaying := False\<rparr>"
  obtain m where m: "build_afd_metadata None (gd_num_tokens d) v = (v\<lparr>an_counter := an_counter v + 1\<rparr>, Inr m)" using build_run by blast
  define v' where "v' = v\<lparr>an_counter := an_counter v + 1, an_pending := Some m\<rparr>"
  obtain c' t' where s: "attn_send_dp_metadata plane (Some c') None v' = (t', Inr ())" "t = t'\<lparr>an_suppress := True\<rparr>"
    using run c m by (auto simp: hook_prepare_capture_def op_bind_Inr set_capture_flags_def v_def v'_def)
  obtain p where p: "t' = v'\<lparr>an_log := an_log v' @ [Published p]\<rparr>"
    "payload_kind p = (an_warmup v', an_capturing v', an_replaying v', map int [0..<stage_count None])" using send_Inr [OF s(1)] by blast
  have kind: "payload_kind p = event_kind (events ! k)"
    using p(2) k(2,3) by (simp add: v'_def v_def event_kind_def stage_count_def many_slices_def)
  have "an_log t = an_log s @ [Published p]" using p(1) s(2) k(4) by (simp add: v'_def v_def)
  then have new: "map payload_kind (published (an_log t)) = base @ map event_kind (take (Suc k) events)"
    using take_published [OF k(1) _ kind, of "published (an_log s)" base] at by (simp add: capture_at_def)
  show ?thesis
    using at new k(1,4) p(1) s(2) by (simp add: capture_at_def v'_def v_def)
qed

lemma install_mrv2_Inr:
  assumes "install_mrv2_ubatch_metadata ubs ctxs n s = (t, Inr ready)"
  shows "\<exists>m. t = s\<lparr>an_counter := an_counter s + 1, an_pending := Some m, an_suppress := True\<rparr> \<and> sc_num_stages m = int (stage_count (Some ubs))"
proof -
  obtain m where m: "build_afd_metadata (Some ubs) n s = (s\<lparr>an_counter := an_counter s + 1\<rparr>, Inr m)" "sc_num_stages m = int (stage_count (Some ubs))"
    using build_run by blast
  then show ?thesis using assms by (auto simp: install_mrv2_ubatch_metadata_def op_bind_Inr Let_def)
qed

lemma prepare_ubatches_step:
  assumes at: "capture_at base events k s" and run: "hook_prepare plane ubs ctxs r n padded full s = (t, Inr ())"
    and pos: "list_all (\<lambda>(d, w). 1 \<le> gd_num_ubatches d) events"
  shows "capture_at base events (Suc k) t \<and> an_suppress t"
proof -
  have tr: "an_tracker s \<noteq> None" using at by (simp add: capture_at_def)
  obtain d w u where c: "tracker_consume r padded (int (length ubs)) s = (u, Inr (d, w))"
    using run tr by (auto simp: hook_prepare_def op_bind_Inr)
  note k = consume_at [OF at c]
  define v where "v = u\<lparr>an_warmup := w, an_capturing := \<not> w, an_replaying := False\<rparr>"
  obtain x ready where i: "install_mrv2_ubatch_metadata ubs ctxs n v = (x, Inr ready)"
    using run c tr by (auto simp: hook_prepare_def op_bind_Inr set_capture_flags_def v_def)
  obtain m where m: "x = v\<lparr>an_counter := an_counter v + 1, an_pending := Some m, an_suppress := True\<rparr>" using install_mrv2_Inr [OF i] by blast
  have ctl: "an_control_plane x" using at k(4) by (simp add: m v_def capture_at_def)
  obtain t' where s: "attn_send_dp_metadata plane None (Some ubs) x = (t', Inr ())" "t = t'\<lparr>an_log := an_log t' @ [Prepared ready]\<rparr>"
    using run c i tr ctl by (auto simp: hook_prepare_def op_bind_Inr set_capture_flags_def v_def attn_emit_def)
  obtain p where p: "t' = x\<lparr>an_log := an_log x @ [Published p]\<rparr>"
    "payload_kind p = (an_warmup x, an_capturing x, an_replaying x, map int [0..<stage_count (Some ubs)])" using send_Inr [OF s(1)] by blast
  have "1 \<le> gd_num_ubatches d" using pos k(1,2) by (metis (mono_tags, lifting) case_prod_conv list_all_length)
  then have "stage_count (Some ubs) = nat (gd_num_ubatches d)" using k(3) by (auto simp: stage_count_def many_slices_def)
  then have kind: "payload_kind p = event_kind (events ! k)" using p(2) k(2) by (simp add: m v_def event_kind_def)
  have "an_log t = an_log s @ [Published p, Prepared ready]" using p(1) s(2) k(4) m by (simp add: v_def)
  then have new: "map payload_kind (published (an_log t)) = base @ map event_kind (take (Suc k) events)"
    using take_published [OF k(1) _ kind, of "published (an_log s)" base] at by (simp add: capture_at_def)
  show ?thesis
    using at new k(1,4) p(1) s(2) m by (simp add: capture_at_def v_def)
qed

text \<open>A context whose payload has been sent, or is not to be, only takes the sidecar.\<close>

lemma install_silent:
  assumes "install_afd_metadata_on_forward_context plane c s = (t, Inr c')" "\<not> an_control_plane s \<or> an_suppress s"
  shows "\<exists>m n. t = s\<lparr>an_pending := m, an_counter := n\<rparr>"
proof -
  obtain m where m: "build_afd_metadata (ac_ubatch_slices c) n s = (s\<lparr>an_counter := an_counter s + 1\<rparr>, Inr (m n))" for n
    using build_run [of "ac_ubatch_slices c" _ s] by metis
  have "t = s\<lparr>an_pending := an_pending t, an_counter := an_counter t\<rparr>"
    using assms m
    by (cases "an_pending s"; cases "num_tokens_for_context c")
      (auto simp: install_afd_metadata_on_forward_context_def install_on_context_def op_bind_def Let_def split: if_splits)
  then show ?thesis by blast
qed

lemma capture_step:
  assumes at: "capture_at base events k s" and run: "native_step plane c s = (t, Inr ())"
    and first: "prepares c \<or> an_suppress s" and pos: "list_all (\<lambda>(d, w). 1 \<le> gd_num_ubatches d) events"
  shows "\<exists>k'. capture_at base events k' t \<and> an_suppress t"
proof (cases c)
  case (NewContext x)
  then obtain y u where y: "install_afd_metadata_on_forward_context plane x s = (u, Inr y)" "t = u\<lparr>an_log := an_log u @ [ContextReady y]\<rparr>"
    using run by (auto simp: op_bind_Inr attn_emit_def)
  have "an_suppress s" using first NewContext by simp
  then obtain m n where "u = s\<lparr>an_pending := m, an_counter := n\<rparr>" using install_silent [OF y(1)] by blast
  then show ?thesis using at y(2) \<open>an_suppress s\<close> by (intro exI [of _ k]) (simp add: capture_at_def)
next
  case (PrepareUbatches ubs ctxs r n p full)
  then have "hook_prepare plane ubs ctxs r n p full s = (t, Inr ())" using run by simp
  from prepare_ubatches_step [OF at this pos] show ?thesis by blast
next
  case (RunFullgraph d)
  have "an_replay_hook s = None" using at by (simp add: capture_at_def)
  then have "t = s\<lparr>an_log := an_log s @ [Replay d]\<rparr>" using run RunFullgraph by (auto simp: op_bind_Inr attn_emit_def)
  then show ?thesis using at first RunFullgraph by (intro exI [of _ k]) (simp add: capture_at_def)
next
  case (PrepareCapture r n)
  have "an_tracker s \<noteq> None" using at by (simp add: capture_at_def)
  then have "hook_prepare_capture plane r n s = (t, Inr ())" using run PrepareCapture by (auto simp: op_bind_Inr)
  from prepare_capture_step [OF at this] show ?thesis by blast
next
  case (NativeRaises e)
  then show ?thesis using run by simp
qed

lemma capture_run:
  assumes "native_run plane cs s = (t, Inr ())" "capture_at base events k s" "cs = [] \<or> prepares (hd cs) \<or> an_suppress s"
    and "list_all (\<lambda>(d, w). 1 \<le> gd_num_ubatches d) events"
  shows "\<exists>k'. capture_at base events k' t"
  using assms(1-3)
proof (induction cs arbitrary: s k)
  case (Cons c cs)
  then obtain u where u: "native_step plane c s = (u, Inr ())" "native_run plane cs u = (t, Inr ())" by (auto simp: op_bind_Inr)
  have "prepares c \<or> an_suppress s" using Cons.prems(3) by simp
  then obtain k' where "capture_at base events k' u" "an_suppress u" using capture_step [OF Cons.prems(2) u(1) _ assms(4)] by blast
  then show ?case using Cons.IH [OF u(2)] by blast
qed auto


section \<open>Steps\<close>

text \<open>Every replay of a one-stage graph stands right after a payload that says so.\<close>

definition replay_announced :: "int \<Rightarrow> attn_event list \<Rightarrow> bool" where
  "replay_announced dp l \<longleftrightarrow> (\<forall>i < length l. \<forall>d. l ! i = Replay d \<longrightarrow> gd_num_ubatches d \<le> 1 \<longrightarrow>
     (\<exists>p x. 0 < i \<and> l ! (i - 1) = Published p \<and> payload_kind p = (False, False, True, [0]) \<and>
        dp_metadata_list p = [(0, x)] \<and> num_tokens_across_dp_cpu x = replicate (nat dp) (gd_num_tokens d)))"

lemma replay_announced_snoc:
  assumes "replay_announced dp l" "\<And>d. x = Replay d \<Longrightarrow> gd_num_ubatches d > 1"
  shows "replay_announced dp (l @ [x])"
  unfolding replay_announced_def
proof (intro allI impI)
  fix i d assume a: "i < length (l @ [x])" "(l @ [x]) ! i = Replay d" "gd_num_ubatches d \<le> 1"
  then have i: "i < length l" "l ! i = Replay d" using assms(2) [of d] by (auto simp: nth_append less_Suc_eq)
  then show "\<exists>p y. 0 < i \<and> (l @ [x]) ! (i - 1) = Published p \<and> payload_kind p = (False, False, True, [0]) \<and>
        dp_metadata_list p = [(0, y)] \<and> num_tokens_across_dp_cpu y = replicate (nat dp) (gd_num_tokens d)"
    using assms(1) a(3) by (auto simp: replay_announced_def nth_append)
qed

lemma replay_announced_pair:
  assumes "replay_announced dp l" "payload_kind p = (False, False, True, [0])" "dp_metadata_list p = [(0, x)]"
    "num_tokens_across_dp_cpu x = replicate (nat dp) (gd_num_tokens d)"
  shows "replay_announced dp (l @ [Published p, Replay d])"
proof -
  have l: "replay_announced dp (l @ [Published p])" by (rule replay_announced_snoc [OF assms(1)]) simp
  show ?thesis
    unfolding replay_announced_def
  proof (intro allI impI)
    fix i d' assume a: "i < length (l @ [Published p, Replay d])" "(l @ [Published p, Replay d]) ! i = Replay d'" "gd_num_ubatches d' \<le> 1"
    show "\<exists>q y. 0 < i \<and> (l @ [Published p, Replay d]) ! (i - 1) = Published q \<and> payload_kind q = (False, False, True, [0]) \<and>
        dp_metadata_list q = [(0, y)] \<and> num_tokens_across_dp_cpu y = replicate (nat dp) (gd_num_tokens d')"
    proof (cases "i = Suc (length l)")
      case True
      then have "d' = d" using a(2) by (simp add: nth_append)
      then show ?thesis using True assms(2-4) by (intro exI [of _ p] exI [of _ x]) (simp add: nth_append)
    next
      case False
      then have i: "i < length (l @ [Published p])" using a(1) by simp
      then have "(l @ [Published p]) ! i = Replay d'" using a(2) by (auto simp: nth_append less_Suc_eq)
      then obtain q y where q: "0 < i" "(l @ [Published p]) ! (i - 1) = Published q" "payload_kind q = (False, False, True, [0])"
        "dp_metadata_list q = [(0, y)]" "num_tokens_across_dp_cpu y = replicate (nat dp) (gd_num_tokens d')"
        using l i a(3) unfolding replay_announced_def by blast
      moreover have "(l @ [Published p, Replay d]) ! (i - 1) = (l @ [Published p]) ! (i - 1)" using i q(1) by (auto simp: nth_append)
      ultimately show ?thesis by metis
    qed
  qed
qed

lemma capture_dp_counts:
  "build_capture_dp_metadata dp n = Inr m \<Longrightarrow> ensure_afd_dp_metadata m = Inr x \<Longrightarrow> num_tokens_across_dp_cpu x = replicate (nat dp) n"
  by (auto simp: build_capture_dp_metadata_def Let_def bind_result_Inr make_dp_metadata_def as_tensor32_def split: if_splits)

definition replays_ok :: "attn_runner \<Rightarrow> attn_runner \<Rightarrow> bool" where
  "replays_ok s u \<longleftrightarrow> an_replay_hook u \<noteq> None \<and> an_dp_size u = an_dp_size s \<and>
     (\<exists>l. an_log u = an_log s @ l \<and> replay_announced (an_dp_size s) l)"

lemma emit_keeps_replays: "(\<And>d. x = Replay d \<Longrightarrow> gd_num_ubatches d > 1) \<Longrightarrow> keeps (replays_ok s) (attn_emit x)"
  unfolding attn_emit_def
proof (rule keeps_modify)
  fix u assume a: "\<And>d. x = Replay d \<Longrightarrow> gd_num_ubatches d > 1" and "replays_ok s u"
  then obtain l where l: "an_log u = an_log s @ l" "replay_announced (an_dp_size s) l" by (auto simp: replays_ok_def)
  then show "replays_ok s (u\<lparr>an_log := an_log u @ [x]\<rparr>)"
    using \<open>replays_ok s u\<close> replay_announced_snoc [OF l(2) a] by (auto simp: replays_ok_def)
qed

lemma build_keeps_replays: "keeps (replays_ok s) (build_afd_metadata slices n)"
  unfolding build_afd_metadata_def next_transaction_id_def by (intro keeps_intros) (auto simp: replays_ok_def)

lemma send_keeps_replays: "keeps (replays_ok s) (attn_send_dp_metadata plane d slices)"
  unfolding attn_send_dp_metadata_def stage_list_def ensure_dp_metadata_def
  by (intro keeps_intros emit_keeps_replays) auto

lemma install_keeps_replays: "keeps (replays_ok s) (install_afd_metadata_on_forward_context plane c)"
  unfolding install_afd_metadata_on_forward_context_def install_on_context_def Let_def
  by (intro keeps_intros build_keeps_replays send_keeps_replays) (auto simp: replays_ok_def)

lemma consume_keeps_replays: "keeps (replays_ok s) (tracker_consume r n k)"
  by (auto simp: keeps_def tracker_consume_def Let_def replays_ok_def split: option.split prod.split)

lemma mrv2_keeps_replays: "keeps (replays_ok s) (install_mrv2_ubatch_metadata ubs ctxs n)"
  unfolding install_mrv2_ubatch_metadata_def Let_def by (intro keeps_intros build_keeps_replays) (auto simp: replays_ok_def)

lemma prepare_keeps_replays: "keeps (replays_ok s) (hook_prepare plane ubs ctxs r n p full)"
  unfolding hook_prepare_def set_capture_flags_def
  by (intro keeps_intros consume_keeps_replays mrv2_keeps_replays send_keeps_replays emit_keeps_replays) (auto simp: replays_ok_def)

lemma prepare_capture_keeps_replays: "keeps (replays_ok s) (hook_prepare_capture plane r n)"
  unfolding hook_prepare_capture_def set_capture_flags_def
  by (intro keeps_intros consume_keeps_replays build_keeps_replays send_keeps_replays) (auto simp: replays_ok_def)

lemma fullgraph_keeps_replays: "keeps (replays_ok s) (hook_run_fullgraph plane real d)"
proof (cases "gd_num_ubatches d > 1")
  case True
  then show ?thesis unfolding hook_run_fullgraph_def by (simp only: if_True) (intro keeps_intros emit_keeps_replays; simp)
next
  case False
  show ?thesis
    unfolding keeps_def
  proof (intro allI impI)
    fix u assume u: "replays_ok s u"
    obtain m where m: "build_afd_metadata None real u = (u\<lparr>an_counter := an_counter u + 1\<rparr>, Inr m)" using build_run by blast
    define v where "v = u\<lparr>an_counter := an_counter u + 1, an_pending := Some (m\<lparr>sc_tokens_lens := [gd_num_tokens d]\<rparr>), an_suppress := True,
            an_warmup := False, an_capturing := False, an_replaying := True\<rparr>"
    have v: "replays_ok s v" using u by (simp add: replays_ok_def v_def)
    show "replays_ok s (fst (hook_run_fullgraph plane real d u))"
    proof (cases "build_capture_dp_metadata (an_dp_size v) (gd_num_tokens d)")
      case (Inl e)
      then show ?thesis using v False m by (simp add: hook_run_fullgraph_def op_bind_def v_def replays_ok_def)
    next
      case (Inr c)
      obtain t r where t: "attn_send_dp_metadata plane (Some c) None v = (t, r)" by fastforce
      show ?thesis
      proof (cases r)
        case (Inl e)
        then have "t = v" using t send_Inl by blast
        then show ?thesis using v False m Inr t Inl by (simp add: hook_run_fullgraph_def op_bind_def v_def replays_ok_def)
      next
        case r: (Inr x)
        then obtain p y where p: "t = v\<lparr>an_log := an_log v @ [Published p]\<rparr>"
          "payload_kind p = (False, False, True, [0])" "ensure_afd_dp_metadata c = Inr y" "dp_metadata_list p = [(0, y)]"
          using send_Inr [of plane "Some c" None v t] t by (auto simp: v_def stage_count_def many_slices_def)
        obtain l where l: "an_log u = an_log s @ l" "replay_announced (an_dp_size s) l" "an_dp_size u = an_dp_size s" using u by (auto simp: replays_ok_def)
        have "num_tokens_across_dp_cpu y = replicate (nat (an_dp_size s)) (gd_num_tokens d)"
          using capture_dp_counts [OF Inr p(3)] l(3) by (simp add: v_def)
        from replay_announced_pair [OF l(2) p(2,4) this]
        have "replays_ok s (t\<lparr>an_log := an_log t @ [Replay d]\<rparr>)" using u l p(1) by (auto simp: replays_ok_def v_def)
        moreover have "fst (hook_run_fullgraph plane real d u) = t\<lparr>an_log := an_log t @ [Replay d], an_replaying := an_replaying u\<rparr>"
          using False m Inr t r by (simp add: hook_run_fullgraph_def op_bind_def v_def [symmetric] attn_emit_def) (simp add: v_def)
        ultimately show ?thesis by (simp add: replays_ok_def)
      qed
    qed
  qed
qed

lemma step_keeps_replays: "keeps (replays_ok s) (native_step plane c)"
proof (cases c)
  case (NewContext x)
  then show ?thesis by simp (intro keeps_intros install_keeps_replays emit_keeps_replays; simp)
next
  case (PrepareUbatches ubs ctxs r n p full)
  then show ?thesis by (simp add: prepare_keeps_replays)
next
  case (RunFullgraph d)
  show ?thesis
    unfolding keeps_def
  proof (intro allI impI)
    fix u assume u: "replays_ok s u"
    then obtain n where "an_replay_hook u = Some n" by (auto simp: replays_ok_def)
    then show "replays_ok s (fst (native_step plane c u))" using RunFullgraph keepsD [OF fullgraph_keeps_replays u] by (simp add: op_bind_def)
  qed
next
  case (PrepareCapture r n)
  then show ?thesis by simp (intro keeps_intros prepare_capture_keeps_replays)
next
  case (NativeRaises e)
  then show ?thesis by (simp add: keeps_def)
qed

lemma run_keeps_replays: "keeps (replays_ok s) (native_run plane cs)"
proof (induction cs)
  case Nil
  show ?case by (simp add: keeps_def)
next
  case (Cons c cs)
  show ?case unfolding native_run.simps by (rule keeps_bind [OF step_keeps_replays Cons.IH])
qed

text \<open>C10: in a step of a runner with FULL decode graphs, whatever vLLM does and whatever raises, a one-stage graph is replayed only right
  after the FFN ranks have been told: a payload flagged as a replay, of one stage, with the padded token count of the graph on every rank.\<close>
theorem replays_are_announced:
  assumes "an_replay_hook s = None" "an_log (fst (attn_execute_model plane True scheduled calls s)) = an_log s @ new"
    and "new ! i = Replay d" "i < length new" "gd_num_ubatches d \<le> 1"
  shows "\<exists>p x. 0 < i \<and> new ! (i - 1) = Published p \<and> payload_kind p = (False, False, True, [0]) \<and>
    dp_metadata_list p = [(0, x)] \<and> num_tokens_across_dp_cpu x = replicate (nat (an_dp_size s)) (gd_num_tokens d)"
proof -
  let ?s = "s\<lparr>an_replaying := False, an_replay_hook := Some scheduled\<rparr>"
  have "replays_ok s ?s" unfolding replays_ok_def by (simp add: replay_announced_def)
  from keepsD [OF run_keeps_replays this] have "replays_ok s (fst (native_run plane calls ?s))" .
  then obtain l where "an_log (fst (native_run plane calls ?s)) = an_log s @ l" "replay_announced (an_dp_size s) l" by (auto simp: replays_ok_def)
  moreover have "an_log (fst (attn_execute_model plane True scheduled calls s)) = an_log (fst (native_run plane calls ?s))"
    using assms(1) by (simp add: attn_execute_model_def Let_def restore_transaction_def split: prod.split)
  ultimately have "replay_announced (an_dp_size s) new" using assms(2) by simp
  then show ?thesis using assms(3-5) unfolding replay_announced_def by blast
qed

text \<open>A context that opens a transaction is announced once, before it is used, under the next transaction id and with
  as many stages as the sidecar it takes.\<close>
theorem opened_transaction_is_announced:
  assumes "install_on_context plane c s = (t, Inr c')" "an_pending s = None" "an_control_plane s" "\<not> an_suppress s" "ac_sidecar c = None"
  shows "\<exists>m p. ac_sidecar c' = Some m \<and> an_pending t = Some m \<and> an_log t = an_log s @ [Published p] \<and>
    map fst (dp_metadata_list p) = map int [0..<nat (sc_num_stages m)] \<and>
    sc_transaction_id m = ''afd-'' @ py_str_int (an_counter s) \<and> an_counter t = an_counter s + 1"
proof -
  obtain n where n: "num_tokens_for_context c = Inr n"
    using assms by (cases "num_tokens_for_context c") (auto simp: install_on_context_def op_bind_def)
  obtain m where m: "build_afd_metadata (ac_ubatch_slices c) n s = (s\<lparr>an_counter := an_counter s + 1\<rparr>, Inr m)"
    "sc_transaction_id m = ''afd-'' @ py_str_int (an_counter s)" "sc_num_stages m = int (stage_count (ac_ubatch_slices c))"
    using build_run by blast
  let ?u = "s\<lparr>an_counter := an_counter s + 1, an_pending := Some m\<rparr>"
  obtain d where "attn_send_dp_metadata plane d (ac_ubatch_slices c) ?u = (t, Inr ())" "c' = c\<lparr>ac_sidecar := Some m\<rparr>"
    using assms n m(1) by (auto simp: install_on_context_def op_bind_Inr Let_def split: option.splits if_splits)
  with send_Inr [OF this(1)] m(2,3) show ?thesis by (auto simp: payload_kind_def)
qed

end
