(* ===== verification/Attention_Samples.thy ===== *)
theory Attention_Samples
  imports Attention_Runner
begin

text \<open>
  A runner of two data-parallel ranks that captures two graphs, one of them of two stages, and then
  runs a step that replays the other, on which the properties of \<open>Attention_Runner\<close> are applied.
\<close>

definition sample_attn :: attn_runner where
  "sample_attn = \<lparr>an_control_plane = True, an_dp_size = 2, an_dp_rank = 0, an_warmup = False, an_capturing = False, an_replaying = False,
     an_profile = False, an_counter = 3, an_pending = None, an_suppress = False, an_log = [], an_tracker = None, an_replay_hook = None\<rparr>"

definition sample_plane :: attn_plane where
  "sample_plane = (\<lambda>_ _. Inr ())"

definition sample_context :: attn_context where
  "sample_context = \<lparr>ac_ubatch_slices = None, ac_dp_metadata = Some (NativeDP [7, 5]), ac_descriptor_tokens = Some 7, ac_full_graph = False,
     ac_attn_metadata = True, ac_sidecar = None\<rparr>"

definition sample_slices :: "ubatch_slice list" where
  "sample_slices = [\<lparr>ub_token_start = 0, ub_token_stop = 4, ub_request_start = 0, ub_num_tokens = 4\<rparr>,
     \<lparr>ub_token_start = 4, ub_token_stop = 8, ub_request_start = 4, ub_num_tokens = 4\<rparr>]"

definition sample_descs :: "graph_desc list" where
  "sample_descs = [\<lparr>gd_num_reqs = 8, gd_num_tokens = 8, gd_num_ubatches = 2, gd_full = True\<rparr>,
     \<lparr>gd_num_reqs = 4, gd_num_tokens = 4, gd_num_ubatches = 1, gd_full = True\<rparr>]"

definition sample_capture :: "native_call list" where
  "sample_capture =
     [PrepareUbatches sample_slices [sample_context, sample_context] 8 8 8 True, PrepareUbatches sample_slices [sample_context, sample_context] 8 8 8 True,
      PrepareCapture 4 4, NewContext sample_context, PrepareCapture 4 4, NewContext sample_context]"


text \<open>The replay of the smaller graph, for three real tokens.\<close>

theorem replays_are_announced_witness:
  "\<exists>p x. an_log (fst (attn_execute_model sample_plane True 3 [RunFullgraph (sample_descs ! 1)] sample_attn)) = [Published p, Replay (sample_descs ! 1)] \<and>
    payload_kind p = (False, False, True, [0]) \<and> dp_metadata_list p = [(0, x)] \<and> num_tokens_across_dp_cpu x = [4, 4]"
proof -
  let ?l = "an_log (fst (attn_execute_model sample_plane True 3 [RunFullgraph (sample_descs ! 1)] sample_attn))"
  have l: "length ?l = 2" "?l ! 1 = Replay (sample_descs ! 1)" by code_simp+
  have "an_replay_hook sample_attn = None" "an_log sample_attn = []" "gd_num_ubatches (sample_descs ! 1) \<le> 1" "nat (an_dp_size sample_attn) = 2"
    "gd_num_tokens (sample_descs ! 1) = 4" by (simp_all add: sample_attn_def sample_descs_def)
  then obtain p x where p: "?l ! 0 = Published p" "payload_kind p = (False, False, True, [0])" "dp_metadata_list p = [(0, x)]"
    "num_tokens_across_dp_cpu x = replicate 2 4"
    using replays_are_announced [of sample_attn sample_plane 3 "[RunFullgraph (sample_descs ! 1)]" ?l 1 "sample_descs ! 1"] l by auto
  have "?l = [?l ! 0, ?l ! 1]" using l(1) by (cases ?l; cases "tl ?l") auto
  then show ?thesis using p l(2) by (metis (no_types, lifting) numeral_2_eq_2 replicate_0 replicate_Suc)
qed

theorem opened_transaction_is_announced_witness:
  "\<exists>m p. snd (install_on_context sample_plane sample_context sample_attn) = Inr (sample_context\<lparr>ac_sidecar := Some m\<rparr>) \<and>
    sc_transaction_id m = ''afd-3'' \<and> an_log (fst (install_on_context sample_plane sample_context sample_attn)) = [Published p] \<and>
    map fst (dp_metadata_list p) = [0]"
proof -
  let ?r = "install_on_context sample_plane sample_context sample_attn"
  obtain t r where t: "?r = (t, r)" by fastforce
  have ok: "case snd ?r of Inl _ \<Rightarrow> False | Inr c \<Rightarrow> (case ac_sidecar c of None \<Rightarrow> False | Some m \<Rightarrow>
      c = sample_context\<lparr>ac_sidecar := Some m\<rparr> \<and> sc_transaction_id m = ''afd-3'' \<and> sc_num_stages m = 1)" by code_simp
  then obtain c' m where c: "r = Inr c'" "ac_sidecar c' = Some m" "c' = sample_context\<lparr>ac_sidecar := Some m\<rparr>" "sc_transaction_id m = ''afd-3''" "sc_num_stages m = 1"
    by (auto simp: t split: sum.splits option.splits)
  have "an_pending sample_attn = None" "an_control_plane sample_attn" "\<not> an_suppress sample_attn" "ac_sidecar sample_context = None" "an_log sample_attn = []"
    by (simp_all add: sample_attn_def sample_context_def)
  with opened_transaction_is_announced [OF t [unfolded c(1)]] obtain p where "an_log t = [Published p]" "map fst (dp_metadata_list p) = map int [0..<1]"
    using c(2,5) by auto
  then show ?thesis using c t by (intro exI [of _ m] exI [of _ p]) simp
qed

end
