(* ===== verification/Spec2Isabelle.thy ===== *)
theory Spec2Isabelle
  imports Validation Worker_Samples Proxy_Samples Async_Samples Attention_Samples
begin

text \<open>
  AFD plugin: the Attention and the FFN layers of a mixture-of-experts model run on separate ranks,
  which exchange hidden states through a connector at every layer.

  \<^bold>\<open>The program.\<close>  A deployment has \<open>num_attention_ranks\<close> Attention ranks, ordinary vLLM workers whose model leaves
  out the FFN layers, and \<open>num_ffn_ranks\<close> FFN ranks, workers that only run a loop.  Before a step the Attention
  side publishes a \<^emph>\<open>control payload\<close>: per microbatch (stage) the token counts of all data-parallel ranks, and
  whether the step is a warm-up, is captured into a CUDA graph, or replays one.  Every FFN rank receives the payload, works out
  how many rows it will be sent, and runs the layers: receive, experts, send back.  A connector provides both planes.
  \<open>connectors/gpu/p2p.py\<close> is NCCL send and receive between an FFN rank and its block of Attention ranks;
  \<open>connectors/gpu/deepep_m2n\<close> dispatches routed rows to expert owners over afdEP buffers; \<open>connectors/npu/async_cam.py\<close>
  has no control plane in a step: an FFN rank takes work items as they come.  \<open>tools/proxy_server.py\<close>, a process of its own, spreads
  the requests of clients over prefill and decode servers.

  \<^bold>\<open>Conventions.\<close>  A stateful operation is an \<open>op\<close>, a function from the state to the state it leaves
  and a result, \<open>Inl\<close> an exception or \<open>Inr\<close> a value: what was written before an exception stays written.  What is not under
  \<open>src/\<close> - process groups, NCCL, afdEP and CAM operators, HTTP, vLLM's own functions - is a parameter that answers with any result
  of its type; where a theorem needs a documented property of it, that is a named hypothesis.  Tensors
  are what the code reads of them: shapes, addresses, rows.  Device work is a log in issue order, and
  \<open>ordered\<close> and \<open>tw_before\<close> derive from it, stream by stream and event by event, what is complete before what.
  Threads and ranks that run side by side are inductive step relations, one step per access to something
  shared.  Python's integers are \<open>int\<close>, \<open>torch.int32\<close> tensors are wrapped at 32 bits, \<open>dict\<close>s
  are association lists in insertion order.  Loops are structural recursions over what they iterate; there is no fuel.
  Waits that may not end are steps that may not be taken, and the liveness theorems bound the steps that are.

  \<^bold>\<open>Shared theories.\<close>
  \<^item> \<open>AFD_Prelude\<close>: exceptions, results, \<open>op\<close> and its combinators, dictionaries, ranges, and the rules \<open>op_spec\<close> by which
    an invariant of the state is pushed through an operation on all of its paths.
  \<^item> \<open>Py_Value\<close>: configuration values and \<open>config_utils.py\<close>.  \<open>Vllm_Config\<close>: the attributes of vLLM's configuration that are read.
  \<^item> \<open>Config\<close>: \<open>config.py\<close>; parsing, aliases, validation.  \<open>Validation\<close>: \<open>validation.py\<close>, the registration tables of
    \<open>__init__.py\<close> and the architecture names of \<open>model_utils.py\<close>.
  \<^item> \<open>Topology\<close>: \<open>distributed/topology.py\<close>.  The assignment of Attention ranks to FFN ranks is the interface
    \<open>block_partition\<close>: owners and blocks are inverse, blocks are disjoint, cover everything and differ in size by at most one.
  \<^item> \<open>Graph\<close>: \<open>v1/worker/cuda_graph.py\<close>; the keys of captured graphs and the mode of a step.
  \<^item> \<open>Json\<close> and \<open>Metadata\<close>: the part of \<open>json\<close> that is used, with its round trip, and \<open>connectors/metadata.py\<close>: token
    metadata, the control payload and its wire format.  \<open>Ffn_Tokens\<close>: the counts of \<open>v1/worker/ffn_metadata.py\<close>.

  \<^bold>\<open>The P2P connector\<close> (\<open>connectors/gpu/p2p.py\<close>).  \<open>P2P\<close> has the state of the connector object and one definition per method,
  \<open>P2P_Exchange\<close> the data plane: both ends compute the same shapes from one payload, whatever the remainders of the
  division of ranks, an FFN rank returns to each peer the results of exactly its rows, and the addresses a graph
  was captured with do not move.  \<open>P2P_Lifecycle\<close> has set-up, close, and the way of a payload to every FFN rank.

  \<^bold>\<open>The DeepEP connector\<close> (\<open>connectors/gpu/deepep_m2n\<close>).  \<open>Deepep_Layout\<close> is \<open>layout.py\<close> and the pure part of \<open>network.py\<close>,
  \<open>Deepep_Plan\<close> the planning functions of \<open>connector.py\<close> (capacity, buckets, kernels to compile), \<open>Deepep_Handshake\<close>
  the reports all ranks compare, \<open>Deepep_Connector\<close> the object, its lanes and its control plane.  \<open>Deepep_Order\<close> shows the
  order of the work of one lane on the device, \<open>Deepep_Pairing\<close> that a combine belongs to the dispatch before it,
  \<open>Deepep_Startup\<close> that no kernel is compiled while serving and that a failed start leaves nothing behind.

  \<^bold>\<open>The asynchronous CAM connector\<close> (\<open>connectors/npu/async_cam.py\<close>).  \<open>Async_Cam\<close>: its options, its queue of dispatches per stage, its
  work items.  \<open>Async_Startup\<close> (\<open>async_cam_startup.py\<close>): the ranks agree on an execution mode through
  a shared key-value store; any interleaving, failure and timeout is a run of \<open>su_step\<close>, and a phase is a barrier in all of them.
  \<open>Async_Two_Stream\<close> (\<open>v1/worker/npu/async_ffn_two_stream.py\<close>): two slots on two streams; every use of a slot is ordered after the
  earlier ones.  \<open>Async_Ffn_Runner\<close> (\<open>async_ffn_model_runner.py\<close> and the drain of \<open>npu/ffn_worker.py\<close>): what a rank publishes it can serve,
  the eager loops answer in order, and nothing is freed under a receiver that still runs.

  \<^bold>\<open>The FFN side\<close> (\<open>v1/worker\<close>).  \<open>Ffn_Runner\<close> (\<open>ffn_model_runner.py\<close>) is a step over layers and stages on the P2P connector, with
  capture and replay; \<open>Ffn_Routed\<close> (\<open>ffn_routed_experts_model_runner.py\<close>) the step on a routed connector, which
  it knows as a record of operations.  \<open>Ffn_Worker\<close> (\<open>ffn_worker.py\<close>) is the daemon loop, its start and its stop as
  two interleaving threads, on any control plane that meets the interface \<open>closing_plane\<close>; \<open>Worker_Planes\<close> shows that the two GPU
  connectors meet it, and that stopping a healthy loop never looks like a failure.

  \<^bold>\<open>The Attention side.\<close>  \<open>Attention_Runner\<close> is \<open>attention_metadata.py\<close> and the scopes that \<open>attention_model_runner_v2.py\<close> puts around vLLM's
  execution and capture.  vLLM is any program that calls the hooks: capture announces each graph twice and in order, and a
  replay follows the payload that announces it.

  \<^bold>\<open>The proxy\<close> (\<open>tools/proxy_server.py\<close>).  \<open>Proxy_Scheduler\<close> has the methods of \<open>SharedProxyScheduler\<close> on the lazily cleaned heap,
  loads over any linear order with the operations of floats (which need not be associative), \<open>Proxy_Invariant\<close> the heap's
  invariant, \<open>Proxy_Properties\<close> what callers are promised.  \<open>Proxy_Requests\<close> is the handling of one request, its awaits answered by an
  arbitrary script; \<open>Proxy_Accounts\<close> balances what it takes and gives back.  \<open>Proxy_Listener\<close> and \<open>Proxy_Clients\<close> are the threads
  that admit and remove servers.

  The theories whose names end in \<open>Samples\<close> run the properties on concrete deployments.

  \<^bold>\<open>Not modelled.\<close>
  \<^item> \<open>connectors/base.py\<close>, \<open>factory.py\<close>, \<open>envs.py\<close>: abstract declarations, a table of class paths, environment variables.
  \<^item> \<open>distributed/afd_process_group.py\<close>: \<open>init_process_group\<close> again, on the internals of torch; groups are parameters.
  \<^item> \<open>experts.py\<close>, \<open>deepgemm.py\<close>, \<open>fp8_quant.py\<close> of DeepEP, \<open>model_executor/models\<close>: floating-point computation on devices; a runner
    takes it as a function on rows.
  \<^item> The synchronous NPU runners, the Attention workers, \<open>dbo.py\<close> and \<open>ubatch_wrapper.py\<close>: vLLM-Ascend contexts, ACL
    graphs, and threads on barriers of vLLM; \<open>compat\<close>: copies of vLLM functions with lines inserted, whose meaning is vLLM's.
  \<^item> Within modelled files: the HCCL group and the operators of the CAM connectors, topology discovery by NVML, the configuration
    hash, weight loading and profiling, device set-up, the JSON text of a start-up plan, the set-up of the proxy process, and
    \<open>cam_receive_capacity\<close>, which multiplies binary32 floats.
  \<^item> C++ kernels under \<open>csrc\<close>, benchmarks, lint hooks and build files.
\<close>

end
